theory Spec2Isabelle
  imports Main
begin

section \<open>JavaScript strings\<close>

text \<open>
  A JavaScript string is a sequence of UTF-16 code units; the regular expressions of the
  source carry no \<open>u\<close> flag, so they too work on code units. A string is modelled as the
  list of its code units, and \<open>str\<close> embeds an ASCII literal.
\<close>

type_synonym jsstring = "nat list"

definition str :: "string \<Rightarrow> jsstring" where
  "str s = map of_char s"

text \<open>ECMAScript \<open>LineTerminator\<close>: LF, CR, U+2028, U+2029.\<close>

definition isLineTerminator :: "nat \<Rightarrow> bool" where
  "isLineTerminator c = (c = 0x0A \<or> c = 0x0D \<or> c = 0x2028 \<or> c = 0x2029)"

text \<open>
  The class \<open>\s\<close> of a regular expression, which is also what \<open>String.prototype.trim\<close>
  strips: \<open>WhiteSpace\<close> (TAB, VT, FF, SP, NBSP, ZWNBSP and category Zs) and
  \<open>LineTerminator\<close>.
\<close>

definition isWhiteSpace :: "nat \<Rightarrow> bool" where
  "isWhiteSpace c =
     (c = 0x09 \<or> c = 0x0B \<or> c = 0x0C \<or> c = 0x20 \<or> c = 0xA0 \<or> c = 0x1680
      \<or> (0x2000 \<le> c \<and> c \<le> 0x200A) \<or> c = 0x202F \<or> c = 0x205F \<or> c = 0x3000
      \<or> c = 0xFEFF \<or> isLineTerminator c)"

text \<open>\<open>s.trim()\<close>\<close>

definition trim :: "jsstring \<Rightarrow> jsstring" where
  "trim s = rev (dropWhile isWhiteSpace (rev (dropWhile isWhiteSpace s)))"

text \<open>\<open>s.startsWith(p)\<close>, \<open>s.endsWith(p)\<close>, \<open>s.includes(p)\<close>\<close>

definition startsWith :: "jsstring \<Rightarrow> jsstring \<Rightarrow> bool" where
  "startsWith s p = (take (length p) s = p)"

definition endsWith :: "jsstring \<Rightarrow> jsstring \<Rightarrow> bool" where
  "endsWith s p = startsWith (rev s) (rev p)"

fun includesStr :: "jsstring \<Rightarrow> jsstring \<Rightarrow> bool" where
  "includesStr [] p = (p = [])"
| "includesStr (c # cs) p = (startsWith (c # cs) p \<or> includesStr cs p)"

text \<open>
  \<open>s.replace(p, r)\<close> with a string pattern: only the first occurrence is replaced.
  (The replacement strings of the source contain no \<open>$\<close>.)
\<close>

fun replaceFirst :: "jsstring \<Rightarrow> jsstring \<Rightarrow> jsstring \<Rightarrow> jsstring" where
  "replaceFirst [] p r = (if p = [] then r else [])"
| "replaceFirst (c # cs) p r =
     (if startsWith (c # cs) p then r @ drop (length p) (c # cs)
      else c # replaceFirst cs p r)"

text \<open>
  \<open>s.split(/\s+/)\<close>: the pieces between the maximal runs of whitespace. The empty
  string gives one empty piece; leading or trailing whitespace gives an empty first or
  last piece.
\<close>

function splitWs :: "jsstring \<Rightarrow> jsstring list" where
  "splitWs s =
     (let tok = takeWhile (\<lambda>c. \<not> isWhiteSpace c) s;
          rest = dropWhile (\<lambda>c. \<not> isWhiteSpace c) s
      in if rest = [] then [tok] else tok # splitWs (dropWhile isWhiteSpace rest))"
  by pat_completeness auto
termination
proof (relation "measure length")
  show "wf (measure length)" by simp
next
  fix s :: jsstring and tok rest
  assume r: "rest = dropWhile (\<lambda>c. \<not> isWhiteSpace c) s" and ne: "rest \<noteq> []"
  have "length (dropWhile isWhiteSpace rest) < length rest"
  proof (cases rest)
    case Nil
    with ne show ?thesis by simp
  next
    case (Cons c cs)
    with r have "isWhiteSpace c"
      by (metis hd_dropWhile list.sel(1) ne)
    with Cons show ?thesis
      by (simp add: le_imp_less_Suc length_dropWhile_le)
  qed
  moreover have "length rest \<le> length s"
    unfolding r by (rule length_dropWhile_le)
  ultimately show "(dropWhile isWhiteSpace rest, s) \<in> measure length"
    by simp
qed

section \<open>Word count and Markdown clean-up (ContentExtractor)\<close>

text \<open>
  \<^verbatim>\<open>
  private countWords(text: string): number {
    return text.trim().split(/\s+/).filter(Boolean).length;
  }
  \<close>
\<close>

definition countWords :: "jsstring \<Rightarrow> nat" where
  "countWords text = length (filter (\<lambda>t. t \<noteq> []) (splitWs (trim text)))"

text \<open>
  The specification's measure, written from its words: the number of
  whitespace-separated non-empty tokens of a string, that is, the number of positions
  where a non-whitespace character follows the start of the string or a whitespace
  character.
\<close>

fun tokenStarts :: "bool \<Rightarrow> jsstring \<Rightarrow> nat" where
  "tokenStarts afterWs [] = 0"
| "tokenStarts afterWs (c # cs) =
     (if isWhiteSpace c then tokenStarts True cs
      else (if afterWs then 1 else 0) + tokenStarts False cs)"

definition tokenCount :: "jsstring \<Rightarrow> nat" where
  "tokenCount s = tokenStarts True s"

text \<open>
  \<open>markdown.replace(/\n{3,}/g, "\n\n")\<close>: scanning from the left, a run of three or
  more LF is matched whole (the quantifier is greedy) and replaced by two.
\<close>

function collapseNewlines :: "jsstring \<Rightarrow> jsstring" where
  "collapseNewlines [] = []"
| "collapseNewlines (c # cs) =
     (if 3 \<le> length (takeWhile (\<lambda>x. x = 0x0A) (c # cs))
      then [0x0A, 0x0A] @ collapseNewlines (dropWhile (\<lambda>x. x = 0x0A) (c # cs))
      else c # collapseNewlines cs)"
  by pat_completeness auto
termination
proof (relation "measure length")
  show "wf (measure length)" by simp
next
  fix c :: nat and cs :: jsstring
  assume "3 \<le> length (takeWhile (\<lambda>x. x = 0x0A) (c # cs))"
  then have "c = 0x0A" by (auto split: if_splits)
  then show "(dropWhile (\<lambda>x. x = 0x0A) (c # cs), c # cs) \<in> measure length"
    by (simp add: le_imp_less_Suc length_dropWhile_le)
next
  fix c :: nat and cs :: jsstring
  show "(cs, c # cs) \<in> measure length" by simp
qed

text \<open>
  \<open>.replace(/^\s+$/gm, "")\<close>. With the \<open>m\<close> flag \<open>^\<close> holds at the start of the
  input and after a line terminator, \<open>$\<close> at the end of the input and before a line
  terminator. \<open>\s+\<close> is greedy and also consumes line terminators, so at a line start
  the match is the longest non-empty run of whitespace that ends where \<open>$\<close> holds
  (backtracking shortens the run until it does). \<open>blankMatch s\<close> is that length minus
  one, when there is a match at the head of \<open>s\<close>.
\<close>

definition dollarAt :: "jsstring \<Rightarrow> bool" where
  "dollarAt t = (case t of [] \<Rightarrow> True | c # _ \<Rightarrow> isLineTerminator c)"

definition caretAt :: "nat option \<Rightarrow> bool" where
  "caretAt prev = (case prev of None \<Rightarrow> True | Some p \<Rightarrow> isLineTerminator p)"

definition blankMatch :: "jsstring \<Rightarrow> nat option" where
  "blankMatch s =
     List.find (\<lambda>k. dollarAt (drop (Suc k) s))
       (rev [0 ..< length (takeWhile isWhiteSpace s)])"

text \<open>
  The global replacement scans from the left; \<open>prev\<close> is the code unit before the
  current position in the input (\<open>None\<close> at its start). After a match the scan
  resumes behind it.
\<close>

function stripBlankLines :: "nat option \<Rightarrow> jsstring \<Rightarrow> jsstring" where
  "stripBlankLines prev [] = []"
| "stripBlankLines prev (c # cs) =
     (if caretAt prev then
        (case blankMatch (c # cs) of
           Some k \<Rightarrow> stripBlankLines (Some ((c # cs) ! k)) (drop k cs)
         | None \<Rightarrow> c # stripBlankLines (Some c) cs)
      else c # stripBlankLines (Some c) cs)"
  by pat_completeness auto
termination
  by (relation "measure (\<lambda>(prev, s). length s)") auto

text \<open>
  \<^verbatim>\<open>
  private cleanMarkdown(markdown: string): string {
    return markdown
      .replace(/\n{3,}/g, "\n\n")
      .replace(/^\s+$/gm, "")
      .trim();
  }
  \<close>
\<close>

definition cleanMarkdown :: "jsstring \<Rightarrow> jsstring" where
  "cleanMarkdown markdown = trim (stripBlankLines None (collapseNewlines markdown))"


section \<open>Platform interfaces used by ContentExtractor\<close>

text \<open>Errors that can be thrown: the JavaScript error classes the code meets.\<close>

datatype js_error =
    Error jsstring
  | TypeError jsstring
  | SyntaxError jsstring
  | DOMException jsstring jsstring  \<comment> \<open>name, message\<close>

fun message :: "js_error \<Rightarrow> jsstring" where
  "message (Error m) = m"
| "message (TypeError m) = m"
| "message (SyntaxError m) = m"
| "message (DOMException n m) = m"

text \<open>What \<open>new URL(s)\<close> exposes to the code: \<open>hostname\<close> and \<open>pathname\<close>.\<close>

record parsed_url =
  hostname :: jsstring
  pathname :: jsstring

datatype http_method = GET | HEAD

record request =
  req_method :: http_method
  req_url :: jsstring
  req_headers :: "(jsstring \<times> jsstring) list"

text \<open>
  A \<open>fetch\<close> response as the code reads it: \<open>ok\<close>, \<open>status\<close>, \<open>statusText\<close>, \<open>url\<close>
  (the final URL after redirects) and the body text.
\<close>

record response =
  resp_ok :: bool
  resp_status :: nat
  resp_statusText :: jsstring
  resp_url :: jsstring
  resp_text :: jsstring

text \<open>
  The platform: the WHATWG URL parser (\<open>None\<close> when \<open>new URL\<close> throws), the network
  (\<open>fetch\<close> threads a world state \<open>'w\<close>; \<open>Inl\<close> is a rejected promise), and the DOM
  and Turndown libraries of the generic HTML path, taken together as the two functions
  of the page source that the code computes with them: \<open>extractTitle(parseHTML(html))\<close>
  and \<open>turndown(extractMainContent(parseHTML(html)))\<close>.
\<close>

record 'w platform =
  parseURL :: "jsstring \<Rightarrow> parsed_url option"
  fetch :: "'w \<Rightarrow> request \<Rightarrow> (js_error + response) \<times> 'w"
  htmlTitle :: "jsstring \<Rightarrow> jsstring"
  htmlMarkdown :: "jsstring \<Rightarrow> jsstring"

text \<open>
  A reading of the URL parser on plain URLs
  \<open>http(s)://host[:port][/path][?query][#fragment]\<close> with a lower-case ASCII host,
  to evaluate the definitions on concrete inputs.
\<close>

definition simpleURL :: "jsstring \<Rightarrow> parsed_url option" where
  "simpleURL s =
     (let rest = (if startsWith s (str ''https://'') then Some (drop 8 s)
                  else if startsWith s (str ''http://'') then Some (drop 7 s)
                  else None)
      in case rest of
           None \<Rightarrow> None
         | Some r \<Rightarrow>
             (let isDelim = (\<lambda>c. c = 0x2F \<or> c = 0x3F \<or> c = 0x23);
                  authority = takeWhile (\<lambda>c. \<not> isDelim c) r;
                  after = dropWhile (\<lambda>c. \<not> isDelim c) r;
                  host = takeWhile (\<lambda>c. c \<noteq> 0x3A) authority;
                  path = takeWhile (\<lambda>c. c \<noteq> 0x3F \<and> c \<noteq> 0x23) after
              in if host = [] then None
                 else Some \<lparr>hostname = host,
                            pathname = (if path = [] then str ''/'' else path)\<rparr>))"

text \<open>Decimal rendering of a number in a template literal.\<close>

function showNat :: "nat \<Rightarrow> jsstring" where
  "showNat n = (if n < 10 then [0x30 + n] else showNat (n div 10) @ [0x30 + n mod 10])"
  by pat_completeness auto
termination
  by (relation "measure id") auto

section \<open>ContentExtractor\<close>

record extracted_content =
  title :: jsstring
  content :: jsstring
  url :: jsstring
  wordCount :: nat

text \<open>
  \<^verbatim>\<open>
  private isUrlShortener(url: string): boolean {
    try {
      const parsed = new URL(url);
      const shorteners = ["t.co", "bit.ly", "tinyurl.com", "goo.gl", "ow.ly", "is.gd"];
      return shorteners.includes(parsed.hostname);
    } catch { return false; }
  }
  \<close>
\<close>

definition shorteners :: "jsstring list" where
  "shorteners = [str ''t.co'', str ''bit.ly'', str ''tinyurl.com'', str ''goo.gl'',
                 str ''ow.ly'', str ''is.gd'']"

definition isUrlShortener :: "'w platform \<Rightarrow> jsstring \<Rightarrow> bool" where
  "isUrlShortener P u =
     (case parseURL P u of None \<Rightarrow> False | Some parsed \<Rightarrow> hostname parsed \<in> set shorteners)"

text \<open>
  \<^verbatim>\<open>
  private async resolveShortUrl(url: string): Promise<string> {
    try {
      const response = await fetch(url, { method: "HEAD", redirect: "follow" });
      return response.url;
    } catch {
      try {
        const response = await fetch(url, { redirect: "follow" });
        return response.url;
      } catch { return url; }
    }
  }
  \<close>
\<close>

definition headRequest :: "jsstring \<Rightarrow> request" where
  "headRequest u = \<lparr>req_method = HEAD, req_url = u, req_headers = []\<rparr>"

definition getRequest :: "jsstring \<Rightarrow> (jsstring \<times> jsstring) list \<Rightarrow> request" where
  "getRequest u hs = \<lparr>req_method = GET, req_url = u, req_headers = hs\<rparr>"

definition resolveShortUrl :: "'w platform \<Rightarrow> 'w \<Rightarrow> jsstring \<Rightarrow> jsstring \<times> 'w" where
  "resolveShortUrl P w u =
     (case fetch P w (headRequest u) of
        (Inr response, w1) \<Rightarrow> (resp_url response, w1)
      | (Inl e, w1) \<Rightarrow>
          (case fetch P w1 (getRequest u []) of
             (Inr response, w2) \<Rightarrow> (resp_url response, w2)
           | (Inl e', w2) \<Rightarrow> (u, w2)))"

text \<open>
  \<^verbatim>\<open>
  private convertGitHubUrl(url: string): string {
    try {
      const parsed = new URL(url);
      if (parsed.hostname === "github.com" && parsed.pathname.includes("/blob/")) {
        const newPath = parsed.pathname.replace("/blob/", "/");
        return `https://raw.githubusercontent.com${newPath}`;
      }
      return url;
    } catch { return url; }
  }
  \<close>
\<close>

definition convertGitHubUrl :: "'w platform \<Rightarrow> jsstring \<Rightarrow> jsstring" where
  "convertGitHubUrl P u =
     (case parseURL P u of
        None \<Rightarrow> u
      | Some parsed \<Rightarrow>
          (if hostname parsed = str ''github.com'' \<and> includesStr (pathname parsed) (str ''/blob/'')
           then str ''https://raw.githubusercontent.com''
                  @ replaceFirst (pathname parsed) (str ''/blob/'') (str ''/'')
           else u))"

definition isRawTextUrl :: "'w platform \<Rightarrow> jsstring \<Rightarrow> bool" where
  "isRawTextUrl P u =
     (case parseURL P u of
        None \<Rightarrow> False
      | Some parsed \<Rightarrow> hostname parsed = str ''raw.githubusercontent.com'')"

definition jsHeavyDomains :: "jsstring list" where
  "jsHeavyDomains = [str ''twitter.com'', str ''x.com'', str ''mobile.twitter.com'',
                     str ''mobile.x.com'']"

definition needsJsRendering :: "'w platform \<Rightarrow> jsstring \<Rightarrow> bool" where
  "needsJsRendering P u =
     (case parseURL P u of
        None \<Rightarrow> False
      | Some parsed \<Rightarrow>
          list_ex (\<lambda>domain. hostname parsed = domain
                     \<or> endsWith (hostname parsed) (str ''.'' @ domain)) jsHeavyDomains)"

text \<open>
  \<open>content.match(/^#\s+(.+)$/m)\<close>, group 1. At a line start holding \<open>#\<close>, \<open>\s+\<close> takes
  the longest non-empty run of whitespace after which a character other than a line
  terminator follows (\<open>.\<close> excludes line terminators); the group is the rest of that
  line. \<open>content.match(/^(.+)$/m)\<close>, group 1, is the first non-empty line.
\<close>

definition dotAt :: "jsstring \<Rightarrow> bool" where
  "dotAt t = (case t of [] \<Rightarrow> False | c # _ \<Rightarrow> \<not> isLineTerminator c)"

fun headingMatch :: "nat option \<Rightarrow> jsstring \<Rightarrow> jsstring option" where
  "headingMatch prev [] = None"
| "headingMatch prev (c # cs) =
     (case (if caretAt prev \<and> c = 0x23
            then List.find (\<lambda>n. dotAt (drop n cs))
                   (rev [1 ..< Suc (length (takeWhile isWhiteSpace cs))])
            else None) of
        Some n \<Rightarrow> Some (takeWhile (\<lambda>x. \<not> isLineTerminator x) (drop n cs))
      | None \<Rightarrow> headingMatch (Some c) cs)"

fun lineMatch :: "nat option \<Rightarrow> jsstring \<Rightarrow> jsstring option" where
  "lineMatch prev [] = None"
| "lineMatch prev (c # cs) =
     (if caretAt prev \<and> \<not> isLineTerminator c
      then Some (takeWhile (\<lambda>x. \<not> isLineTerminator x) (c # cs))
      else lineMatch (Some c) cs)"

definition lastSegment :: "jsstring \<Rightarrow> jsstring" where
  "lastSegment path = rev (takeWhile (\<lambda>c. c \<noteq> 0x2F) (rev path))"

definition failedToFetch :: "response \<Rightarrow> js_error" where
  "failedToFetch r =
     Error (str ''Failed to fetch URL: '' @ showNat (resp_status r) @ str '' '' @ resp_statusText r)"

definition userAgent :: "jsstring \<times> jsstring" where
  "userAgent = (str ''User-Agent'', str ''Mozilla/5.0 (compatible; Obsidian Summarize Plugin)'')"

text \<open>
  \<^verbatim>\<open>
  private async extractRawText(url: string): Promise<ExtractedContent> {
    const response = await fetch(url, { headers: { "User-Agent": ... } });
    if (!response.ok) {
      throw new Error(`Failed to fetch URL: ${response.status} ${response.statusText}`);
    }
    const content = await response.text();
    const titleMatch = content.match(/^#\s+(.+)$/m);
    const pathParts = new URL(url).pathname.split("/");
    const filename = pathParts[pathParts.length - 1];
    const title = titleMatch ? titleMatch[1].trim() : filename;
    return { title, content: content.trim(), url, wordCount: this.countWords(content) };
  }
  \<close>
  (The plugin's copy of this function differs only in fetching with \<open>requestUrl\<close>, which
  throws on an HTTP error by itself.)
\<close>

definition extractRawText ::
    "'w platform \<Rightarrow> 'w \<Rightarrow> jsstring \<Rightarrow> (js_error + extracted_content) \<times> 'w" where
  "extractRawText P w u =
     (case fetch P w (getRequest u [userAgent]) of
        (Inl e, w1) \<Rightarrow> (Inl e, w1)
      | (Inr response, w1) \<Rightarrow>
          (if \<not> resp_ok response then (Inl (failedToFetch response), w1)
           else
             (let body = resp_text response in
              case parseURL P u of
                None \<Rightarrow> (Inl (TypeError (str ''Invalid URL'')), w1)
              | Some parsed \<Rightarrow>
                  (let filename = lastSegment (pathname parsed);
                       title = (case headingMatch None body of
                                  Some g \<Rightarrow> trim g | None \<Rightarrow> filename)
                   in (Inr \<lparr>title = title, content = trim body, url = u,
                             wordCount = countWords body\<rparr>, w1)))))"

text \<open>
  \<^verbatim>\<open>
  private async extractViaJina(url: string): Promise<ExtractedContent> {
    const jinaUrl = `https://r.jina.ai/${url}`;
    const response = await fetch(jinaUrl, { headers: { Accept: "text/markdown" } });
    if (!response.ok) {
      throw new Error(`Jina Reader failed: ${response.status} ${response.statusText}`);
    }
    const markdown = await response.text();
    const titleMatch = markdown.match(/^#\s+(.+)$/m) || markdown.match(/^(.+)$/m);
    const title = titleMatch ? titleMatch[1].trim() : "Tweet";
    const cleanedContent = this.cleanMarkdown(markdown);
    return { title, content: cleanedContent, url, wordCount: this.countWords(cleanedContent) };
  }
  \<close>
\<close>

definition extractViaJina ::
    "'w platform \<Rightarrow> 'w \<Rightarrow> jsstring \<Rightarrow> (js_error + extracted_content) \<times> 'w" where
  "extractViaJina P w u =
     (case fetch P w (getRequest (str ''https://r.jina.ai/'' @ u)
                        [(str ''Accept'', str ''text/markdown'')]) of
        (Inl e, w1) \<Rightarrow> (Inl e, w1)
      | (Inr response, w1) \<Rightarrow>
          (if \<not> resp_ok response
           then (Inl (Error (str ''Jina Reader failed: '' @ showNat (resp_status response)
                              @ str '' '' @ resp_statusText response)), w1)
           else
             (let markdown = resp_text response;
                  titleMatch = (case headingMatch None markdown of
                                  Some g \<Rightarrow> Some g | None \<Rightarrow> lineMatch None markdown);
                  title = (case titleMatch of Some g \<Rightarrow> trim g | None \<Rightarrow> str ''Tweet'');
                  cleanedContent = cleanMarkdown markdown
              in (Inr \<lparr>title = title, content = cleanedContent, url = u,
                        wordCount = countWords cleanedContent\<rparr>, w1))))"


text \<open>
  \<open>content.match(/https?:\/\/[^\s<>")\]]+/g)\<close>: all matches, scanning from the left.
  \<open>urlMatchAt s\<close> is the length of the match at the head of \<open>s\<close>.
\<close>

definition urlChar :: "nat \<Rightarrow> bool" where
  "urlChar c = (\<not> isWhiteSpace c \<and> c \<noteq> 0x3C \<and> c \<noteq> 0x3E \<and> c \<noteq> 0x22 \<and> c \<noteq> 0x29 \<and> c \<noteq> 0x5D)"

definition urlMatchAt :: "jsstring \<Rightarrow> nat option" where
  "urlMatchAt s =
     (if startsWith s (str ''https://'') \<and> takeWhile urlChar (drop 8 s) \<noteq> []
      then Some (8 + length (takeWhile urlChar (drop 8 s)))
      else if startsWith s (str ''http://'') \<and> takeWhile urlChar (drop 7 s) \<noteq> []
      then Some (7 + length (takeWhile urlChar (drop 7 s)))
      else None)"

function matchAllUrls :: "jsstring \<Rightarrow> jsstring list" where
  "matchAllUrls [] = []"
| "matchAllUrls (c # cs) =
     (case urlMatchAt (c # cs) of
        Some n \<Rightarrow> take n (c # cs) # matchAllUrls (drop (n - 1) cs)
      | None \<Rightarrow> matchAllUrls cs)"
  by pat_completeness auto
termination
  by (relation "measure length") auto

text \<open>\<open>/\.(jpg|...)$/i\<close> on ASCII: compare the lower-cased end of the string.\<close>

definition toLowerAscii :: "nat \<Rightarrow> nat" where
  "toLowerAscii c = (if 0x41 \<le> c \<and> c \<le> 0x5A then c + 0x20 else c)"

definition endsWithCI :: "jsstring \<Rightarrow> jsstring \<Rightarrow> bool" where
  "endsWithCI s ext = endsWith (map toLowerAscii s) ext"

definition skipPatterns :: "jsstring \<Rightarrow> bool" where
  "skipPatterns u =
     (list_ex (endsWithCI u)
        [str ''.jpg'', str ''.jpeg'', str ''.png'', str ''.gif'', str ''.webp'', str ''.svg'',
         str ''.ico'', str ''.mp4'', str ''.webm'', str ''.mov'', str ''.avi'', str ''.pdf'']
      \<or> list_ex (startsWith u)
        [str ''http://youtube.com'', str ''http://youtu.be'',
         str ''http://www.youtube.com'', str ''http://www.youtu.be'',
         str ''https://youtube.com'', str ''https://youtu.be'',
         str ''https://www.youtube.com'', str ''https://www.youtu.be''])"

text \<open>\<open>rawUrl.replace(/[.,;:!?)]+$/, "")\<close>: the trailing run of punctuation is removed.\<close>

definition isTrailingPunct :: "nat \<Rightarrow> bool" where
  "isTrailingPunct c =
     (c = 0x2E \<or> c = 0x2C \<or> c = 0x3B \<or> c = 0x3A \<or> c = 0x21 \<or> c = 0x3F \<or> c = 0x29)"

definition stripTrailingPunct :: "jsstring \<Rightarrow> jsstring" where
  "stripTrailingPunct u = rev (dropWhile isTrailingPunct (rev u))"

text \<open>
  \<^verbatim>\<open>
  private extractFirstUrl(content: string): string | null {
    const urlRegex = /https?:\/\/[^\s<>")\]]+/g;
    const matches = content.match(urlRegex);
    if (!matches) return null;
    for (const rawUrl of matches) {
      const url = rawUrl.replace(/[.,;:!?)]+$/, "");
      try {
        const parsed = new URL(url);
        if (parsed.hostname === "twitter.com" || parsed.hostname === "x.com" ||
            parsed.hostname.endsWith(".twitter.com") || parsed.hostname.endsWith(".x.com")) {
          continue;
        }
        const skipPatterns = [ /\.(jpg|jpeg|png|gif|webp|svg|ico)$/i, /\.(mp4|webm|mov|avi)$/i,
          /\.(pdf)$/i, /^https?:\/\/(www\.)?(youtube\.com|youtu\.be)/ ];
        if (skipPatterns.some((pattern) => pattern.test(url))) { continue; }
        return url;
      } catch { continue; }
    }
    return null;
  }
  \<close>
\<close>

fun firstQualifying :: "'w platform \<Rightarrow> jsstring list \<Rightarrow> jsstring option" where
  "firstQualifying P [] = None"
| "firstQualifying P (rawUrl # matches) =
     (let u = stripTrailingPunct rawUrl in
      case parseURL P u of
        None \<Rightarrow> firstQualifying P matches
      | Some parsed \<Rightarrow>
          (if hostname parsed = str ''twitter.com'' \<or> hostname parsed = str ''x.com''
              \<or> endsWith (hostname parsed) (str ''.twitter.com'')
              \<or> endsWith (hostname parsed) (str ''.x.com'')
           then firstQualifying P matches
           else if skipPatterns u then firstQualifying P matches
           else Some u))"

definition extractFirstUrl :: "'w platform \<Rightarrow> jsstring \<Rightarrow> jsstring option" where
  "extractFirstUrl P text = firstQualifying P (matchAllUrls text)"

text \<open>The text put between the tweet and the linked article.\<close>

definition linkedArticleHeader :: "jsstring" where
  "linkedArticleHeader = str ''\<newline>\<newline>---\<newline>\<newline>## Linked Article: ''"

definition combineContent :: "extracted_content \<Rightarrow> extracted_content \<Rightarrow> extracted_content" where
  "combineContent tweetContent linkedContent =
     \<lparr>title = title tweetContent,
      content = content tweetContent @ linkedArticleHeader @ title linkedContent
                  @ str ''\<newline>\<newline>'' @ content linkedContent,
      url = url tweetContent,
      wordCount = wordCount tweetContent + wordCount linkedContent\<rparr>"

definition htmlHeaders :: "(jsstring \<times> jsstring) list" where
  "htmlHeaders =
     [userAgent,
      (str ''Accept'', str ''text/html,application/xhtml+xml,application/xml;q=0.9,*/*;q=0.8''),
      (str ''Accept-Language'', str ''en-US,en;q=0.5'')]"

text \<open>
  \<^verbatim>\<open>
  async extractFromUrl(url: string, followLinks: boolean = true): Promise<ExtractedContent> {
    let resolvedUrl = url;
    if (this.isUrlShortener(url)) { resolvedUrl = await this.resolveShortUrl(url); }
    const processedUrl = this.convertGitHubUrl(resolvedUrl);
    if (this.isRawTextUrl(processedUrl)) { return this.extractRawText(processedUrl); }
    if (this.needsJsRendering(processedUrl)) {
      const tweetContent = await this.extractViaJina(url);
      if (followLinks) {
        const linkedUrl = this.extractFirstUrl(tweetContent.content);
        if (linkedUrl) {
          try {
            const linkedContent = await this.extractFromUrl(linkedUrl, false);
            return {
              title: tweetContent.title,
              content: `${tweetContent.content}\n\n---\n\n## Linked Article: ${linkedContent.title}\n\n${linkedContent.content}`,
              url: tweetContent.url,
              wordCount: tweetContent.wordCount + linkedContent.wordCount,
            };
          } catch (error) { /* fall back to just the tweet content */ }
        }
      }
      return tweetContent;
    }
    const response = await fetch(url, { headers: { ... } });
    if (!response.ok) {
      throw new Error(`Failed to fetch URL: ${response.status} ${response.statusText}`);
    }
    const html = await response.text();
    const { document: doc } = parseHTML(html);
    const title = this.extractTitle(doc);
    const mainContent = this.extractMainContent(doc);
    const markdown = this.turndown.turndown(mainContent);
    const cleanedContent = this.cleanMarkdown(markdown);
    return { title, content: cleanedContent, url, wordCount: this.countWords(cleanedContent) };
  }
  \<close>
  The first two steps are named \<open>resolveAndConvert\<close>; an empty \<open>linkedUrl\<close> cannot
  occur, since a match of the URL pattern is never emptied by the punctuation strip
  (it would not parse).
\<close>

definition resolveAndConvert :: "'w platform \<Rightarrow> 'w \<Rightarrow> jsstring \<Rightarrow> jsstring \<times> 'w" where
  "resolveAndConvert P w u =
     (let (resolvedUrl, w1) = (if isUrlShortener P u then resolveShortUrl P w u else (u, w))
      in (convertGitHubUrl P resolvedUrl, w1))"

definition extractHtml ::
    "'w platform \<Rightarrow> 'w \<Rightarrow> jsstring \<Rightarrow> (js_error + extracted_content) \<times> 'w" where
  "extractHtml P w u =
     (case fetch P w (getRequest u htmlHeaders) of
        (Inl e, w1) \<Rightarrow> (Inl e, w1)
      | (Inr response, w1) \<Rightarrow>
          (if \<not> resp_ok response then (Inl (failedToFetch response), w1)
           else
             (let html = resp_text response;
                  cleanedContent = cleanMarkdown (htmlMarkdown P html)
              in (Inr \<lparr>title = htmlTitle P html, content = cleanedContent, url = u,
                        wordCount = countWords cleanedContent\<rparr>, w1))))"

function extractFromUrl ::
    "'w platform \<Rightarrow> 'w \<Rightarrow> jsstring \<Rightarrow> bool \<Rightarrow> (js_error + extracted_content) \<times> 'w" where
  "extractFromUrl P w u followLinks =
     (case resolveAndConvert P w u of
        (processedUrl, w1) \<Rightarrow>
          if isRawTextUrl P processedUrl then extractRawText P w1 processedUrl
          else if needsJsRendering P processedUrl then
            (case extractViaJina P w1 u of
               (Inl e, w2) \<Rightarrow> (Inl e, w2)
             | (Inr tweetContent, w2) \<Rightarrow>
                 (if followLinks then
                    (case extractFirstUrl P (content tweetContent) of
                       None \<Rightarrow> (Inr tweetContent, w2)
                     | Some linkedUrl \<Rightarrow>
                         (case extractFromUrl P w2 linkedUrl False of
                            (Inl e, w3) \<Rightarrow> (Inr tweetContent, w3)
                          | (Inr linkedContent, w3) \<Rightarrow>
                              (Inr (combineContent tweetContent linkedContent), w3)))
                  else (Inr tweetContent, w2)))
          else extractHtml P w1 u)"
  by pat_completeness auto
termination
  by (relation "measure (\<lambda>(P, w, u, followLinks). if followLinks then 1 else 0)") auto



section \<open>JSON values\<close>

text \<open>
  A parsed response body is an untyped JavaScript value. Numbers are kept as integers:
  the code only tests them for truthiness. \<open>None\<close> stands for \<open>undefined\<close>.
\<close>

datatype json =
    JNull
  | JBool bool
  | JNum int
  | JStr jsstring
  | JArr "json list"
  | JObj "(jsstring \<times> json) list"

fun truthy :: "json option \<Rightarrow> bool" where
  "truthy None = False"
| "truthy (Some JNull) = False"
| "truthy (Some (JBool b)) = b"
| "truthy (Some (JNum n)) = (n \<noteq> 0)"
| "truthy (Some (JStr s)) = (s \<noteq> [])"
| "truthy (Some (JArr xs)) = True"
| "truthy (Some (JObj kvs)) = True"

text \<open>
  \<open>v.key\<close> on a value that is not \<open>null\<close>, for the keys the code reads (none of them
  is a property of a string, number, boolean or array).
\<close>

fun getProp :: "json \<Rightarrow> jsstring \<Rightarrow> json option" where
  "getProp (JObj kvs) key = map_of kvs key"
| "getProp v key = None"

text \<open>\<open>v?.key\<close> and \<open>v?.[0]\<close>: \<open>undefined\<close> on \<open>undefined\<close> and \<open>null\<close>.\<close>

fun optProp :: "json option \<Rightarrow> jsstring \<Rightarrow> json option" where
  "optProp None key = None"
| "optProp (Some JNull) key = None"
| "optProp (Some v) key = getProp v key"

fun optFirst :: "json option \<Rightarrow> json option" where
  "optFirst (Some (JArr (x # xs))) = Some x"
| "optFirst (Some (JStr (c # cs))) = Some (JStr [c])"
| "optFirst (Some (JObj kvs)) = map_of kvs (str ''0'')"
| "optFirst v = None"

section \<open>Platform interfaces used by LLMService\<close>

record llm_request =
  rq_apiKey :: jsstring
  rq_model :: jsstring
  rq_prompt :: jsstring
  rq_stream :: bool

text \<open>Obsidian's \<open>requestUrl\<close> response; the \<open>json\<close> getter throws on a body that is not JSON.\<close>

record api_response =
  api_status :: nat
  api_text :: jsstring
  api_json :: "js_error + json"

text \<open>
  A streaming \<open>fetch\<close> response: what \<open>reader.read()\<close> yields, in order, each chunk
  already decoded; the list ends where \<open>done\<close> is reported. \<open>st_body = None\<close> is a
  response without a body.
\<close>

datatype read_event = Chunk jsstring | ReadFailure js_error

record stream_response =
  st_status :: nat
  st_ok :: bool
  st_text :: jsstring
  st_body :: "read_event list option"

record settings =
  openRouterApiKey :: jsstring
  defaultModel :: jsstring
  defaultLength :: jsstring
  outputLanguage :: jsstring
  freeModelRank :: "jsstring list"

text \<open>
  The platform of the completion client: the two HTTP entry points, \<open>JSON.parse\<close>
  (\<open>Inl\<close> is the \<open>SyntaxError\<close> it throws), \<open>JSON.stringify\<close>, the string coercion
  of a value that is not a string, and the \<open>TypeError\<close> raised by reading a property
  of \<open>null\<close>. \<open>buildSummarizationPrompt\<close> is taken as a function of settings, content,
  length, language and custom prompt: its template and word counts are constants of
  \<open>types.ts\<close>.
\<close>

record 'w llm_platform =
  requestUrl :: "'w \<Rightarrow> llm_request \<Rightarrow> (js_error + api_response) \<times> 'w"
  fetchStream :: "'w \<Rightarrow> llm_request \<Rightarrow> (js_error + stream_response) \<times> 'w"
  jsonParse :: "jsstring \<Rightarrow> js_error + json"
  jsonStringify :: "json \<Rightarrow> jsstring"
  toStr :: "json \<Rightarrow> jsstring"
  nullPropertyError :: js_error
  buildSummarizationPrompt ::
    "settings \<Rightarrow> jsstring \<Rightarrow> jsstring \<Rightarrow> jsstring \<Rightarrow> jsstring option \<Rightarrow> jsstring"

section \<open>LLMService\<close>

record llm_response =
  res_content :: json
  res_model :: json
  res_usage :: "json option"

definition jsToString :: "'w llm_platform \<Rightarrow> json \<Rightarrow> jsstring" where
  "jsToString L v = (case v of JStr s \<Rightarrow> s | _ \<Rightarrow> toStr L v)"

text \<open>
  \<open>new Error(err.message || JSON.stringify(err))\<close> for a truthy \<open>err\<close>; the \<open>Error\<close>
  constructor coerces its argument to a string.
\<close>

definition errorFieldError :: "'w llm_platform \<Rightarrow> json \<Rightarrow> js_error" where
  "errorFieldError L err =
     Error (if truthy (getProp err (str ''message''))
            then jsToString L (the (getProp err (str ''message'')))
            else jsonStringify L err)"

definition rateLimitExceeded :: "jsstring \<Rightarrow> js_error" where
  "rateLimitExceeded model = Error (str ''Rate limit exceeded (429) for model '' @ model)"

text \<open>
  \<^verbatim>\<open>
  private async completion(model: string, prompt: string): Promise<LLMResponse> {
    const response = await requestUrl({ url: OPENROUTER_API_URL, method: "POST", ...,
      body: JSON.stringify({ model, messages: [{ role: "user", content: prompt }],
                             max_tokens: 1024 }),
      throw: false });
    if (response.status === 429) {
      throw new Error(`Rate limit exceeded (429) for model ${model}`);
    }
    if (response.status !== 200) {
      const errorText = response.text || `HTTP ${response.status}`;
      throw new Error(`OpenRouter API error: ${errorText}`);
    }
    const data = response.json;
    if (data.error) {
      throw new Error(data.error.message || JSON.stringify(data.error));
    }
    const content = data.choices?.[0]?.message?.content || "";
    return { content, model: data.model || model, usage: data.usage };
  }
  \<close>
\<close>

definition orElse :: "json option \<Rightarrow> json \<Rightarrow> json" where
  "orElse v d = (if truthy v then the v else d)"

definition completion ::
    "'w llm_platform \<Rightarrow> settings \<Rightarrow> 'w \<Rightarrow> jsstring \<Rightarrow> jsstring
       \<Rightarrow> (js_error + llm_response) \<times> 'w" where
  "completion L st w model prompt =
     (case requestUrl L w \<lparr>rq_apiKey = openRouterApiKey st, rq_model = model,
                              rq_prompt = prompt, rq_stream = False\<rparr> of
        (Inl e, w1) \<Rightarrow> (Inl e, w1)
      | (Inr response, w1) \<Rightarrow>
          if api_status response = 429 then (Inl (rateLimitExceeded model), w1)
          else if api_status response \<noteq> 200 then
            (Inl (Error (str ''OpenRouter API error: ''
                          @ (if api_text response \<noteq> [] then api_text response
                             else str ''HTTP '' @ showNat (api_status response)))), w1)
          else
            (case api_json response of
               Inl e \<Rightarrow> (Inl e, w1)
             | Inr JNull \<Rightarrow> (Inl (nullPropertyError L), w1)
             | Inr data \<Rightarrow>
                 if truthy (getProp data (str ''error''))
                 then (Inl (errorFieldError L (the (getProp data (str ''error'')))), w1)
                 else
                   (Inr \<lparr>res_content =
                           orElse (optProp (optProp (optFirst (getProp data (str ''choices'')))
                                     (str ''message'')) (str ''content'')) (JStr []),
                         res_model = orElse (getProp data (str ''model'')) (JStr model),
                         res_usage = getProp data (str ''usage'')\<rparr>, w1)))"

text \<open>\<open>chunk.split("\n")\<close>\<close>

primrec splitNl :: "jsstring \<Rightarrow> jsstring list" where
  "splitNl [] = [[]]"
| "splitNl (c # cs) =
     (if c = 0x0A then [] # splitNl cs
      else (case splitNl cs of l # ls \<Rightarrow> (c # l) # ls | [] \<Rightarrow> [[c]]))"

text \<open>
  The body of the \<open>try\<close> for one \<open>data: \<close> payload: either something is thrown, or
  the frame yields its \<open>choices?.[0]?.delta?.content\<close>.
  \<^verbatim>\<open>
          try {
            const parsed = JSON.parse(data);
            if (parsed.error) {
              throw new Error(parsed.error.message || JSON.stringify(parsed.error));
            }
            const content = parsed.choices?.[0]?.delta?.content;
            if (content) { fullContent += content; onStream(content); }
          } catch (e) {
            // Only rethrow if it's our error, ignore JSON parse errors
            if (e instanceof Error && e.message.includes("error")) { throw e; }
          }
  \<close>
\<close>

definition parseFrame :: "'w llm_platform \<Rightarrow> jsstring \<Rightarrow> js_error + json option" where
  "parseFrame L payload =
     (case jsonParse L payload of
        Inl e \<Rightarrow> Inl e
      | Inr JNull \<Rightarrow> Inl (nullPropertyError L)
      | Inr parsed \<Rightarrow>
          if truthy (getProp parsed (str ''error''))
          then Inl (errorFieldError L (the (getProp parsed (str ''error''))))
          else Inr (optProp (optProp (optFirst (getProp parsed (str ''choices'')))
                      (str ''delta'')) (str ''content'')))"

definition rethrown :: "js_error \<Rightarrow> bool" where
  "rethrown e = includesStr (message e) (str ''error'')"

type_synonym 'k on_stream = "json \<Rightarrow> 'k \<Rightarrow> js_error option \<times> 'k"

text \<open>
  One line of a chunk. The state is the accumulated \<open>fullContent\<close> and the state \<open>'k\<close>
  of whatever \<open>onStream\<close> writes to; the first component is the error that leaves the
  loop, if any.
\<close>

definition processLine ::
    "'w llm_platform \<Rightarrow> 'k on_stream \<Rightarrow> jsstring \<Rightarrow> jsstring \<times> 'k
       \<Rightarrow> js_error option \<times> jsstring \<times> 'k" where
  "processLine L onStream line acc =
     (case acc of (fullContent, k) \<Rightarrow>
        if \<not> startsWith line (str ''data: '') then (None, fullContent, k)
        else
          (let payload = drop 6 line in
           if payload = str ''[DONE]'' then (None, fullContent, k)
           else
             (case parseFrame L payload of
                Inl e \<Rightarrow> (if rethrown e then Some e else None, fullContent, k)
              | Inr c \<Rightarrow>
                  if truthy c then
                    (case onStream (the c) k of
                       (None, k') \<Rightarrow> (None, fullContent @ jsToString L (the c), k')
                     | (Some e, k') \<Rightarrow>
                         (if rethrown e then Some e else None,
                          fullContent @ jsToString L (the c), k'))
                  else (None, fullContent, k))))"

fun processLines ::
    "'w llm_platform \<Rightarrow> 'k on_stream \<Rightarrow> jsstring list \<Rightarrow> jsstring \<times> 'k
       \<Rightarrow> js_error option \<times> jsstring \<times> 'k" where
  "processLines L onStream [] acc = (None, acc)"
| "processLines L onStream (line # lines) acc =
     (case processLine L onStream line acc of
        (Some e, acc') \<Rightarrow> (Some e, acc')
      | (None, acc') \<Rightarrow> processLines L onStream lines acc')"

fun readLoop ::
    "'w llm_platform \<Rightarrow> 'k on_stream \<Rightarrow> read_event list \<Rightarrow> jsstring \<times> 'k
       \<Rightarrow> js_error option \<times> jsstring \<times> 'k" where
  "readLoop L onStream [] acc = (None, acc)"
| "readLoop L onStream (ReadFailure e # events) acc = (Some e, acc)"
| "readLoop L onStream (Chunk chunk # events) acc =
     (case processLines L onStream (splitNl chunk) acc of
        (Some e, acc') \<Rightarrow> (Some e, acc')
      | (None, acc') \<Rightarrow> readLoop L onStream events acc')"

text \<open>
  \<^verbatim>\<open>
  private async streamCompletion(model, prompt, onStream): Promise<LLMResponse> {
    const response = await fetch(OPENROUTER_API_URL, { ..., body: JSON.stringify({
        model, messages: [{ role: "user", content: prompt }], max_tokens: 1024,
        stream: true }) });
    if (response.status === 429) {
      throw new Error(`Rate limit exceeded (429) for model ${model}`);
    }
    if (!response.ok) {
      const errorText = await response.text();
      throw new Error(`OpenRouter API error: ${response.status} - ${errorText}`);
    }
    const reader = response.body?.getReader();
    if (!reader) { throw new Error("No response body reader available"); }
    const decoder = new TextDecoder();
    let fullContent = "";
    while (true) {
      const { done, value } = await reader.read();
      if (done) break;
      const chunk = decoder.decode(value);
      const lines = chunk.split("\n");
      for (const line of lines) {
        if (line.startsWith("data: ")) {
          const data = line.slice(6);
          if (data === "[DONE]") continue;
          try { ... } catch (e) { ... }
        }
      }
    }
    return { content: fullContent, model };
  }
  \<close>
\<close>

definition streamCompletion ::
    "'w llm_platform \<Rightarrow> settings \<Rightarrow> 'w \<Rightarrow> 'k \<Rightarrow> jsstring \<Rightarrow> jsstring \<Rightarrow> 'k on_stream
       \<Rightarrow> (js_error + llm_response) \<times> 'w \<times> 'k" where
  "streamCompletion L st w k model prompt onStream =
     (case fetchStream L w \<lparr>rq_apiKey = openRouterApiKey st, rq_model = model,
                               rq_prompt = prompt, rq_stream = True\<rparr> of
        (Inl e, w1) \<Rightarrow> (Inl e, w1, k)
      | (Inr response, w1) \<Rightarrow>
          if st_status response = 429 then (Inl (rateLimitExceeded model), w1, k)
          else if \<not> st_ok response then
            (Inl (Error (str ''OpenRouter API error: '' @ showNat (st_status response)
                          @ str '' - '' @ st_text response)), w1, k)
          else
            (case st_body response of
               None \<Rightarrow> (Inl (Error (str ''No response body reader available'')), w1, k)
             | Some events \<Rightarrow>
                 (case readLoop L onStream events ([], k) of
                    (Some e, fullContent, k') \<Rightarrow> (Inl e, w1, k')
                  | (None, fullContent, k') \<Rightarrow>
                      (Inr \<lparr>res_content = JStr fullContent, res_model = JStr model,
                            res_usage = None\<rparr>, w1, k'))))"

text \<open>
  The rate-limit test of the fallback loop.
  \<^verbatim>\<open>
        const isRateLimit =
          lastError.message.includes("429") ||
          lastError.message.toLowerCase().includes("rate limit") ||
          lastError.message.toLowerCase().includes("too many requests");
  \<close>
  \<open>toLowerCase\<close> is the ASCII mapping here: it differs from the Unicode one only on
  letters outside ASCII, and none of those lower-cases to the ASCII letters of the two
  patterns followed by their successor in the pattern.
\<close>

definition toLowerCase :: "jsstring \<Rightarrow> jsstring" where
  "toLowerCase s = map toLowerAscii s"

definition isRateLimit :: "js_error \<Rightarrow> bool" where
  "isRateLimit e =
     (includesStr (message e) (str ''429'')
      \<or> includesStr (toLowerCase (message e)) (str ''rate limit'')
      \<or> includesStr (toLowerCase (message e)) (str ''too many requests''))"

text \<open>
  One attempt of the loop body: \<open>streamCompletion\<close> when a callback was given,
  \<open>completion\<close> otherwise.
\<close>

definition attempt ::
    "'w llm_platform \<Rightarrow> settings \<Rightarrow> jsstring \<Rightarrow> 'k on_stream option \<Rightarrow> jsstring \<Rightarrow> 'w \<Rightarrow> 'k
       \<Rightarrow> (js_error + llm_response) \<times> 'w \<times> 'k" where
  "attempt L st prompt onStream modelId w k =
     (case onStream of
        Some f \<Rightarrow> streamCompletion L st w k modelId prompt f
      | None \<Rightarrow> (case completion L st w modelId prompt of (r, w1) \<Rightarrow> (r, w1, k)))"

text \<open>
  \<^verbatim>\<open>
    let lastError: Error | null = null;
    for (const modelId of freeModels) {
      try {
        if (onStream) { return await this.streamCompletion(modelId, prompt, onStream); }
        else { return await this.completion(modelId, prompt); }
      } catch (error) {
        lastError = error instanceof Error ? error : new Error(String(error));
        const isRateLimit = ...;
        if (isRateLimit) { continue; }
        throw lastError;
      }
    }
    throw new Error(
      `All ranked free models are rate limited. Last error: ${lastError?.message}`);
  \<close>
  (The console output and the notice shown before \<open>continue\<close> are left out.)
\<close>

definition allRateLimited :: "js_error option \<Rightarrow> js_error" where
  "allRateLimited lastError =
     Error (str ''All ranked free models are rate limited. Last error: ''
            @ (case lastError of None \<Rightarrow> str ''undefined'' | Some e \<Rightarrow> message e))"

fun tryModels ::
    "'w llm_platform \<Rightarrow> settings \<Rightarrow> jsstring \<Rightarrow> 'k on_stream option \<Rightarrow> jsstring list
       \<Rightarrow> js_error option \<Rightarrow> 'w \<Rightarrow> 'k \<Rightarrow> (js_error + llm_response) \<times> 'w \<times> 'k" where
  "tryModels L st prompt onStream [] lastError w k = (Inl (allRateLimited lastError), w, k)"
| "tryModels L st prompt onStream (modelId # models) lastError w k =
     (case attempt L st prompt onStream modelId w k of
        (Inr r, w1, k1) \<Rightarrow> (Inr r, w1, k1)
      | (Inl e, w1, k1) \<Rightarrow>
          if isRateLimit e then tryModels L st prompt onStream models (Some e) w1 k1
          else (Inl e, w1, k1))"

definition completionWithAutoFree ::
    "'w llm_platform \<Rightarrow> settings \<Rightarrow> 'w \<Rightarrow> 'k \<Rightarrow> jsstring \<Rightarrow> 'k on_stream option
       \<Rightarrow> (js_error + llm_response) \<times> 'w \<times> 'k" where
  "completionWithAutoFree L st w k prompt onStream =
     (if freeModelRank st = []
      then (Inl (Error (str ''No free models ranked. Add models in Settings > Free Rank tab.'')),
            w, k)
      else tryModels L st prompt onStream (freeModelRank st) None w k)"


text \<open>
  The options of \<open>summarize\<close>. The caller in \<open>actions/summarize.ts\<close> also passes
  \<open>abortSignal\<close>; the signal is modelled by the moment it fires, counted in chunks
  delivered to \<open>onStream\<close> (\<open>None\<close>: it never fires).
  \<^verbatim>\<open>
  async summarize(content: string,
    options: { length?: SummaryLength; language?: string; model?: string; prompt?: string;
               onStream?: (chunk: string) => void; } = {}): Promise<LLMResponse> {
    const requestedModel = options.model || this.settings.defaultModel;
    const length = options.length || this.settings.defaultLength;
    const language = options.language || this.settings.outputLanguage;
    const prompt = this.buildSummarizationPrompt(content, length, language, options.prompt);
    if (requestedModel === "auto-free") {
      return this.completionWithAutoFree(prompt, options.onStream);
    }
    if (options.onStream) {
      return this.streamCompletion(requestedModel, prompt, options.onStream);
    } else {
      return this.completion(requestedModel, prompt);
    }
  }
  \<close>
\<close>

record 'k summarize_options =
  opt_length :: "jsstring option"
  opt_language :: "jsstring option"
  opt_model :: "jsstring option"
  opt_prompt :: "jsstring option"
  opt_onStream :: "'k on_stream option"
  opt_abortSignal :: "nat option"

definition orDefault :: "jsstring option \<Rightarrow> jsstring \<Rightarrow> jsstring" where
  "orDefault v d = (case v of None \<Rightarrow> d | Some s \<Rightarrow> if s = [] then d else s)"

definition summarize ::
    "'w llm_platform \<Rightarrow> settings \<Rightarrow> 'w \<Rightarrow> 'k \<Rightarrow> jsstring \<Rightarrow> 'k summarize_options
       \<Rightarrow> (js_error + llm_response) \<times> 'w \<times> 'k" where
  "summarize L st w k text options =
     (let requestedModel = orDefault (opt_model options) (defaultModel st);
          len = orDefault (opt_length options) (defaultLength st);
          language = orDefault (opt_language options) (outputLanguage st);
          prompt = buildSummarizationPrompt L st text len language (opt_prompt options)
      in if requestedModel = str ''auto-free''
         then completionWithAutoFree L st w k prompt (opt_onStream options)
         else (case opt_onStream options of
                 Some f \<Rightarrow> streamCompletion L st w k requestedModel prompt f
               | None \<Rightarrow>
                   (case completion L st w requestedModel prompt of (r, w1) \<Rightarrow> (r, w1, k))))"

section \<open>Streaming insertion (actions/summarize.ts)\<close>

text \<open>
  The insertion context, with the editor seen through the \<open>replaceRange\<close> calls made on
  it (text, line, column), and the Escape listener through a flag.
\<close>

record streaming_ctx =
  insertLine :: nat
  indent :: jsstring
  currentContent :: jsstring
  edits :: "(jsstring \<times> nat \<times> nat) list"
  listening :: bool

text \<open>
  \<^verbatim>\<open>
  private setupStreamingInsert(editor: Editor): StreamingInsertContext {
    const selection = editor.getSelection();
    const cursor = selection ? editor.getCursor("to") : editor.getCursor();
    const line = editor.getLine(cursor.line);
    const insertPos = { line: cursor.line, ch: line.length };
    const indentMatch = line.match(/^(\s*)/);
    const baseIndent = indentMatch ? indentMatch[1] : "";
    const isListItem = /^\s*[-*+]\s/.test(line) || /^\s*\d+\.\s/.test(line);
    const indent = isListItem ? baseIndent + "\t" : baseIndent;
    const abortController = new AbortController();
    ... document.addEventListener("keydown", escapeHandler, true);
    editor.replaceRange("\n", insertPos);
    return { editor, insertPos: { line: insertPos.line + 1, ch: 0 }, indent,
             abortController, cleanup, currentContent: "" };
  }
  \<close>
  The editor gives the cursor line and its text.
\<close>

definition isDigit :: "nat \<Rightarrow> bool" where
  "isDigit c = (0x30 \<le> c \<and> c \<le> 0x39)"

definition isListItem :: "jsstring \<Rightarrow> bool" where
  "isListItem line =
     (let rest = dropWhile isWhiteSpace line in
      (case rest of
         c # d # _ \<Rightarrow> (c = 0x2D \<or> c = 0x2A \<or> c = 0x2B) \<and> isWhiteSpace d
       | _ \<Rightarrow> False)
      \<or> (takeWhile isDigit rest \<noteq> []
          \<and> (case dropWhile isDigit rest of
                c # d # _ \<Rightarrow> c = 0x2E \<and> isWhiteSpace d
              | _ \<Rightarrow> False)))"

definition setupStreamingInsert :: "nat \<Rightarrow> jsstring \<Rightarrow> streaming_ctx" where
  "setupStreamingInsert cursorLine line =
     (let baseIndent = takeWhile isWhiteSpace line;
          ind = (if isListItem line then baseIndent @ [0x09] else baseIndent)
      in \<lparr>insertLine = cursorLine + 1, indent = ind, currentContent = [],
          edits = [([0x0A], cursorLine, length line)], listening = True\<rparr>)"

text \<open>
  \<^verbatim>\<open>
  private handleStreamChunk(ctx: StreamingInsertContext, chunk: string): void {
    const processedChunk = chunk.replace(/\n/g, "\n" + ctx.indent);
    const lines = ctx.currentContent.split("\n");
    const lastLineIndex = lines.length - 1;
    const endPos: EditorPosition = {
      line: ctx.insertPos.line + lastLineIndex,
      ch: lastLineIndex === 0 ? ctx.indent.length + lines[lastLineIndex].length
                              : lines[lastLineIndex].length,
    };
    const textToInsert = ctx.currentContent === "" ? ctx.indent + processedChunk
                                                    : processedChunk;
    ctx.editor.replaceRange(textToInsert, endPos);
    ctx.currentContent += chunk;
  }
  \<close>
\<close>

definition handleStreamChunk :: "streaming_ctx \<Rightarrow> jsstring \<Rightarrow> streaming_ctx" where
  "handleStreamChunk ctx chunk =
     (let processedChunk = concat (map (\<lambda>c. if c = 0x0A then 0x0A # indent ctx else [c]) chunk);
          lines = splitNl (currentContent ctx);
          lastLineIndex = length lines - 1;
          endLine = insertLine ctx + lastLineIndex;
          endCh = (if lastLineIndex = 0 then length (indent ctx) + length (last lines)
                   else length (last lines));
          textToInsert = (if currentContent ctx = [] then indent ctx @ processedChunk
                          else processedChunk)
      in ctx\<lparr>edits := edits ctx @ [(textToInsert, endLine, endCh)],
              currentContent := currentContent ctx @ chunk\<rparr>)"

text \<open>
  The callback handed to \<open>summarize\<close>. A chunk that is not a string has no \<open>replace\<close>
  method: the call throws a \<open>TypeError\<close> before the context is touched.
\<close>

definition chunkCallback :: "js_error \<Rightarrow> streaming_ctx on_stream" where
  "chunkCallback notAFunction chunk ctx =
     (case chunk of
        JStr s \<Rightarrow> (None, handleStreamChunk ctx s)
      | _ \<Rightarrow> (Some notAFunction, ctx))"

text \<open>
  \<^verbatim>\<open>
  private async executeStreamingSummarize(content, editor, options?)
      : Promise<{ content: string; cancelled: boolean }> {
    const ctx = this.setupStreamingInsert(editor);
    let cancelled = false;
    try {
      const response = await this.llmService.summarize(content, {
        length: options?.length || this.settings.defaultLength,
        model: options?.model,
        onStream: (chunk) => this.handleStreamChunk(ctx, chunk),
        abortSignal: ctx.abortController.signal,
      });
      return { content: response.content, cancelled: false };
    } catch (error) {
      if (error instanceof DOMException && error.name === "AbortError") {
        cancelled = true;
        new Notice("Summarization cancelled");
        return { content: ctx.currentContent, cancelled: true };
      }
      throw error;
    } finally {
      ctx.cleanup();
    }
  }
  \<close>
  \<open>escapeAt\<close> is the moment the user presses Escape, counted in chunks already
  delivered to the callback (\<open>None\<close>: never); the handler then aborts the controller
  whose signal is passed on.
\<close>

record streaming_outcome =
  out_content :: json
  cancelled :: bool

definition executeStreamingSummarize ::
    "'w llm_platform \<Rightarrow> settings \<Rightarrow> js_error \<Rightarrow> 'w \<Rightarrow> nat \<Rightarrow> jsstring \<Rightarrow> nat option
       \<Rightarrow> jsstring \<Rightarrow> jsstring option \<Rightarrow> jsstring option
       \<Rightarrow> (js_error + streaming_outcome) \<times> 'w \<times> streaming_ctx" where
  "executeStreamingSummarize L st notAFunction w cursorLine line escapeAt text len model =
     (let ctx = setupStreamingInsert cursorLine line;
          options = \<lparr>opt_length = Some (orDefault len (defaultLength st)),
                     opt_language = None, opt_model = model, opt_prompt = None,
                     opt_onStream = Some (chunkCallback notAFunction),
                     opt_abortSignal = escapeAt\<rparr>
      in case summarize L st w ctx text options of
           (Inr response, w1, ctx1) \<Rightarrow>
             (Inr \<lparr>out_content = res_content response, cancelled = False\<rparr>,
              w1, ctx1\<lparr>listening := False\<rparr>)
         | (Inl e, w1, ctx1) \<Rightarrow>
             (case e of
                DOMException name msg \<Rightarrow>
                  if name = str ''AbortError''
                  then (Inr \<lparr>out_content = JStr (currentContent ctx1), cancelled = True\<rparr>,
                        w1, ctx1\<lparr>listening := False\<rparr>)
                  else (Inl e, w1, ctx1\<lparr>listening := False\<rparr>)
              | _ \<Rightarrow> (Inl e, w1, ctx1\<lparr>listening := False\<rparr>)))"

section \<open>A concrete platform\<close>

text \<open>
  A network given by a function of the request, whose world state is the list of the
  requests made so far. The DOM and Turndown steps are given on the two HTML pages of the
  examples: a page with a \<open>title\<close> element and one paragraph, whose title is the text of that
  element and whose Markdown is the text of the paragraph, and a page with neither, whose
  title is \<open>Untitled\<close> and whose Markdown is empty; any other source counts as the latter.
\<close>

definition articleHtml :: jsstring where
  "articleHtml =
     str ''<html><head><title>Article</title></head><body><p>Article body text</p></body></html>''"

definition emptyHtml :: jsstring where
  "emptyHtml = str ''<html><head></head><body></body></html>''"

definition pageTitle :: "jsstring \<Rightarrow> jsstring" where
  "pageTitle html = (if html = articleHtml then str ''Article'' else str ''Untitled'')"

definition pageMarkdown :: "jsstring \<Rightarrow> jsstring" where
  "pageMarkdown html = (if html = articleHtml then str ''Article body text'' else [])"

definition loggingPlatform :: "(request \<Rightarrow> js_error + response) \<Rightarrow> request list platform" where
  "loggingPlatform net =
     \<lparr>parseURL = simpleURL,
      fetch = (\<lambda>w r. (net r, w @ [r])),
      htmlTitle = pageTitle,
      htmlMarkdown = pageMarkdown\<rparr>"

definition okResponse :: "jsstring \<Rightarrow> jsstring \<Rightarrow> response" where
  "okResponse u body =
     \<lparr>resp_ok = True, resp_status = 200, resp_statusText = str ''OK'', resp_url = u,
      resp_text = body\<rparr>"

definition unreachable :: "js_error + response" where
  "unreachable = Inl (TypeError (str ''fetch failed''))"

definition noNetwork :: "request \<Rightarrow> js_error + response" where
  "noNetwork r = unreachable"

text \<open>A network serving fixed pages, and the pages of the examples.\<close>

definition pagesNet :: "(jsstring \<times> jsstring) list \<Rightarrow> request \<Rightarrow> js_error + response" where
  "pagesNet pages r =
     (case map_of pages (req_url r) of
        Some body \<Rightarrow> Inr (okResponse (req_url r) body)
      | None \<Rightarrow> unreachable)"

definition tweetPages :: "(jsstring \<times> jsstring) list" where
  "tweetPages =
     [(str ''https://r.jina.ai/https://x.com/a/status/1'', str ''hi https://a.com/p''),
      (str ''https://a.com/p'', articleHtml)]"

definition rawPages :: "(jsstring \<times> jsstring) list" where
  "rawPages =
     [(str ''https://raw.githubusercontent.com/o/r/main/f.md'',
       str ''a\<newline>\<newline>\<newline>\<newline>b'')]"

definition markerPages :: "(jsstring \<times> jsstring) list" where
  "markerPages =
     [(str ''https://r.jina.ai/https://x.com/a/status/1'',
       str ''## Linked Article: none https://a.com/p'')]"

definition tweetOnlyPages :: "(jsstring \<times> jsstring) list" where
  "tweetOnlyPages =
     [(str ''https://r.jina.ai/https://x.com/a/status/1'', str ''hi https://a.com/p'')]"

text \<open>
  A tweet linking to a page without a title and without a body, and a tweet linking to a
  GitHub file that holds four consecutive newlines.
\<close>

definition emptyLinkPages :: "(jsstring \<times> jsstring) list" where
  "emptyLinkPages =
     [(str ''https://r.jina.ai/https://x.com/a/status/1'', str ''hi https://a.com/p''),
      (str ''https://a.com/p'', emptyHtml)]"

definition rawLinkPages :: "(jsstring \<times> jsstring) list" where
  "rawLinkPages =
     [(str ''https://r.jina.ai/https://x.com/a/status/1'',
       str ''see https://github.com/o/r/blob/main/f.md''),
      (str ''https://raw.githubusercontent.com/o/r/main/f.md'',
       str ''a\<newline>\<newline>\<newline>\<newline>b'')]"

text \<open>
  A completion gateway scripted by model id, whose world state is the list of the models
  requested so far. \<open>JSON.stringify\<close> is a rendering of values (strings without
  escapes) and \<open>JSON.parse\<close> inverts it on a given list of values.
\<close>

definition dq :: jsstring where
  "dq = [0x22]"

fun commaSep :: "jsstring list \<Rightarrow> jsstring" where
  "commaSep [] = []"
| "commaSep [x] = x"
| "commaSep (x # y # r) = x @ str '','' @ commaSep (y # r)"

primrec render :: "json \<Rightarrow> jsstring" where
  "render JNull = str ''null''"
| "render (JBool b) = (if b then str ''true'' else str ''false'')"
| "render (JNum n) = (if n < 0 then str ''-'' @ showNat (nat (- n)) else showNat (nat n))"
| "render (JStr s) = dq @ s @ dq"
| "render (JArr xs) = str ''['' @ commaSep (map render xs) @ str '']''"
| "render (JObj kvs) =
     str ''{'' @ commaSep (map (\<lambda>(k, v). dq @ k @ dq @ str '':'' @ v) (map (map_prod id render) kvs))
       @ str ''}''"

definition parseKnown :: "json list \<Rightarrow> jsstring \<Rightarrow> js_error + json" where
  "parseKnown known s =
     (case List.find (\<lambda>v. render v = s) known of
        Some v \<Rightarrow> Inr v
      | None \<Rightarrow> Inl (SyntaxError (str ''Unexpected token'')))"

definition scriptedLLM ::
    "(jsstring \<Rightarrow> api_response) \<Rightarrow> (jsstring \<Rightarrow> stream_response) \<Rightarrow> json list
       \<Rightarrow> jsstring list llm_platform" where
  "scriptedLLM api stream known =
     \<lparr>requestUrl = (\<lambda>w rq. (Inr (api (rq_model rq)), w @ [rq_model rq])),
      fetchStream = (\<lambda>w rq. (Inr (stream (rq_model rq)), w @ [rq_model rq])),
      jsonParse = parseKnown known,
      jsonStringify = render,
      toStr = render,
      nullPropertyError = TypeError (str ''Cannot read properties of null''),
      buildSummarizationPrompt = (\<lambda>st text len language custom. text)\<rparr>"

definition demoSettings :: "jsstring \<Rightarrow> jsstring list \<Rightarrow> settings" where
  "demoSettings model rank =
     \<lparr>openRouterApiKey = str ''key'', defaultModel = model, defaultLength = str ''medium'',
      outputLanguage = [], freeModelRank = rank\<rparr>"

definition completionBody :: "jsstring \<Rightarrow> jsstring \<Rightarrow> json" where
  "completionBody modelEcho text =
     JObj [(str ''model'', JStr modelEcho),
           (str ''choices'', JArr [JObj [(str ''message'', JObj [(str ''content'', JStr text)])]])]"

definition deltaFrame :: "jsstring \<Rightarrow> jsstring \<Rightarrow> json" where
  "deltaFrame modelEcho text =
     JObj [(str ''model'', JStr modelEcho),
           (str ''choices'', JArr [JObj [(str ''delta'', JObj [(str ''content'', JStr text)])]])]"

definition errorFrame :: "jsstring \<Rightarrow> json" where
  "errorFrame msg = JObj [(str ''error'', JObj [(str ''message'', JStr msg)])]"

definition sseLine :: "json \<Rightarrow> jsstring" where
  "sseLine v = str ''data: '' @ render v @ [0x0A]"

definition apiOk :: "json \<Rightarrow> api_response" where
  "apiOk body = \<lparr>api_status = 200, api_text = render body, api_json = Inr body\<rparr>"

definition api429 :: api_response where
  "api429 = \<lparr>api_status = 429, api_text = str ''Too Many Requests'',
             api_json = Inl (SyntaxError (str ''Unexpected token''))\<rparr>"

definition streamOk :: "read_event list \<Rightarrow> stream_response" where
  "streamOk events = \<lparr>st_status = 200, st_ok = True, st_text = [], st_body = Some events\<rparr>"

definition collectChunks :: "json list on_stream" where
  "collectChunks chunk k = (None, k @ [chunk])"

definition limitedApi :: "jsstring list \<Rightarrow> jsstring \<Rightarrow> api_response" where
  "limitedApi limited m =
     (if m \<in> set limited then api429
      else if m = str ''down'' then
        \<lparr>api_status = 500, api_text = str ''Internal Server Error'',
         api_json = Inl (SyntaxError (str ''Unexpected token''))\<rparr>
      else if m = str ''denied'' then apiOk (errorFrame (str ''Invalid API key''))
      else apiOk (completionBody m (str ''summary'')))"

definition swallowedKnown :: "json list" where
  "swallowedKnown = [errorFrame (str ''Rate limit exceeded''), deltaFrame (str ''server/echo'') (str ''Hi'')]"

definition swallowedEvents :: "read_event list" where
  "swallowedEvents =
     [Chunk (sseLine (errorFrame (str ''Rate limit exceeded''))),
      Chunk (sseLine (deltaFrame (str ''server/echo'') (str ''Hi''))),
      Chunk (str ''data: [DONE]\<newline>'')]"

definition echoApi :: "jsstring \<Rightarrow> api_response" where
  "echoApi m = apiOk (completionBody (str ''server/echo'') (str ''summary''))"

definition inbandApi :: "jsstring \<Rightarrow> api_response" where
  "inbandApi m =
     (if m = str ''busy'' then apiOk (errorFrame (str ''Rate limit exceeded''))
      else apiOk (completionBody m (str ''summary'')))"

definition threeKnown :: "json list" where
  "threeKnown = [deltaFrame (str ''server/echo'') (str ''Hello''),
                 deltaFrame (str ''server/echo'') (str '' world''),
                 deltaFrame (str ''server/echo'') (str ''!'')]"

definition threeEvents :: "read_event list" where
  "threeEvents =
     [Chunk (sseLine (deltaFrame (str ''server/echo'') (str ''Hello''))),
      Chunk (sseLine (deltaFrame (str ''server/echo'') (str '' world''))),
      Chunk (sseLine (deltaFrame (str ''server/echo'') (str ''!''))),
      Chunk (str ''data: [DONE]\<newline>'')]"

definition notAFunction :: js_error where
  "notAFunction = TypeError (str ''chunk.replace is not a function'')"

text \<open>Networks for a redirecting short link: every request is answered, or only GET is.\<close>

definition redirectNet :: "jsstring \<Rightarrow> request \<Rightarrow> js_error + response" where
  "redirectNet dest r = Inr (okResponse dest [])"

definition getOnlyNet :: "jsstring \<Rightarrow> request \<Rightarrow> js_error + response" where
  "getOnlyNet dest r = (if req_method r = GET then Inr (okResponse dest []) else unreachable)"

text \<open>
  A network on which both resolution requests fail (they carry no headers) while the
  request for the page itself, which carries the browser headers, is served.
\<close>

definition unresolvedNet :: "jsstring \<Rightarrow> request \<Rightarrow> js_error + response" where
  "unresolvedNet body r =
     (if req_headers r = [] then unreachable else Inr (okResponse (req_url r) body))"

text \<open>Helper notions for the statements below.\<close>

definition isTrimmed :: "jsstring \<Rightarrow> bool" where
  "isTrimmed s = (s = [] \<or> (\<not> isWhiteSpace (hd s) \<and> \<not> isWhiteSpace (last s)))"

definition threeNewlines :: jsstring where
  "threeNewlines = [0x0A, 0x0A, 0x0A]"

fun noTripleLT :: "jsstring \<Rightarrow> bool" where
  "noTripleLT (a # b # c # r) =
     (\<not> (isLineTerminator a \<and> isLineTerminator b \<and> isLineTerminator c) \<and> noTripleLT (b # c # r))"
| "noTripleLT _ = True"

definition noDollar :: "jsstring \<Rightarrow> bool" where
  "noDollar u = (\<forall>m \<le> length (takeWhile isWhiteSpace u). \<not> dollarAt (drop m u))"

text \<open>
  A run of the fallback loop over models that all fail with a rate limit: the state and
  the last error it ends with, if it is such a run.
\<close>

fun rateLimitedRun ::
    "'w llm_platform \<Rightarrow> settings \<Rightarrow> jsstring \<Rightarrow> 'k on_stream option \<Rightarrow> jsstring list
       \<Rightarrow> js_error option \<Rightarrow> 'w \<Rightarrow> 'k \<Rightarrow> (js_error option \<times> 'w \<times> 'k) option" where
  "rateLimitedRun L st prompt onStream [] lastError w k = Some (lastError, w, k)"
| "rateLimitedRun L st prompt onStream (modelId # models) lastError w k =
     (case attempt L st prompt onStream modelId w k of
        (Inr r, w1, k1) \<Rightarrow> None
      | (Inl e, w1, k1) \<Rightarrow>
          if isRateLimit e then rateLimitedRun L st prompt onStream models (Some e) w1 k1
          else None)"

text \<open>The two ways a result is computed from a fetched body.\<close>

definition rawShape :: "extracted_content \<Rightarrow> bool" where
  "rawShape r = (\<exists>body. content r = trim body \<and> wordCount r = countWords body)"

definition cleanedShape :: "extracted_content \<Rightarrow> bool" where
  "cleanedShape r = (\<exists>md. content r = cleanMarkdown md \<and> wordCount r = countWords (cleanMarkdown md))"

declare splitWs.simps [simp del]
declare showNat.simps [simp del]
declare extractFromUrl.simps [simp del]

section \<open>Properties\<close>


subsection \<open>Whitespace, trimming and the blank-line pattern\<close>

lemma lt_is_ws: "isLineTerminator c \<Longrightarrow> isWhiteSpace c"
  by (simp add: isWhiteSpace_def)

lemma noTripleLT_Cons:
  assumes "noTripleLT out" and "isLineTerminator c \<Longrightarrow> length (takeWhile isLineTerminator out) \<le> 1"
  shows "noTripleLT (c # out)"
proof (cases out)
  case Nil
  then show ?thesis by simp
next
  case (Cons a r)
  note outer = Cons
  show ?thesis
  proof (cases r)
    case Nil
    with outer show ?thesis by simp
  next
    case (Cons b r')
    with outer assms show ?thesis by (auto split: if_splits)
  qed
qed

lemma blankMatch_None:
  "blankMatch s = None \<longleftrightarrow> (\<forall>k < length (takeWhile isWhiteSpace s). \<not> dollarAt (drop (Suc k) s))"
  by (auto simp: blankMatch_def find_None_iff)

lemma blankMatch_Some:
  assumes "blankMatch s = Some k"
  shows "k < length (takeWhile isWhiteSpace s)"
    and "dollarAt (drop (Suc k) s)"
    and "\<And>j. k < j \<Longrightarrow> j < length (takeWhile isWhiteSpace s) \<Longrightarrow> \<not> dollarAt (drop (Suc j) s)"
proof -
  let ?n = "length (takeWhile isWhiteSpace s)"
  let ?xs = "rev [0 ..< ?n]"
  from assms obtain i where i: "i < length ?xs" "dollarAt (drop (Suc (?xs ! i)) s)" "k = ?xs ! i"
    "\<forall>j<i. \<not> dollarAt (drop (Suc (?xs ! j)) s)"
    unfolding blankMatch_def find_Some_iff by blast
  have nth: "\<And>j. j < ?n \<Longrightarrow> ?xs ! j = ?n - Suc j"
    by (simp add: rev_nth)
  from i(1) have iN: "i < ?n" by simp
  with i(3) nth have k: "k = ?n - Suc i" by simp
  with iN show "k < ?n" by simp
  from i(2,3) show "dollarAt (drop (Suc k) s)" by simp
  fix j assume j: "k < j" "j < ?n"
  let ?j' = "?n - Suc j"
  from j k iN have "?j' < i" by arith
  with i(4) have "\<not> dollarAt (drop (Suc (?xs ! ?j')) s)" by blast
  moreover from j have "?xs ! ?j' = j" using nth[of ?j'] by simp
  ultimately show "\<not> dollarAt (drop (Suc j) s)" by simp
qed

lemma noDollar_head:
  assumes "noDollar u"
  shows "takeWhile isLineTerminator (stripBlankLines prev u) = []"
proof (cases u)
  case Nil
  with assms show ?thesis by (auto simp: noDollar_def dollarAt_def)
next
  case (Cons x u')
  from assms have "\<not> dollarAt u" unfolding noDollar_def by (metis drop0 le0)
  with Cons have x: "\<not> isLineTerminator x" by (simp add: dollarAt_def)
  from assms have "blankMatch u = None"
    unfolding blankMatch_None noDollar_def by (simp add: Suc_leI)
  with Cons x show ?thesis by simp
qed

lemma takeWhile_ws_split:
  assumes "k < length (takeWhile isWhiteSpace s)"
  shows "takeWhile isWhiteSpace s = take (Suc k) s @ takeWhile isWhiteSpace (drop (Suc k) s)"
proof -
  have "s = takeWhile isWhiteSpace s @ dropWhile isWhiteSpace s" by simp
  have "take (Suc k) s = take (Suc k) (takeWhile isWhiteSpace s @ dropWhile isWhiteSpace s)" by simp
  also have "\<dots> = take (Suc k) (takeWhile isWhiteSpace s)" using assms by (simp del: takeWhile_dropWhile_id)
  finally have "set (take (Suc k) s) \<subseteq> set (takeWhile isWhiteSpace s)" by (simp add: set_take_subset)
  then have "\<forall>x \<in> set (take (Suc k) s). isWhiteSpace x"
    by (auto dest: set_takeWhileD)
  then show ?thesis
    by (metis append_take_drop_id takeWhile_append2)
qed


lemma blankMatch_rest:
  assumes "blankMatch s = Some k" and "drop (Suc k) s = t0 # u"
  shows "isLineTerminator t0 \<and> noDollar u"
proof
  from blankMatch_Some(2)[OF assms(1)] assms(2) show t0: "isLineTerminator t0"
    by (simp add: dollarAt_def)
  have k: "k < length (takeWhile isWhiteSpace s)" by (rule blankMatch_Some(1)[OF assms(1)])
  have len: "length (takeWhile isWhiteSpace s) = Suc (Suc k) + length (takeWhile isWhiteSpace u)"
  proof -
    from k have "Suc k \<le> length s"
      by (meson Suc_leI length_takeWhile_le less_le_trans)
    then show ?thesis
      using takeWhile_ws_split[OF k] assms(2) t0 by (simp add: lt_is_ws)
  qed
  show "noDollar u"
    unfolding noDollar_def
  proof (intro allI impI)
    fix m assume m: "m \<le> length (takeWhile isWhiteSpace u)"
    have "\<not> dollarAt (drop (Suc (Suc k + m)) s)"
      by (rule blankMatch_Some(3)[OF assms(1)]) (use m len in simp_all)
    moreover have "drop (Suc (Suc k + m)) s = drop m u"
    proof -
      have "drop (Suc (Suc k + m)) s = drop (Suc m) (drop (Suc k) s)"
        by (simp add: add.commute)
      then show ?thesis using assms(2) by simp
    qed
    ultimately show "\<not> dollarAt (drop m u)" by simp
  qed
qed

lemma LT_then_noDollar:
  assumes "isLineTerminator t0" and "noDollar u"
  shows "takeWhile isLineTerminator (stripBlankLines p (t0 # u)) = [t0]"
proof -
  have "blankMatch (t0 # u) = None"
    unfolding blankMatch_None using assms by (simp add: lt_is_ws noDollar_def)
  then have "stripBlankLines p (t0 # u) = t0 # stripBlankLines (Some t0) u" by simp
  with assms noDollar_head[OF assms(2)] show ?thesis by simp
qed

lemma lead_after_match:
  assumes "blankMatch s = Some k"
  shows "length (takeWhile isLineTerminator (stripBlankLines p (drop (Suc k) s))) \<le> 1"
proof (cases "drop (Suc k) s")
  case Nil
  then show ?thesis by simp
next
  case (Cons t0 u)
  from blankMatch_rest[OF assms Cons] LT_then_noDollar Cons show ?thesis by simp
qed

lemma no_match_LT:
  assumes "blankMatch (c # cs) = None" and "isLineTerminator c"
  shows "noDollar cs"
  using assms unfolding blankMatch_None noDollar_def
  by (auto simp: lt_is_ws less_Suc_eq_le)

lemma stripBlankLines_inv:
  "noTripleLT (stripBlankLines prev s) \<and>
   (caretAt prev \<longrightarrow> length (takeWhile isLineTerminator (stripBlankLines prev s)) \<le> 1)"
proof (induction prev s rule: stripBlankLines.induct)
  case (1 prev)
  show ?case by simp
next
  case (2 prev c cs)
  show ?case
  proof (cases "caretAt prev")
    case False
    with 2 have ih: "noTripleLT (stripBlankLines (Some c) cs)"
      "caretAt (Some c) \<longrightarrow> length (takeWhile isLineTerminator (stripBlankLines (Some c) cs)) \<le> 1"
      by simp_all
    have "noTripleLT (c # stripBlankLines (Some c) cs)"
      by (rule noTripleLT_Cons) (use ih in \<open>simp_all add: caretAt_def\<close>)
    with False show ?thesis by simp
  next
    case True
    note caret = True
    show ?thesis
    proof (cases "blankMatch (c # cs)")
      case None
      with caret 2 have ih: "noTripleLT (stripBlankLines (Some c) cs)"
        "caretAt (Some c) \<longrightarrow> length (takeWhile isLineTerminator (stripBlankLines (Some c) cs)) \<le> 1"
        by simp_all
      have nt: "noTripleLT (c # stripBlankLines (Some c) cs)"
        by (rule noTripleLT_Cons) (use ih in \<open>simp_all add: caretAt_def\<close>)
      have "length (takeWhile isLineTerminator (c # stripBlankLines (Some c) cs)) \<le> 1"
      proof (cases "isLineTerminator c")
        case True
        from noDollar_head[OF no_match_LT[OF None True]] True show ?thesis by simp
      next
        case False
        then show ?thesis by simp
      qed
      with nt caret None show ?thesis by simp
    next
      case (Some k)
      with caret 2 have ih: "noTripleLT (stripBlankLines (Some ((c # cs) ! k)) (drop k cs))"
        by simp
      from lead_after_match[OF Some] have
        "length (takeWhile isLineTerminator (stripBlankLines (Some ((c # cs) ! k)) (drop k cs))) \<le> 1"
        by simp
      with ih caret Some show ?thesis by simp
    qed
  qed
qed

lemma includesStr_iff: "includesStr s p \<longleftrightarrow> (\<exists>a b. s = a @ p @ b)"
proof (induction s)
  case Nil
  then show ?case by auto
next
  case (Cons c cs)
  show ?case
  proof
    assume "includesStr (c # cs) p"
    then consider "startsWith (c # cs) p" | "includesStr cs p" by auto
    then show "\<exists>a b. c # cs = a @ p @ b"
    proof cases
      case 1
      then have "c # cs = [] @ p @ drop (length p) (c # cs)"
        unfolding startsWith_def by (metis append_Nil append_take_drop_id)
      then show ?thesis by blast
    next
      case 2
      with Cons obtain a b where "cs = a @ p @ b" by blast
      then have "c # cs = (c # a) @ p @ b" by simp
      then show ?thesis by blast
    qed
  next
    assume "\<exists>a b. c # cs = a @ p @ b"
    then obtain a b where ab: "c # cs = a @ p @ b" by blast
    show "includesStr (c # cs) p"
    proof (cases a)
      case Nil
      with ab have "startsWith (c # cs) p" by (simp add: startsWith_def)
      then show ?thesis by simp
    next
      case (Cons x a')
      with ab have "cs = a' @ p @ b" by simp
      with Cons.IH show ?thesis by auto
    qed
  qed
qed

lemma trim_infix: "\<exists>a b. s = a @ trim s @ b"
proof -
  let ?d = "dropWhile isWhiteSpace s"
  have "rev ?d = takeWhile isWhiteSpace (rev ?d) @ dropWhile isWhiteSpace (rev ?d)" by simp
  then have "?d = rev (dropWhile isWhiteSpace (rev ?d)) @ rev (takeWhile isWhiteSpace (rev ?d))"
    by (metis rev_append rev_rev_ident)
  then have "?d = trim s @ rev (takeWhile isWhiteSpace (rev ?d))" by (simp add: trim_def)
  moreover have "s = takeWhile isWhiteSpace s @ ?d" by simp
  ultimately have "s = takeWhile isWhiteSpace s @ trim s @ rev (takeWhile isWhiteSpace (rev ?d))"
    by metis
  then show ?thesis by blast
qed

lemma includesStr_trim: "includesStr (trim s) p \<Longrightarrow> includesStr s p"
proof -
  assume "includesStr (trim s) p"
  then obtain a b where t: "trim s = a @ p @ b" unfolding includesStr_iff by blast
  obtain a' b' where "s = a' @ trim s @ b'" using trim_infix by blast
  with t have "s = (a' @ a) @ p @ (b @ b')" by simp
  then show ?thesis unfolding includesStr_iff by blast
qed

lemma noTripleLT_no_newlines: "noTripleLT s \<Longrightarrow> \<not> includesStr s threeNewlines"
  by (induction s rule: noTripleLT.induct)
     (auto simp: startsWith_def isLineTerminator_def threeNewlines_def)

lemma trim_isTrimmed: "isTrimmed (trim s)"
proof (cases "trim s = []")
  case True
  then show ?thesis by (simp add: isTrimmed_def)
next
  case False
  let ?d = "dropWhile isWhiteSpace s"
  let ?r = "dropWhile isWhiteSpace (rev ?d)"
  from False have r: "?r \<noteq> []" by (simp add: trim_def)
  then have "\<not> isWhiteSpace (hd ?r)" by (rule hd_dropWhile)
  with r have last: "\<not> isWhiteSpace (last (trim s))" by (simp add: trim_def last_rev)
  from r have d: "?d \<noteq> []" by (metis dropWhile.simps(1) rev.simps(1))
  then have hd: "\<not> isWhiteSpace (hd ?d)" by (rule hd_dropWhile)
  obtain b where "?d = trim s @ b"
  proof -
    have "rev ?d = takeWhile isWhiteSpace (rev ?d) @ ?r" by simp
    then have "?d = rev ?r @ rev (takeWhile isWhiteSpace (rev ?d))"
      by (metis rev_append rev_rev_ident)
    then show ?thesis using that by (simp add: trim_def)
  qed
  with False have "hd ?d = hd (trim s)" by (metis hd_append2)
  with hd last show ?thesis by (simp add: isTrimmed_def)
qed

lemma cleanMarkdown_ok:
  "isTrimmed (cleanMarkdown md) \<and> \<not> includesStr (cleanMarkdown md) threeNewlines"
  unfolding cleanMarkdown_def
  using trim_isTrimmed includesStr_trim noTripleLT_no_newlines stripBlankLines_inv by blast

subsection \<open>Word count\<close>

lemma splitWs_last:
  "dropWhile (\<lambda>c. \<not> isWhiteSpace c) s = [] \<Longrightarrow>
   splitWs s = [takeWhile (\<lambda>c. \<not> isWhiteSpace c) s]"
  by (subst splitWs.simps) (simp only: Let_def simp_thms if_True)

lemma splitWs_more:
  "dropWhile (\<lambda>c. \<not> isWhiteSpace c) s \<noteq> [] \<Longrightarrow>
   splitWs s = takeWhile (\<lambda>c. \<not> isWhiteSpace c) s
     # splitWs (dropWhile isWhiteSpace (dropWhile (\<lambda>c. \<not> isWhiteSpace c) s))"
  by (subst splitWs.simps) (simp only: Let_def if_False)

lemma tokenStarts_word:
  "\<forall>x \<in> set tok. \<not> isWhiteSpace x \<Longrightarrow>
   tokenStarts b (tok @ rest) =
     (if tok = [] then tokenStarts b rest else (if b then 1 else 0) + tokenStarts False rest)"
proof (induction tok arbitrary: b)
  case Nil
  show ?case by simp
next
  case (Cons x tok)
  then show ?case by (cases "tok = []") auto
qed

lemma tokenStarts_dropWhile: "tokenStarts True (dropWhile isWhiteSpace r) = tokenStarts True r"
  by (induction r) auto

lemma tokenStarts_ws_head:
  "isWhiteSpace c \<Longrightarrow> tokenStarts b (c # r) = tokenStarts True (dropWhile isWhiteSpace (c # r))"
  by (simp add: tokenStarts_dropWhile)

lemma tokenStarts_all_ws: "\<forall>x \<in> set w. isWhiteSpace x \<Longrightarrow> tokenStarts b w = 0"
  by (induction w arbitrary: b) auto

lemma tokenStarts_trailing:
  "\<forall>x \<in> set w. isWhiteSpace x \<Longrightarrow> tokenStarts b (xs @ w) = tokenStarts b xs"
  by (induction xs arbitrary: b) (auto simp: tokenStarts_all_ws)

lemma splitWs_tokens: "length (filter (\<lambda>t. t \<noteq> []) (splitWs s)) = tokenStarts True s"
proof (induction s rule: splitWs.induct)
  case (1 s)
  let ?tok = "takeWhile (\<lambda>c. \<not> isWhiteSpace c) s"
  let ?rest = "dropWhile (\<lambda>c. \<not> isWhiteSpace c) s"
  have s: "s = ?tok @ ?rest" by simp
  have tok: "\<forall>x \<in> set ?tok. \<not> isWhiteSpace x" by (auto dest: set_takeWhileD)
  have split: "tokenStarts True s =
     (if ?tok = [] then tokenStarts True ?rest else 1 + tokenStarts False ?rest)"
    using tokenStarts_word[OF tok, of True ?rest] by simp
  show ?case
  proof (cases "?rest = []")
    case True
    then have sp: "splitWs s = [?tok]" by (rule splitWs_last)
    have r0: "\<And>b. tokenStarts b ?rest = 0" by (simp only: True tokenStarts.simps)
    show ?thesis unfolding sp split r0 by simp
  next
    case False
    from hd_dropWhile[OF False] have hdws: "isWhiteSpace (hd ?rest)" by blast
    from False obtain c r where cr: "?rest = c # r" by (cases ?rest) auto
    have ws: "isWhiteSpace c" using hdws unfolding cr by (simp only: list.sel)
    from False have sp: "splitWs s = ?tok # splitWs (dropWhile isWhiteSpace ?rest)"
      by (rule splitWs_more)
    from 1[OF refl refl False]
    have ih: "length (filter (\<lambda>t. t \<noteq> []) (splitWs (dropWhile isWhiteSpace ?rest)))
              = tokenStarts True (dropWhile isWhiteSpace ?rest)" .
    have r1: "\<And>b. tokenStarts b ?rest = tokenStarts True (dropWhile isWhiteSpace ?rest)"
      unfolding cr using tokenStarts_ws_head[OF ws] by blast
    have "length (filter (\<lambda>t. t \<noteq> []) (splitWs s))
            = (if ?tok = [] then 0 else 1) + tokenStarts True (dropWhile isWhiteSpace ?rest)"
      unfolding sp using ih by simp
    moreover have "tokenStarts True s
            = (if ?tok = [] then 0 else 1) + tokenStarts True (dropWhile isWhiteSpace ?rest)"
      unfolding split r1[of True] r1[of False] by simp
    ultimately show ?thesis by simp
  qed
qed

lemma tokenStarts_trim: "tokenStarts True (trim s) = tokenStarts True s"
proof -
  let ?d = "dropWhile isWhiteSpace s"
  have "rev ?d = takeWhile isWhiteSpace (rev ?d) @ dropWhile isWhiteSpace (rev ?d)" by simp
  then have "?d = rev (dropWhile isWhiteSpace (rev ?d)) @ rev (takeWhile isWhiteSpace (rev ?d))"
    by (metis rev_append rev_rev_ident)
  then have d: "?d = trim s @ rev (takeWhile isWhiteSpace (rev ?d))" by (simp add: trim_def)
  have "\<forall>x \<in> set (rev (takeWhile isWhiteSpace (rev ?d))). isWhiteSpace x"
    by (auto dest: set_takeWhileD)
  from tokenStarts_trailing[OF this, of True "trim s"] d
  have "tokenStarts True ?d = tokenStarts True (trim s)" by simp
  then show ?thesis by (simp add: tokenStarts_dropWhile)
qed

lemma countWords_tokenCount: "countWords s = tokenCount s"
  by (simp add: countWords_def tokenCount_def splitWs_tokens tokenStarts_trim)

lemma tokenCount_trim: "tokenCount (trim s) = tokenCount s"
  by (simp add: tokenCount_def tokenStarts_trim)


subsection \<open>URL rewriting and shortener resolution\<close>

lemma loggingPlatform_sel [simp]:
  "parseURL (loggingPlatform net) = simpleURL"
  "fetch (loggingPlatform net) w r = (net r, w @ [r])"
  "htmlMarkdown (loggingPlatform net) = pageMarkdown"
  "htmlTitle (loggingPlatform net) = pageTitle"
  by (simp_all add: loggingPlatform_def)

lemma simpleURL_github:
  "simpleURL (str ''https://github.com/o/r/blob/main/f.md'')
     = Some \<lparr>hostname = str ''github.com'', pathname = str ''/o/r/blob/main/f.md''\<rparr>"
  by (simp add: simpleURL_def str_def startsWith_def)


text \<open>
  Claim C9. The GitHub blob URL \<open>https://github.com/o/r/blob/main/f.md\<close> is rewritten to
  \<open>https://raw.githubusercontent.com/o/r/main/f.md\<close>; in general a URL with hostname
  \<open>github.com\<close> whose path contains \<open>/blob/\<close> becomes
  \<open>https://raw.githubusercontent.com\<close> followed by the path with its first \<open>/blob/\<close>
  replaced by \<open>/\<close>, and a URL with another hostname, with a path without \<open>/blob/\<close>,
  or that does not parse, is returned unchanged.
\<close>

theorem convertGitHubUrl_rewrite:
  "(parseURL P = simpleURL \<longrightarrow>
      convertGitHubUrl P (str ''https://github.com/o/r/blob/main/f.md'')
        = str ''https://raw.githubusercontent.com/o/r/main/f.md'')
   \<and> (\<forall>parsed. parseURL P u = Some parsed \<and> hostname parsed = str ''github.com''
          \<and> includesStr (pathname parsed) (str ''/blob/'') \<longrightarrow>
        convertGitHubUrl P u
          = str ''https://raw.githubusercontent.com''
              @ replaceFirst (pathname parsed) (str ''/blob/'') (str ''/''))
   \<and> (\<forall>parsed. parseURL P u = Some parsed
          \<and> (hostname parsed \<noteq> str ''github.com''
              \<or> \<not> includesStr (pathname parsed) (str ''/blob/'')) \<longrightarrow>
        convertGitHubUrl P u = u)
   \<and> (parseURL P u = None \<longrightarrow> convertGitHubUrl P u = u)"
proof (intro conjI allI impI)
  assume "parseURL P = simpleURL"
  then show "convertGitHubUrl P (str ''https://github.com/o/r/blob/main/f.md'')
        = str ''https://raw.githubusercontent.com/o/r/main/f.md''"
    by (simp add: convertGitHubUrl_def simpleURL_github) (simp add: str_def startsWith_def)
qed (auto simp: convertGitHubUrl_def)


theorem convertGitHubUrl_rewrite_witness:
  "convertGitHubUrl (loggingPlatform noNetwork) (str ''https://github.com/o/r/blob/main/f.md'')
     = str ''https://raw.githubusercontent.com/o/r/main/f.md''
   \<and> convertGitHubUrl (loggingPlatform noNetwork) (str ''https://github.com/o/r/blob/main/f.md'')
     = str ''https://raw.githubusercontent.com''
         @ replaceFirst (str ''/o/r/blob/main/f.md'') (str ''/blob/'') (str ''/'')
   \<and> convertGitHubUrl (loggingPlatform noNetwork) (str ''https://gitlab.com/o/r/blob/main/f.md'')
     = str ''https://gitlab.com/o/r/blob/main/f.md''
   \<and> convertGitHubUrl (loggingPlatform noNetwork) (str ''github.com/o/r'') = str ''github.com/o/r''"
proof -
  let ?P = "loggingPlatform noNetwork"
  have p: "parseURL ?P = simpleURL" by simp
  have a: "parseURL ?P (str ''https://github.com/o/r/blob/main/f.md'')
             = Some \<lparr>hostname = str ''github.com'', pathname = str ''/o/r/blob/main/f.md''\<rparr>"
    by (simp add: simpleURL_github)
  have a': "includesStr (str ''/o/r/blob/main/f.md'') (str ''/blob/'')"
    by (simp add: str_def startsWith_def)
  have b: "parseURL ?P (str ''https://gitlab.com/o/r/blob/main/f.md'')
             = Some \<lparr>hostname = str ''gitlab.com'', pathname = str ''/o/r/blob/main/f.md''\<rparr>"
    by (simp add: simpleURL_def str_def startsWith_def)
  have b': "str ''gitlab.com'' \<noteq> str ''github.com''" by (simp add: str_def)
  have c: "parseURL ?P (str ''github.com/o/r'') = None"
    by (simp add: simpleURL_def str_def startsWith_def)
  from convertGitHubUrl_rewrite[of ?P "str ''https://github.com/o/r/blob/main/f.md''"] p a a'
  have 1: "convertGitHubUrl ?P (str ''https://github.com/o/r/blob/main/f.md'')
     = str ''https://raw.githubusercontent.com/o/r/main/f.md''"
    and 2: "convertGitHubUrl ?P (str ''https://github.com/o/r/blob/main/f.md'')
     = str ''https://raw.githubusercontent.com''
         @ replaceFirst (str ''/o/r/blob/main/f.md'') (str ''/blob/'') (str ''/'')"
    by (simp_all add: str_def startsWith_def)
  from convertGitHubUrl_rewrite[of ?P "str ''https://gitlab.com/o/r/blob/main/f.md''"] b b'
  have 3: "convertGitHubUrl ?P (str ''https://gitlab.com/o/r/blob/main/f.md'')
     = str ''https://gitlab.com/o/r/blob/main/f.md''" by simp
  from convertGitHubUrl_rewrite[of ?P "str ''github.com/o/r''"] c
  have 4: "convertGitHubUrl ?P (str ''github.com/o/r'') = str ''github.com/o/r''" by simp
  from 1 2 3 4 show ?thesis by blast
qed


lemmas ws_defs = isWhiteSpace_def isLineTerminator_def

lemma clean_article: "cleanMarkdown (str ''Article body text'') = str ''Article body text''"
  by (simp add: cleanMarkdown_def trim_def str_def ws_defs blankMatch_def dollarAt_def caretAt_def)

lemma words_article: "countWords (str ''Article body text'') = 3"
  by (simp add: countWords_tokenCount tokenCount_def str_def ws_defs)

lemma shortener_hosts:
  assumes "h \<in> {str ''t.co'', str ''bit.ly'', str ''tinyurl.com'', str ''goo.gl'',
                  str ''ow.ly'', str ''is.gd''}"
  shows "h \<noteq> str ''github.com''" "h \<noteq> str ''raw.githubusercontent.com''"
    "\<not> list_ex (\<lambda>domain. h = domain \<or> endsWith h (str ''.'' @ domain)) jsHeavyDomains"
  using assms by (auto simp: str_def jsHeavyDomains_def endsWith_def startsWith_def)

lemma shortener_falls_to_html:
  assumes p: "parseURL P u = Some parsed"
    and h: "hostname parsed \<in> {str ''t.co'', str ''bit.ly'', str ''tinyurl.com'', str ''goo.gl'',
                              str ''ow.ly'', str ''is.gd''}"
    and rc: "resolveAndConvert P w u = (u, w2)"
  shows "extractFromUrl P w u followLinks = extractHtml P w2 u"
proof -
  from p shortener_hosts(2)[OF h] have "\<not> isRawTextUrl P u" by (simp add: isRawTextUrl_def)
  moreover from p shortener_hosts(3)[OF h] have "\<not> needsJsRendering P u"
    by (simp add: needsJsRendering_def)
  ultimately show ?thesis using rc by (simp add: extractFromUrl.simps[of P w u followLinks])
qed

text \<open>
  Claim C7. A URL whose hostname is one of t.co, bit.ly, tinyurl.com, goo.gl, ow.ly, is.gd
  is classified as a shortener. Its resolution raises nothing and always returns a URL: the
  final URL of the HEAD request when that succeeds, else the final URL of one GET request,
  else the original URL; the extraction goes on with that URL after the GitHub rewriting.
  When both requests fail, the extraction is the HTML extraction of the original URL,
  started in the world left by the two requests: it returns the extracted page whenever
  the request for the original URL is answered with an ok response, and an error of the
  extraction is then an error of that request.
\<close>

theorem shortener_resolution:
  assumes "parseURL P u = Some parsed"
    and "hostname parsed \<in> {str ''t.co'', str ''bit.ly'', str ''tinyurl.com'', str ''goo.gl'',
                              str ''ow.ly'', str ''is.gd''}"
  shows "isUrlShortener P u
    \<and> (\<forall>r w1. fetch P w (headRequest u) = (Inr r, w1) \<longrightarrow>
          resolveShortUrl P w u = (resp_url r, w1)
          \<and> resolveAndConvert P w u = (convertGitHubUrl P (resp_url r), w1))
    \<and> (\<forall>e w1 r w2. fetch P w (headRequest u) = (Inl e, w1)
            \<and> fetch P w1 (getRequest u []) = (Inr r, w2) \<longrightarrow>
          resolveShortUrl P w u = (resp_url r, w2)
          \<and> resolveAndConvert P w u = (convertGitHubUrl P (resp_url r), w2))
    \<and> (\<forall>e w1 e' w2. fetch P w (headRequest u) = (Inl e, w1)
            \<and> fetch P w1 (getRequest u []) = (Inl e', w2) \<longrightarrow>
          resolveShortUrl P w u = (u, w2)
          \<and> resolveAndConvert P w u = (u, w2)
          \<and> (\<forall>followLinks. extractFromUrl P w u followLinks = extractHtml P w2 u)
          \<and> (\<forall>followLinks response w3.
                fetch P w2 (getRequest u htmlHeaders) = (Inr response, w3) \<and> resp_ok response \<longrightarrow>
                extractFromUrl P w u followLinks
                  = (Inr \<lparr>title = htmlTitle P (resp_text response),
                          content = cleanMarkdown (htmlMarkdown P (resp_text response)),
                          url = u,
                          wordCount = countWords (cleanMarkdown (htmlMarkdown P (resp_text response)))\<rparr>,
                     w3)))"
proof -
  have sh: "isUrlShortener P u"
    using assms by (auto simp: isUrlShortener_def shorteners_def)
  have cv: "convertGitHubUrl P u = u"
    using assms(1) shortener_hosts(1)[OF assms(2)] by (simp add: convertGitHubUrl_def)
  have a: "resolveShortUrl P w u = (resp_url r, w1)
          \<and> resolveAndConvert P w u = (convertGitHubUrl P (resp_url r), w1)"
    if "fetch P w (headRequest u) = (Inr r, w1)" for r w1
    using that sh by (simp add: resolveShortUrl_def resolveAndConvert_def)
  have b: "resolveShortUrl P w u = (resp_url r, w2)
          \<and> resolveAndConvert P w u = (convertGitHubUrl P (resp_url r), w2)"
    if "fetch P w (headRequest u) = (Inl e, w1) \<and> fetch P w1 (getRequest u []) = (Inr r, w2)"
    for e w1 r w2
    using that sh by (simp add: resolveShortUrl_def resolveAndConvert_def)
  have c: "resolveShortUrl P w u = (u, w2)
          \<and> resolveAndConvert P w u = (u, w2)
          \<and> (\<forall>followLinks. extractFromUrl P w u followLinks = extractHtml P w2 u)
          \<and> (\<forall>followLinks response w3.
                fetch P w2 (getRequest u htmlHeaders) = (Inr response, w3) \<and> resp_ok response \<longrightarrow>
                extractFromUrl P w u followLinks
                  = (Inr \<lparr>title = htmlTitle P (resp_text response),
                          content = cleanMarkdown (htmlMarkdown P (resp_text response)),
                          url = u,
                          wordCount = countWords (cleanMarkdown (htmlMarkdown P (resp_text response)))\<rparr>,
                     w3))"
    if f: "fetch P w (headRequest u) = (Inl e, w1) \<and> fetch P w1 (getRequest u []) = (Inl e', w2)"
    for e w1 e' w2
  proof -
    from f sh have rs: "resolveShortUrl P w u = (u, w2)" by (simp add: resolveShortUrl_def)
    with sh cv have rc: "resolveAndConvert P w u = (u, w2)" by (simp add: resolveAndConvert_def)
    have ex: "extractFromUrl P w u followLinks = extractHtml P w2 u" for followLinks
      by (rule shortener_falls_to_html[OF assms rc])
    have "extractHtml P w2 u
            = (Inr \<lparr>title = htmlTitle P (resp_text response),
                    content = cleanMarkdown (htmlMarkdown P (resp_text response)),
                    url = u,
                    wordCount = countWords (cleanMarkdown (htmlMarkdown P (resp_text response)))\<rparr>,
               w3)"
      if "fetch P w2 (getRequest u htmlHeaders) = (Inr response, w3) \<and> resp_ok response"
      for response w3
      using that by (simp add: extractHtml_def Let_def)
    with rs rc ex show ?thesis by simp
  qed
  from sh a b c show ?thesis by blast
qed

text \<open>
  C7 on concrete networks: a redirect answered to HEAD, a redirect answered only to GET, a
  redirect to a GitHub file, no answer at all, and no answer to the two resolution requests
  with the page itself served, where the extraction succeeds on the original URL.
\<close>

theorem shortener_resolution_witness:
  "isUrlShortener (loggingPlatform noNetwork) (str ''https://t.co/abc'')
   \<and> resolveShortUrl (loggingPlatform (redirectNet (str ''https://example.com/a''))) []
         (str ''https://t.co/abc'')
       = (str ''https://example.com/a'', [headRequest (str ''https://t.co/abc'')])
   \<and> resolveShortUrl (loggingPlatform (getOnlyNet (str ''https://example.com/a''))) []
         (str ''https://t.co/abc'')
       = (str ''https://example.com/a'',
          [headRequest (str ''https://t.co/abc''), getRequest (str ''https://t.co/abc'') []])
   \<and> resolveAndConvert (loggingPlatform (redirectNet (str ''https://github.com/o/r/blob/main/f.md''))) []
         (str ''https://t.co/abc'')
       = (str ''https://raw.githubusercontent.com/o/r/main/f.md'', [headRequest (str ''https://t.co/abc'')])
   \<and> resolveShortUrl (loggingPlatform noNetwork) [] (str ''https://t.co/abc'')
       = (str ''https://t.co/abc'',
          [headRequest (str ''https://t.co/abc''), getRequest (str ''https://t.co/abc'') []])
   \<and> resolveAndConvert (loggingPlatform noNetwork) [] (str ''https://t.co/abc'')
       = (str ''https://t.co/abc'',
          [headRequest (str ''https://t.co/abc''), getRequest (str ''https://t.co/abc'') []])
   \<and> extractFromUrl (loggingPlatform (unresolvedNet articleHtml)) [] (str ''https://t.co/abc'') True
       = (Inr \<lparr>title = str ''Article'', content = str ''Article body text'',
                url = str ''https://t.co/abc'', wordCount = 3\<rparr>,
          [headRequest (str ''https://t.co/abc''), getRequest (str ''https://t.co/abc'') [],
           getRequest (str ''https://t.co/abc'') htmlHeaders])
   \<and> extractFromUrl (loggingPlatform noNetwork) [] (str ''https://t.co/abc'') True
       = extractHtml (loggingPlatform noNetwork)
           [headRequest (str ''https://t.co/abc''), getRequest (str ''https://t.co/abc'') []]
           (str ''https://t.co/abc'')"
proof -
  let ?u = "str ''https://t.co/abc''"
  let ?d = "str ''https://example.com/a''"
  let ?g = "str ''https://github.com/o/r/blob/main/f.md''"
  have parsed: "\<And>net. parseURL (loggingPlatform net) ?u
                  = Some \<lparr>hostname = str ''t.co'', pathname = str ''/abc''\<rparr>"
    by (simp add: simpleURL_def str_def startsWith_def)
  have host: "hostname \<lparr>hostname = str ''t.co'', pathname = str ''/abc''\<rparr>
                \<in> {str ''t.co'', str ''bit.ly'', str ''tinyurl.com'', str ''goo.gl'',
                    str ''ow.ly'', str ''is.gd''}"
    by simp
  have getne: "req_method (headRequest ?u) \<noteq> GET" "req_method (getRequest ?u []) = GET"
    by (simp_all add: headRequest_def getRequest_def)
  have hs: "req_headers (headRequest ?u) = []" "req_headers (getRequest ?u []) = []"
    "req_headers (getRequest ?u htmlHeaders) \<noteq> []"
    "req_url (getRequest ?u htmlHeaders) = ?u"
    by (simp_all add: headRequest_def getRequest_def htmlHeaders_def)
  have page: "pageTitle articleHtml = str ''Article''"
    "cleanMarkdown (pageMarkdown articleHtml) = str ''Article body text''"
    "countWords (str ''Article body text'') = 3"
    by (simp_all add: pageTitle_def pageMarkdown_def clean_article words_article)
  note a = shortener_resolution[OF parsed[of "redirectNet ?d"] host, of "[]"]
  note a' = shortener_resolution[OF parsed[of "redirectNet ?g"] host, of "[]"]
  note b = shortener_resolution[OF parsed[of "getOnlyNet ?d"] host, of "[]"]
  note c = shortener_resolution[OF parsed[of noNetwork] host, of "[]"]
  note d = shortener_resolution[OF parsed[of "unresolvedNet articleHtml"] host, of "[]"]
  from c have 1: "isUrlShortener (loggingPlatform noNetwork) ?u" by (rule conjunct1)
  from a[THEN conjunct2, THEN conjunct1]
  have 2: "resolveShortUrl (loggingPlatform (redirectNet ?d)) [] ?u = (?d, [headRequest ?u])"
    by (simp add: redirectNet_def okResponse_def)
  from b[THEN conjunct2, THEN conjunct2, THEN conjunct1] getne
  have 3: "resolveShortUrl (loggingPlatform (getOnlyNet ?d)) [] ?u
             = (?d, [headRequest ?u, getRequest ?u []])"
    by (simp add: getOnlyNet_def okResponse_def unreachable_def)
  from a'[THEN conjunct2, THEN conjunct1]
  have "resolveAndConvert (loggingPlatform (redirectNet ?g)) [] ?u
          = (convertGitHubUrl (loggingPlatform (redirectNet ?g)) ?g, [headRequest ?u])"
    by (simp add: redirectNet_def okResponse_def)
  moreover have "convertGitHubUrl (loggingPlatform (redirectNet ?g)) ?g
                   = str ''https://raw.githubusercontent.com/o/r/main/f.md''"
    by (simp add: convertGitHubUrl_def simpleURL_github) (simp add: str_def startsWith_def)
  ultimately have 4: "resolveAndConvert (loggingPlatform (redirectNet ?g)) [] ?u
          = (str ''https://raw.githubusercontent.com/o/r/main/f.md'', [headRequest ?u])"
    by simp
  note c3 = c[THEN conjunct2, THEN conjunct2, THEN conjunct2]
  from c3 have 5: "resolveShortUrl (loggingPlatform noNetwork) [] ?u
                    = (?u, [headRequest ?u, getRequest ?u []])"
    and 6: "resolveAndConvert (loggingPlatform noNetwork) [] ?u
                    = (?u, [headRequest ?u, getRequest ?u []])"
    and 8: "extractFromUrl (loggingPlatform noNetwork) [] ?u True
              = extractHtml (loggingPlatform noNetwork) [headRequest ?u, getRequest ?u []] ?u"
    by (simp_all add: noNetwork_def unreachable_def)
  have fh: "fetch (loggingPlatform (unresolvedNet articleHtml)) [] (headRequest ?u)
              = (Inl (TypeError (str ''fetch failed'')), [headRequest ?u])"
    and fg: "fetch (loggingPlatform (unresolvedNet articleHtml)) [headRequest ?u] (getRequest ?u [])
              = (Inl (TypeError (str ''fetch failed'')), [headRequest ?u, getRequest ?u []])"
    and fp: "fetch (loggingPlatform (unresolvedNet articleHtml)) [headRequest ?u, getRequest ?u []]
               (getRequest ?u htmlHeaders)
              = (Inr (okResponse ?u articleHtml),
                 [headRequest ?u, getRequest ?u [], getRequest ?u htmlHeaders])"
    and ok: "resp_ok (okResponse ?u articleHtml)" "resp_text (okResponse ?u articleHtml) = articleHtml"
    using hs by (simp_all add: unresolvedNet_def unreachable_def okResponse_def)
  note d4 = d[THEN conjunct2, THEN conjunct2, THEN conjunct2, rule_format, OF conjI[OF fh fg],
      THEN conjunct2, THEN conjunct2, THEN conjunct2, rule_format, OF conjI[OF fp ok(1)]]
  from d4[of True] page ok(2)
  have 7: "extractFromUrl (loggingPlatform (unresolvedNet articleHtml)) [] ?u True
       = (Inr \<lparr>title = str ''Article'', content = str ''Article body text'',
                url = ?u, wordCount = 3\<rparr>,
          [headRequest ?u, getRequest ?u [], getRequest ?u htmlHeaders])"
    by simp
  from 1 2 3 4 5 6 7 8 show ?thesis by simp
qed


subsection \<open>Results of the extraction\<close>

lemma extractRawText_shape:
  "extractRawText P w u = (Inr r, w') \<Longrightarrow> rawShape r"
  unfolding extractRawText_def rawShape_def
  by (auto simp: Let_def split: prod.splits sum.splits if_splits option.splits)

lemma extractViaJina_shape:
  "extractViaJina P w u = (Inr r, w') \<Longrightarrow> cleanedShape r"
  unfolding extractViaJina_def cleanedShape_def
  by (auto simp: Let_def split: prod.splits sum.splits if_splits option.splits)

lemma extractHtml_shape:
  "extractHtml P w u = (Inr r, w') \<Longrightarrow> cleanedShape r"
  unfolding extractHtml_def cleanedShape_def
  by (auto simp: Let_def split: prod.splits sum.splits if_splits option.splits)

lemma extract_nofollow_shape:
  assumes "extractFromUrl P w u False = (Inr r, w')"
  shows "(isRawTextUrl P (fst (resolveAndConvert P w u)) \<and> rawShape r)
       \<or> (\<not> isRawTextUrl P (fst (resolveAndConvert P w u)) \<and> cleanedShape r)"
proof -
  obtain pu w1 where rc: "resolveAndConvert P w u = (pu, w1)" by (cases "resolveAndConvert P w u")
  show ?thesis
  proof (cases "isRawTextUrl P pu")
    case True
    with assms rc have "extractRawText P w1 pu = (Inr r, w')"
      by (simp add: extractFromUrl.simps)
    with True rc show ?thesis by (auto dest: extractRawText_shape)
  next
    case False
    note notraw = False
    show ?thesis
    proof (cases "needsJsRendering P pu")
      case True
      with assms rc notraw have "extractViaJina P w1 u = (Inr r, w')"
        by (simp add: extractFromUrl.simps split: prod.splits sum.splits)
      with notraw rc show ?thesis by (auto dest: extractViaJina_shape)
    next
      case False
      with assms rc notraw have "extractHtml P w1 u = (Inr r, w')"
        by (simp add: extractFromUrl.simps)
      with notraw rc show ?thesis by (auto dest: extractHtml_shape)
    qed
  qed
qed

lemma extract_follow_shape:
  assumes "extractFromUrl P w u True = (Inr r, w')"
  shows "(isRawTextUrl P (fst (resolveAndConvert P w u)) \<and> rawShape r)
       \<or> (\<not> isRawTextUrl P (fst (resolveAndConvert P w u)) \<and> cleanedShape r)
       \<or> (\<exists>tweet linked w2 link.
             extractViaJina P (snd (resolveAndConvert P w u)) u = (Inr tweet, w2)
             \<and> extractFirstUrl P (content tweet) = Some link
             \<and> extractFromUrl P w2 link False = (Inr linked, w')
             \<and> r = combineContent tweet linked)"
proof -
  obtain pu w1 where rc: "resolveAndConvert P w u = (pu, w1)" by (cases "resolveAndConvert P w u")
  show ?thesis
  proof (cases "isRawTextUrl P pu")
    case True
    with assms rc have "extractRawText P w1 pu = (Inr r, w')"
      by (simp add: extractFromUrl.simps)
    with True rc show ?thesis by (auto dest: extractRawText_shape)
  next
    case False
    note notraw = False
    show ?thesis
    proof (cases "needsJsRendering P pu")
      case False
      with assms rc notraw have "extractHtml P w1 u = (Inr r, w')"
        by (simp add: extractFromUrl.simps)
      with notraw rc show ?thesis by (auto dest: extractHtml_shape)
    next
      case True
      note js = True
      obtain res w2 where j: "extractViaJina P w1 u = (res, w2)" by (cases "extractViaJina P w1 u")
      show ?thesis
      proof (cases res)
        case (Inl e)
        with assms rc notraw js j show ?thesis by (simp add: extractFromUrl.simps)
      next
        case (Inr tweet)
        note tw = Inr
        from j tw have tshape: "cleanedShape tweet" by (auto dest: extractViaJina_shape)
        show ?thesis
        proof (cases "extractFirstUrl P (content tweet)")
          case None
          with assms rc notraw js j tw have "r = tweet" by (simp add: extractFromUrl.simps)
          with tshape notraw rc show ?thesis by simp
        next
          case (Some link)
          obtain lres w3 where l: "extractFromUrl P w2 link False = (lres, w3)"
            by (cases "extractFromUrl P w2 link False")
          show ?thesis
          proof (cases lres)
            case (Inl e)
            with assms rc notraw js j tw Some l have "r = tweet"
              by (simp add: extractFromUrl.simps[of P w u True])
            with tshape notraw rc show ?thesis by simp
          next
            case (Inr linked)
            with assms rc notraw js j tw Some l have "r = combineContent tweet linked" "w' = w3"
              by (simp_all add: extractFromUrl.simps[of P w u True])
            with rc j tw Some l Inr show ?thesis by auto
          qed
        qed
      qed
    qed
  qed
qed

lemma rawShape_tokens: "rawShape r \<Longrightarrow> wordCount r = tokenCount (content r)"
  by (auto simp: rawShape_def countWords_tokenCount tokenCount_trim)

lemma cleanedShape_tokens: "cleanedShape r \<Longrightarrow> wordCount r = tokenCount (content r)"
  by (auto simp: cleanedShape_def countWords_tokenCount)

lemma tokenStarts_append_ws:
  "isWhiteSpace c \<Longrightarrow> tokenStarts b (xs @ c # ys) = tokenStarts b xs + tokenStarts True ys"
  by (induction xs arbitrary: b) auto

lemma tokenCount_append_ws:
  "isWhiteSpace c \<Longrightarrow> tokenCount (xs @ c # ys) = tokenCount xs + tokenCount ys"
  by (simp add: tokenCount_def tokenStarts_append_ws)

lemma tokenCount_combined:
  "tokenCount (content (combineContent tweet linked))
     = tokenCount (content tweet) + 4 + tokenCount (title linked) + tokenCount (content linked)"
proof -
  let ?h = "str ''\<newline>---\<newline>\<newline>## Linked Article:''"
  have nl: "isWhiteSpace 0x0A" "isWhiteSpace 0x20"
    by (simp_all add: isWhiteSpace_def isLineTerminator_def)
  have c: "content (combineContent tweet linked)
             = content tweet @ 0x0A # (?h @ 0x20 # (title linked @ 0x0A # (0x0A # content linked)))"
    by (simp add: combineContent_def linkedArticleHeader_def str_def)
  have h: "tokenCount ?h = 4"
    by (simp add: tokenCount_def str_def isWhiteSpace_def isLineTerminator_def)
  have "tokenCount (0x0A # content linked) = tokenCount (content linked)"
    using tokenCount_append_ws[OF nl(1), of "[]" "content linked"]
    by (simp add: tokenCount_def)
  then show ?thesis
    unfolding c
    by (simp add: tokenCount_append_ws[OF nl(1)] tokenCount_append_ws[OF nl(2)] h)
qed

text \<open>
  Claim C1, as amended. For every result of \<open>extractFromUrl\<close>, \<open>wordCount\<close> is the number
  of whitespace-separated non-empty tokens of \<open>content\<close>, unless a linked article was
  appended (which needs \<open>followLinks\<close>): then \<open>wordCount\<close> is the sum of the word counts
  of the tweet and of the linked content, each the token count of its part, and the
  content has four tokens more, and those of the linked title.
\<close>

theorem wordCount_counts_tokens:
  assumes "extractFromUrl P w u followLinks = (Inr r, w')"
  shows "wordCount r = tokenCount (content r)
       \<or> (followLinks
          \<and> (\<exists>tweet linked w2 link.
                extractViaJina P (snd (resolveAndConvert P w u)) u = (Inr tweet, w2)
                \<and> extractFirstUrl P (content tweet) = Some link
                \<and> extractFromUrl P w2 link False = (Inr linked, w')
                \<and> r = combineContent tweet linked
                \<and> wordCount tweet = tokenCount (content tweet)
                \<and> wordCount linked = tokenCount (content linked)
                \<and> wordCount r = wordCount tweet + wordCount linked
                \<and> tokenCount (content r) = wordCount r + 4 + tokenCount (title linked)))"
proof (cases followLinks)
  case False
  with assms extract_nofollow_shape[of P w u r w'] show ?thesis
    by (auto dest: rawShape_tokens cleanedShape_tokens)
next
  case True
  with assms have a: "extractFromUrl P w u True = (Inr r, w')" by simp
  from extract_follow_shape[OF a]
  consider "rawShape r" | "cleanedShape r"
    | tweet linked w2 link where
        "extractViaJina P (snd (resolveAndConvert P w u)) u = (Inr tweet, w2)"
        "extractFromUrl P w2 link False = (Inr linked, w')"
        "r = combineContent tweet linked"
        "extractFirstUrl P (content tweet) = Some link"
    by blast
  then show ?thesis
  proof cases
    case 1
    then show ?thesis by (simp add: rawShape_tokens)
  next
    case 2
    then show ?thesis by (simp add: cleanedShape_tokens)
  next
    case 3
    from 3(1) have t: "wordCount tweet = tokenCount (content tweet)"
      by (auto dest: extractViaJina_shape cleanedShape_tokens)
    from extract_nofollow_shape[OF 3(2)] have l: "wordCount linked = tokenCount (content linked)"
      by (auto dest: rawShape_tokens cleanedShape_tokens)
    have wc: "wordCount r = wordCount tweet + wordCount linked"
      by (simp add: 3(3) combineContent_def)
    have "tokenCount (content r) = wordCount r + 4 + tokenCount (title linked)"
      unfolding 3(3) tokenCount_combined using t l by (simp add: combineContent_def)
    with True t l wc 3 show ?thesis by blast
  qed
qed

lemma extractFirstUrl_nonempty: "extractFirstUrl P t = Some l \<Longrightarrow> t \<noteq> []"
  by (auto simp: extractFirstUrl_def)

lemma startsWith_three_boundary:
  "c \<noteq> 0x0A \<Longrightarrow> startsWith (zs @ c # ys) threeNewlines = startsWith zs threeNewlines"
proof (cases zs)
  case Nil
  then show "c \<noteq> 0x0A \<Longrightarrow> ?thesis" by (auto simp: startsWith_def threeNewlines_def)
next
  case (Cons a as)
  note zs = Cons
  show "c \<noteq> 0x0A \<Longrightarrow> ?thesis"
  proof (cases as)
    case Nil
    with zs show "c \<noteq> 0x0A \<Longrightarrow> ?thesis" by (auto simp: startsWith_def threeNewlines_def)
  next
    case (Cons b bs)
    with zs show "c \<noteq> 0x0A \<Longrightarrow> ?thesis"
      by (cases bs) (auto simp: startsWith_def threeNewlines_def)
  qed
qed

lemma includes_three_boundary:
  "c \<noteq> 0x0A \<Longrightarrow>
   includesStr (xs @ c # ys) threeNewlines
     \<longleftrightarrow> includesStr xs threeNewlines \<or> includesStr ys threeNewlines"
proof (induction xs)
  case Nil
  then show ?case by (simp add: startsWith_def threeNewlines_def)
next
  case (Cons x xs)
  from Cons.prems have "startsWith ((x # xs) @ c # ys) threeNewlines = startsWith (x # xs) threeNewlines"
    by (rule startsWith_three_boundary)
  with Cons show ?case by auto
qed

lemma includes_three_two_newlines:
  "includesStr (xs @ [0x0A, 0x0A]) threeNewlines
     \<longleftrightarrow> includesStr xs threeNewlines \<or> endsWith xs [0x0A]"
proof (cases xs rule: rev_cases)
  case Nil
  then show ?thesis by (simp add: startsWith_def endsWith_def threeNewlines_def)
next
  case (snoc as l)
  show ?thesis
  proof (cases "l = 0x0A")
    case True
    with snoc have "xs @ [0x0A, 0x0A] = as @ threeNewlines @ []" by (simp add: threeNewlines_def)
    then have "includesStr (xs @ [0x0A, 0x0A]) threeNewlines" unfolding includesStr_iff by blast
    moreover from True snoc have "endsWith xs [0x0A]" by (simp add: endsWith_def startsWith_def)
    ultimately show ?thesis by simp
  next
    case False
    from False have a: "includesStr (as @ l # [0x0A, 0x0A]) threeNewlines
        \<longleftrightarrow> includesStr as threeNewlines \<or> includesStr [0x0A, 0x0A] threeNewlines"
      by (rule includes_three_boundary)
    from False have b: "includesStr (as @ l # []) threeNewlines
        \<longleftrightarrow> includesStr as threeNewlines \<or> includesStr [] threeNewlines"
      by (rule includes_three_boundary)
    from False snoc have c: "\<not> endsWith xs [0x0A]" by (simp add: endsWith_def startsWith_def)
    have d: "\<not> includesStr [0x0A, 0x0A] threeNewlines" "\<not> includesStr [] threeNewlines"
      by (simp_all add: startsWith_def threeNewlines_def)
    from a b c d snoc show ?thesis by simp
  qed
qed

lemma includes_three_joined:
  assumes "isTrimmed c"
  shows "includesStr (t @ [0x0A, 0x0A] @ c) threeNewlines
     \<longleftrightarrow> includesStr t threeNewlines \<or> endsWith t [0x0A] \<or> includesStr c threeNewlines"
proof (cases c)
  case Nil
  then show ?thesis
    using includes_three_two_newlines[of t] by (simp add: threeNewlines_def)
next
  case (Cons x xs)
  with assms have x: "x \<noteq> 0x0A" by (auto simp: isTrimmed_def ws_defs)
  from x have "includesStr ((t @ [0x0A, 0x0A]) @ x # xs) threeNewlines
        \<longleftrightarrow> includesStr (t @ [0x0A, 0x0A]) threeNewlines \<or> includesStr xs threeNewlines"
    by (rule includes_three_boundary)
  moreover from x have "includesStr ([] @ x # xs) threeNewlines
        \<longleftrightarrow> includesStr [] threeNewlines \<or> includesStr xs threeNewlines"
    by (rule includes_three_boundary)
  ultimately show ?thesis
    using Cons includes_three_two_newlines[of t] by (simp add: threeNewlines_def)
qed

lemma includes_three_header:
  assumes t: "isTrimmed t" "t \<noteq> []" "\<not> includesStr t threeNewlines"
  shows "includesStr (t @ linkedArticleHeader @ rest) threeNewlines
           \<longleftrightarrow> includesStr rest threeNewlines"
proof -
  from t(2) obtain as l where tl: "t = as @ [l]" by (cases t rule: rev_cases) auto
  with t(1) have l: "l \<noteq> 0x0A" by (auto simp: isTrimmed_def ws_defs)
  have as: "\<not> includesStr as threeNewlines"
  proof
    assume "includesStr as threeNewlines"
    then obtain a b where "as = a @ threeNewlines @ b" unfolding includesStr_iff by blast
    with tl have "t = a @ threeNewlines @ (b @ [l])" by simp
    then have "includesStr t threeNewlines" unfolding includesStr_iff by blast
    with t(3) show False by simp
  qed
  have shape: "t @ linkedArticleHeader @ rest
      = (as @ l # [0x0A, 0x0A]) @ 0x2D # (str ''--\<newline>\<newline>## Linked Article:'' @ 0x20 # rest)"
    by (simp add: tl linkedArticleHeader_def str_def)
  have 1: "includesStr ((as @ l # [0x0A, 0x0A]) @ 0x2D # (str ''--\<newline>\<newline>## Linked Article:'' @ 0x20 # rest)) threeNewlines
      \<longleftrightarrow> includesStr (as @ l # [0x0A, 0x0A]) threeNewlines
          \<or> includesStr (str ''--\<newline>\<newline>## Linked Article:'' @ 0x20 # rest) threeNewlines"
    by (rule includes_three_boundary) simp
  from l have 2: "includesStr (as @ l # [0x0A, 0x0A]) threeNewlines
      \<longleftrightarrow> includesStr as threeNewlines \<or> includesStr [0x0A, 0x0A] threeNewlines"
    by (rule includes_three_boundary)
  have 3: "includesStr (str ''--\<newline>\<newline>## Linked Article:'' @ 0x20 # rest) threeNewlines
      \<longleftrightarrow> includesStr (str ''--\<newline>\<newline>## Linked Article:'') threeNewlines
          \<or> includesStr rest threeNewlines"
    by (rule includes_three_boundary) simp
  have 4: "\<not> includesStr [0x0A, 0x0A] threeNewlines"
    "\<not> includesStr (str ''--\<newline>\<newline>## Linked Article:'') threeNewlines"
    by (simp_all add: startsWith_def threeNewlines_def str_def)
  from 1 2 3 4 as
  have "includesStr ((as @ l # [0x0A, 0x0A]) @ 0x2D # (str ''--\<newline>\<newline>## Linked Article:'' @ 0x20 # rest)) threeNewlines
      \<longleftrightarrow> includesStr rest threeNewlines"
    by blast
  then show ?thesis by (simp only: shape)
qed

lemma combined_three_newlines:
  assumes "isTrimmed (content tweet)" "content tweet \<noteq> []"
    "\<not> includesStr (content tweet) threeNewlines" "isTrimmed (content linked)"
  shows "includesStr (content (combineContent tweet linked)) threeNewlines
     \<longleftrightarrow> includesStr (title linked) threeNewlines \<or> endsWith (title linked) [0x0A]
         \<or> includesStr (content linked) threeNewlines"
proof -
  have "content (combineContent tweet linked)
          = content tweet @ linkedArticleHeader @ (title linked @ [0x0A, 0x0A] @ content linked)"
    by (simp add: combineContent_def str_def)
  with includes_three_header[OF assms(1-3)] includes_three_joined[OF assms(4)]
  show ?thesis by simp
qed

lemma combined_trimmed:
  assumes "isTrimmed (content tweet)" "content tweet \<noteq> []" "isTrimmed (content linked)"
  shows "isTrimmed (content (combineContent tweet linked)) \<longleftrightarrow> content linked \<noteq> []"
proof (cases "content linked = []")
  case True
  then show ?thesis by (simp add: isTrimmed_def combineContent_def ws_defs str_def)
next
  case False
  with assms show ?thesis
    by (simp add: isTrimmed_def combineContent_def)
qed

text \<open>
  Claim C8, as amended. The content of a result of \<open>extractFromUrl\<close> to which no linked
  article was appended is trimmed, and it has no run of three newlines unless it was
  fetched as raw text, where the body is only trimmed. A result with a linked article is
  the combination of a tweet, whose content is non-empty, trimmed and without a run of
  three newlines, and of a linked result of the former kind; its content is trimmed
  exactly when the linked content is non-empty, and it has a run of three newlines exactly
  when the linked title has one or ends with a newline, or the linked content has one.
\<close>

theorem content_trimmed_collapsed:
  assumes "extractFromUrl P w u followLinks = (Inr r, w')"
  shows "(followLinks
          \<and> (\<exists>tweet linked w2 link.
                extractViaJina P (snd (resolveAndConvert P w u)) u = (Inr tweet, w2)
                \<and> extractFirstUrl P (content tweet) = Some link
                \<and> extractFromUrl P w2 link False = (Inr linked, w')
                \<and> r = combineContent tweet linked
                \<and> isTrimmed (content tweet) \<and> content tweet \<noteq> []
                \<and> \<not> includesStr (content tweet) threeNewlines
                \<and> isTrimmed (content linked)
                \<and> (isRawTextUrl P (fst (resolveAndConvert P w2 link))
                    \<or> \<not> includesStr (content linked) threeNewlines)
                \<and> (isTrimmed (content r) \<longleftrightarrow> content linked \<noteq> [])
                \<and> (includesStr (content r) threeNewlines
                      \<longleftrightarrow> includesStr (title linked) threeNewlines
                          \<or> endsWith (title linked) [0x0A]
                          \<or> includesStr (content linked) threeNewlines)))
       \<or> (isTrimmed (content r)
          \<and> (isRawTextUrl P (fst (resolveAndConvert P w u))
              \<or> \<not> includesStr (content r) threeNewlines))"
proof -
  have raw: "rawShape r \<Longrightarrow> isTrimmed (content r)" for r
    by (auto simp: rawShape_def trim_isTrimmed)
  have cl: "cleanedShape r \<Longrightarrow> isTrimmed (content r) \<and> \<not> includesStr (content r) threeNewlines" for r
    using cleanMarkdown_ok by (auto simp: cleanedShape_def)
  have single: "isTrimmed (content r)
          \<and> (isRawTextUrl P (fst (resolveAndConvert P w u))
              \<or> \<not> includesStr (content r) threeNewlines)"
    if "extractFromUrl P w u False = (Inr r, w')" for w u r w'
    using extract_nofollow_shape[OF that] raw cl by blast
  show ?thesis
  proof (cases followLinks)
    case False
    with assms have a: "extractFromUrl P w u False = (Inr r, w')" by simp
    from single[OF a] show ?thesis by blast
  next
    case True
    with assms have a: "extractFromUrl P w u True = (Inr r, w')" by simp
    from extract_follow_shape[OF a]
    consider "isRawTextUrl P (fst (resolveAndConvert P w u)) \<and> rawShape r"
      | "\<not> isRawTextUrl P (fst (resolveAndConvert P w u)) \<and> cleanedShape r"
      | tweet linked w2 link where
          "extractViaJina P (snd (resolveAndConvert P w u)) u = (Inr tweet, w2)"
          "extractFirstUrl P (content tweet) = Some link"
          "extractFromUrl P w2 link False = (Inr linked, w')"
          "r = combineContent tweet linked"
      by blast
    then show ?thesis
    proof cases
      case 1
      with raw show ?thesis by blast
    next
      case 2
      with cl show ?thesis by blast
    next
      case 3
      from 3(1) have "cleanedShape tweet" by (rule extractViaJina_shape)
      with cl have t: "isTrimmed (content tweet)" "\<not> includesStr (content tweet) threeNewlines"
        by blast+
      from 3(2) have ne: "content tweet \<noteq> []" by (rule extractFirstUrl_nonempty)
      note l = single[OF 3(3)]
      from l have lt: "isTrimmed (content linked)" by (rule conjunct1)
      note tr = combined_trimmed[OF t(1) ne lt]
      note nl = combined_three_newlines[OF t(1) ne t(2) lt]
      from True 3 t ne l tr nl show ?thesis by blast
    qed
  qed
qed


lemma url_x: "simpleURL (str ''https://x.com/a/status/1'')
                = Some \<lparr>hostname = str ''x.com'', pathname = str ''/a/status/1''\<rparr>"
  by (simp add: simpleURL_def str_def startsWith_def)

lemma url_a: "simpleURL (str ''https://a.com/p'')
                = Some \<lparr>hostname = str ''a.com'', pathname = str ''/p''\<rparr>"
  by (simp add: simpleURL_def str_def startsWith_def)

lemma class_x:
  "resolveAndConvert (loggingPlatform net) w (str ''https://x.com/a/status/1'')
     = (str ''https://x.com/a/status/1'', w)"
  "\<not> isRawTextUrl (loggingPlatform net) (str ''https://x.com/a/status/1'')"
  "needsJsRendering (loggingPlatform net) (str ''https://x.com/a/status/1'')"
  by (simp_all add: resolveAndConvert_def isUrlShortener_def shorteners_def convertGitHubUrl_def
        isRawTextUrl_def needsJsRendering_def jsHeavyDomains_def url_x)
     (simp_all add: str_def)

lemma class_a:
  "resolveAndConvert (loggingPlatform net) w (str ''https://a.com/p'')
     = (str ''https://a.com/p'', w)"
  "\<not> isRawTextUrl (loggingPlatform net) (str ''https://a.com/p'')"
  "\<not> needsJsRendering (loggingPlatform net) (str ''https://a.com/p'')"
  by (simp_all add: resolveAndConvert_def isUrlShortener_def shorteners_def convertGitHubUrl_def
        isRawTextUrl_def needsJsRendering_def jsHeavyDomains_def url_a)
     (simp_all add: str_def endsWith_def startsWith_def)

lemma clean_tweet: "cleanMarkdown (str ''hi https://a.com/p'') = str ''hi https://a.com/p''"
  by (simp add: cleanMarkdown_def trim_def str_def ws_defs blankMatch_def dollarAt_def caretAt_def)

lemma words_tweet: "countWords (str ''hi https://a.com/p'') = 2"
  by (simp add: countWords_tokenCount tokenCount_def str_def ws_defs)

lemma first_url: "extractFirstUrl (loggingPlatform net) (str ''hi https://a.com/p'') = Some (str ''https://a.com/p'')"
  by (simp add: extractFirstUrl_def urlMatchAt_def urlChar_def stripTrailingPunct_def
        isTrailingPunct_def skipPatterns_def endsWithCI_def toLowerAscii_def endsWith_def
        startsWith_def simpleURL_def str_def ws_defs)

lemma jina_tweet:
  assumes "map_of pages (str ''https://r.jina.ai/https://x.com/a/status/1'') = Some (str ''hi https://a.com/p'')"
  shows "extractViaJina (loggingPlatform (pagesNet pages)) w (str ''https://x.com/a/status/1'')
   = (Inr \<lparr>title = str ''hi https://a.com/p'', content = str ''hi https://a.com/p'',
           url = str ''https://x.com/a/status/1'', wordCount = 2\<rparr>,
      w @ [getRequest (str ''https://r.jina.ai/https://x.com/a/status/1'')
             [(str ''Accept'', str ''text/markdown'')]])"
proof -
  have j: "str ''https://r.jina.ai/'' @ str ''https://x.com/a/status/1''
             = str ''https://r.jina.ai/https://x.com/a/status/1''"
    by (simp add: str_def)
  have f: "pagesNet pages (getRequest (str ''https://r.jina.ai/https://x.com/a/status/1'')
             [(str ''Accept'', str ''text/markdown'')])
           = Inr (okResponse (str ''https://r.jina.ai/https://x.com/a/status/1'') (str ''hi https://a.com/p''))"
    by (simp add: pagesNet_def getRequest_def assms)
  have t: "headingMatch None (str ''hi https://a.com/p'') = None"
          "lineMatch None (str ''hi https://a.com/p'') = Some (str ''hi https://a.com/p'')"
          "trim (str ''hi https://a.com/p'') = str ''hi https://a.com/p''"
    by (simp_all add: str_def caretAt_def ws_defs trim_def)
  show ?thesis
    unfolding extractViaJina_def
    by (simp add: f okResponse_def t clean_tweet words_tweet Let_def j)
qed

lemma tweetPages_jina:
  "map_of tweetPages (str ''https://r.jina.ai/https://x.com/a/status/1'') = Some (str ''hi https://a.com/p'')"
  by (simp add: tweetPages_def)

lemma html_article:
  "extractHtml (loggingPlatform (pagesNet tweetPages)) w (str ''https://a.com/p'')
   = (Inr \<lparr>title = str ''Article'', content = str ''Article body text'',
           url = str ''https://a.com/p'', wordCount = 3\<rparr>,
      w @ [getRequest (str ''https://a.com/p'') htmlHeaders])"
proof -
  have f: "pagesNet tweetPages (getRequest (str ''https://a.com/p'') htmlHeaders)
           = Inr (okResponse (str ''https://a.com/p'') articleHtml)"
    by (simp add: pagesNet_def tweetPages_def getRequest_def str_def)
  have t: "pageTitle articleHtml = str ''Article''"
          "pageMarkdown articleHtml = str ''Article body text''"
    by (simp_all add: pageTitle_def pageMarkdown_def)
  show ?thesis
    unfolding extractHtml_def
    by (simp add: f okResponse_def t clean_article words_article Let_def)
qed

lemma nofollow_article:
  "extractFromUrl (loggingPlatform (pagesNet tweetPages)) w (str ''https://a.com/p'') False
   = (Inr \<lparr>title = str ''Article'', content = str ''Article body text'',
           url = str ''https://a.com/p'', wordCount = 3\<rparr>,
      w @ [getRequest (str ''https://a.com/p'') htmlHeaders])"
  by (subst extractFromUrl.simps) (simp add: class_a html_article)

lemma follow_tweet:
  "extractFromUrl (loggingPlatform (pagesNet tweetPages)) [] (str ''https://x.com/a/status/1'') True
   = (Inr \<lparr>title = str ''hi https://a.com/p'',
           content = str ''hi https://a.com/p\<newline>\<newline>---\<newline>\<newline>## Linked Article: Article\<newline>\<newline>Article body text'',
           url = str ''https://x.com/a/status/1'', wordCount = 5\<rparr>,
      [getRequest (str ''https://r.jina.ai/https://x.com/a/status/1'')
             [(str ''Accept'', str ''text/markdown'')],
       getRequest (str ''https://a.com/p'') htmlHeaders])"
  by (subst extractFromUrl.simps)
     (simp add: class_x jina_tweet[OF tweetPages_jina] first_url nofollow_article combineContent_def
        linkedArticleHeader_def, simp add: str_def)

lemma tokens_combined:
  "tokenCount (str ''hi https://a.com/p\<newline>\<newline>---\<newline>\<newline>## Linked Article: Article\<newline>\<newline>Article body text'') = 10"
  by (simp add: tokenCount_def str_def ws_defs)

text \<open>
  Claim C1 as stated fails where a linked article is appended: for a tweet of two words
  linking to a page of three words, \<open>wordCount\<close> is 5 and the content has 10 tokens.
\<close>

theorem wordCount_combined_counterexample:
  "extractFromUrl (loggingPlatform (pagesNet tweetPages)) [] (str ''https://x.com/a/status/1'') True
     = (Inr \<lparr>title = str ''hi https://a.com/p'',
             content = str ''hi https://a.com/p\<newline>\<newline>---\<newline>\<newline>## Linked Article: Article\<newline>\<newline>Article body text'',
             url = str ''https://x.com/a/status/1'', wordCount = 5\<rparr>,
        [getRequest (str ''https://r.jina.ai/https://x.com/a/status/1'')
           [(str ''Accept'', str ''text/markdown'')],
         getRequest (str ''https://a.com/p'') htmlHeaders])
   \<and> tokenCount (str ''hi https://a.com/p\<newline>\<newline>---\<newline>\<newline>## Linked Article: Article\<newline>\<newline>Article body text'') = 10"
  using follow_tweet tokens_combined by simp

text \<open>The amended C1 at a concrete page.\<close>

theorem wordCount_counts_tokens_witness:
  "extractFromUrl (loggingPlatform (pagesNet tweetPages)) [] (str ''https://a.com/p'') False
     = (Inr \<lparr>title = str ''Article'', content = str ''Article body text'',
             url = str ''https://a.com/p'', wordCount = 3\<rparr>,
        [getRequest (str ''https://a.com/p'') htmlHeaders])
   \<and> tokenCount (str ''Article body text'') = 3"
  using wordCount_counts_tokens[OF nofollow_article[of "[]", simplified]] nofollow_article[of "[]"] by simp

lemma url_raw: "simpleURL (str ''https://raw.githubusercontent.com/o/r/main/f.md'')
                = Some \<lparr>hostname = str ''raw.githubusercontent.com'', pathname = str ''/o/r/main/f.md''\<rparr>"
  by (simp add: simpleURL_def str_def startsWith_def)

lemma class_github:
  "resolveAndConvert (loggingPlatform net) w (str ''https://github.com/o/r/blob/main/f.md'')
     = (str ''https://raw.githubusercontent.com/o/r/main/f.md'', w)"
  "isRawTextUrl (loggingPlatform net) (str ''https://raw.githubusercontent.com/o/r/main/f.md'')"
proof -
  have "\<not> isUrlShortener (loggingPlatform net) (str ''https://github.com/o/r/blob/main/f.md'')"
    by (simp add: isUrlShortener_def shorteners_def simpleURL_github) (simp add: str_def)
  moreover have "convertGitHubUrl (loggingPlatform net) (str ''https://github.com/o/r/blob/main/f.md'')
        = str ''https://raw.githubusercontent.com/o/r/main/f.md''"
    by (simp add: convertGitHubUrl_def simpleURL_github) (simp add: str_def startsWith_def)
  ultimately show "resolveAndConvert (loggingPlatform net) w (str ''https://github.com/o/r/blob/main/f.md'')
     = (str ''https://raw.githubusercontent.com/o/r/main/f.md'', w)"
    by (simp add: resolveAndConvert_def)
  show "isRawTextUrl (loggingPlatform net) (str ''https://raw.githubusercontent.com/o/r/main/f.md'')"
    by (simp add: isRawTextUrl_def url_raw)
qed

lemma raw_extract:
  "extractFromUrl (loggingPlatform (pagesNet rawPages)) [] (str ''https://github.com/o/r/blob/main/f.md'') followLinks
     = (Inr \<lparr>title = str ''f.md'', content = str ''a\<newline>\<newline>\<newline>\<newline>b'',
             url = str ''https://raw.githubusercontent.com/o/r/main/f.md'', wordCount = 2\<rparr>,
        [getRequest (str ''https://raw.githubusercontent.com/o/r/main/f.md'') [userAgent]])"
proof -
  have f: "pagesNet rawPages (getRequest (str ''https://raw.githubusercontent.com/o/r/main/f.md'') [userAgent])
           = Inr (okResponse (str ''https://raw.githubusercontent.com/o/r/main/f.md'') (str ''a\<newline>\<newline>\<newline>\<newline>b''))"
    by (simp add: pagesNet_def rawPages_def getRequest_def)
  have t: "headingMatch None (str ''a\<newline>\<newline>\<newline>\<newline>b'') = None"
          "trim (str ''a\<newline>\<newline>\<newline>\<newline>b'') = str ''a\<newline>\<newline>\<newline>\<newline>b''"
          "lastSegment (str ''/o/r/main/f.md'') = str ''f.md''"
          "countWords (str ''a\<newline>\<newline>\<newline>\<newline>b'') = 2"
    by (simp_all add: str_def caretAt_def ws_defs trim_def lastSegment_def countWords_tokenCount tokenCount_def)
  have "extractRawText (loggingPlatform (pagesNet rawPages)) [] (str ''https://raw.githubusercontent.com/o/r/main/f.md'')
     = (Inr \<lparr>title = str ''f.md'', content = str ''a\<newline>\<newline>\<newline>\<newline>b'',
             url = str ''https://raw.githubusercontent.com/o/r/main/f.md'', wordCount = 2\<rparr>,
        [getRequest (str ''https://raw.githubusercontent.com/o/r/main/f.md'') [userAgent]])"
    unfolding extractRawText_def
    by (simp add: f okResponse_def t url_raw Let_def)
  then show ?thesis
    by (subst extractFromUrl.simps) (simp add: class_github)
qed

lemma emptyLinkPages_jina:
  "map_of emptyLinkPages (str ''https://r.jina.ai/https://x.com/a/status/1'') = Some (str ''hi https://a.com/p'')"
  by (simp add: emptyLinkPages_def)

lemma html_empty:
  "extractHtml (loggingPlatform (pagesNet emptyLinkPages)) w (str ''https://a.com/p'')
   = (Inr \<lparr>title = str ''Untitled'', content = [], url = str ''https://a.com/p'', wordCount = 0\<rparr>,
      w @ [getRequest (str ''https://a.com/p'') htmlHeaders])"
proof -
  have f: "pagesNet emptyLinkPages (getRequest (str ''https://a.com/p'') htmlHeaders)
           = Inr (okResponse (str ''https://a.com/p'') emptyHtml)"
    by (simp add: pagesNet_def emptyLinkPages_def getRequest_def str_def)
  have t: "pageTitle emptyHtml = str ''Untitled''" "pageMarkdown emptyHtml = []"
    by (simp_all add: pageTitle_def pageMarkdown_def emptyHtml_def articleHtml_def str_def)
  have c: "cleanMarkdown [] = []" "countWords [] = 0"
    by (simp_all add: cleanMarkdown_def trim_def countWords_tokenCount tokenCount_def)
  show ?thesis
    unfolding extractHtml_def
    by (simp add: f okResponse_def t c Let_def)
qed

lemma nofollow_empty:
  "extractFromUrl (loggingPlatform (pagesNet emptyLinkPages)) w (str ''https://a.com/p'') False
   = (Inr \<lparr>title = str ''Untitled'', content = [], url = str ''https://a.com/p'', wordCount = 0\<rparr>,
      w @ [getRequest (str ''https://a.com/p'') htmlHeaders])"
  by (subst extractFromUrl.simps) (simp add: class_a html_empty)

lemma follow_empty:
  "extractFromUrl (loggingPlatform (pagesNet emptyLinkPages)) [] (str ''https://x.com/a/status/1'') True
   = (Inr \<lparr>title = str ''hi https://a.com/p'',
           content = str ''hi https://a.com/p\<newline>\<newline>---\<newline>\<newline>## Linked Article: Untitled\<newline>\<newline>'',
           url = str ''https://x.com/a/status/1'', wordCount = 2\<rparr>,
      [getRequest (str ''https://r.jina.ai/https://x.com/a/status/1'')
             [(str ''Accept'', str ''text/markdown'')],
       getRequest (str ''https://a.com/p'') htmlHeaders])"
  by (subst extractFromUrl.simps)
     (simp add: class_x jina_tweet[OF emptyLinkPages_jina] first_url nofollow_empty combineContent_def
        linkedArticleHeader_def, simp add: str_def)

lemma first_url_github:
  "extractFirstUrl (loggingPlatform net) (str ''see https://github.com/o/r/blob/main/f.md'')
     = Some (str ''https://github.com/o/r/blob/main/f.md'')"
  by (simp add: extractFirstUrl_def urlMatchAt_def urlChar_def stripTrailingPunct_def
        isTrailingPunct_def skipPatterns_def endsWithCI_def toLowerAscii_def endsWith_def
        startsWith_def simpleURL_def str_def ws_defs)

lemma jina_github:
  "extractViaJina (loggingPlatform (pagesNet rawLinkPages)) w (str ''https://x.com/a/status/1'')
   = (Inr \<lparr>title = str ''see https://github.com/o/r/blob/main/f.md'',
           content = str ''see https://github.com/o/r/blob/main/f.md'',
           url = str ''https://x.com/a/status/1'', wordCount = 2\<rparr>,
      w @ [getRequest (str ''https://r.jina.ai/https://x.com/a/status/1'')
             [(str ''Accept'', str ''text/markdown'')]])"
proof -
  let ?t = "str ''see https://github.com/o/r/blob/main/f.md''"
  have f: "pagesNet rawLinkPages (getRequest (str ''https://r.jina.ai/'' @ str ''https://x.com/a/status/1'')
             [(str ''Accept'', str ''text/markdown'')])
           = Inr (okResponse (str ''https://r.jina.ai/https://x.com/a/status/1'') ?t)"
    by (simp add: pagesNet_def rawLinkPages_def getRequest_def str_def)
  have t: "headingMatch None ?t = None" "lineMatch None ?t = Some ?t" "trim ?t = ?t"
    by (simp_all add: str_def caretAt_def ws_defs trim_def dotAt_def)
  have c: "cleanMarkdown ?t = ?t"
    by (simp add: cleanMarkdown_def trim_def str_def ws_defs blankMatch_def dollarAt_def caretAt_def)
  have n: "countWords ?t = 2"
    by (simp add: countWords_tokenCount tokenCount_def str_def ws_defs)
  show ?thesis
    unfolding extractViaJina_def
    by (simp add: f okResponse_def t c n Let_def) (simp add: str_def)
qed

lemma nofollow_github:
  "extractFromUrl (loggingPlatform (pagesNet rawLinkPages)) w (str ''https://github.com/o/r/blob/main/f.md'') False
     = (Inr \<lparr>title = str ''f.md'', content = str ''a\<newline>\<newline>\<newline>\<newline>b'',
             url = str ''https://raw.githubusercontent.com/o/r/main/f.md'', wordCount = 2\<rparr>,
        w @ [getRequest (str ''https://raw.githubusercontent.com/o/r/main/f.md'') [userAgent]])"
proof -
  have f: "pagesNet rawLinkPages (getRequest (str ''https://raw.githubusercontent.com/o/r/main/f.md'') [userAgent])
           = Inr (okResponse (str ''https://raw.githubusercontent.com/o/r/main/f.md'') (str ''a\<newline>\<newline>\<newline>\<newline>b''))"
    by (simp add: pagesNet_def rawLinkPages_def getRequest_def str_def)
  have t: "headingMatch None (str ''a\<newline>\<newline>\<newline>\<newline>b'') = None"
          "trim (str ''a\<newline>\<newline>\<newline>\<newline>b'') = str ''a\<newline>\<newline>\<newline>\<newline>b''"
          "lastSegment (str ''/o/r/main/f.md'') = str ''f.md''"
          "countWords (str ''a\<newline>\<newline>\<newline>\<newline>b'') = 2"
    by (simp_all add: str_def caretAt_def ws_defs trim_def lastSegment_def countWords_tokenCount tokenCount_def)
  have "extractRawText (loggingPlatform (pagesNet rawLinkPages)) w (str ''https://raw.githubusercontent.com/o/r/main/f.md'')
     = (Inr \<lparr>title = str ''f.md'', content = str ''a\<newline>\<newline>\<newline>\<newline>b'',
             url = str ''https://raw.githubusercontent.com/o/r/main/f.md'', wordCount = 2\<rparr>,
        w @ [getRequest (str ''https://raw.githubusercontent.com/o/r/main/f.md'') [userAgent]])"
    unfolding extractRawText_def
    by (simp add: f okResponse_def t url_raw Let_def)
  then show ?thesis
    by (subst extractFromUrl.simps) (simp add: class_github)
qed

lemma follow_github:
  "extractFromUrl (loggingPlatform (pagesNet rawLinkPages)) [] (str ''https://x.com/a/status/1'') True
   = (Inr \<lparr>title = str ''see https://github.com/o/r/blob/main/f.md'',
           content = str ''see https://github.com/o/r/blob/main/f.md\<newline>\<newline>---\<newline>\<newline>## Linked Article: f.md\<newline>\<newline>a\<newline>\<newline>\<newline>\<newline>b'',
           url = str ''https://x.com/a/status/1'', wordCount = 4\<rparr>,
      [getRequest (str ''https://r.jina.ai/https://x.com/a/status/1'')
             [(str ''Accept'', str ''text/markdown'')],
       getRequest (str ''https://raw.githubusercontent.com/o/r/main/f.md'') [userAgent]])"
  by (subst extractFromUrl.simps)
     (simp add: class_x jina_github first_url_github nofollow_github combineContent_def
        linkedArticleHeader_def, simp add: str_def)

text \<open>
  Claim C8 as stated fails in three ways: a GitHub file with four consecutive newlines is
  returned with all four; a tweet linking to a page without content gives a combined
  content that ends with two newlines; a tweet linking to that GitHub file gives a combined
  content with the four newlines.
\<close>

theorem content_not_normalised_counterexample:
  "extractFromUrl (loggingPlatform (pagesNet rawPages)) [] (str ''https://github.com/o/r/blob/main/f.md'') True
     = (Inr \<lparr>title = str ''f.md'', content = str ''a\<newline>\<newline>\<newline>\<newline>b'',
             url = str ''https://raw.githubusercontent.com/o/r/main/f.md'', wordCount = 2\<rparr>,
        [getRequest (str ''https://raw.githubusercontent.com/o/r/main/f.md'') [userAgent]])
   \<and> includesStr (str ''a\<newline>\<newline>\<newline>\<newline>b'') threeNewlines
   \<and> extractFromUrl (loggingPlatform (pagesNet emptyLinkPages)) [] (str ''https://x.com/a/status/1'') True
     = (Inr \<lparr>title = str ''hi https://a.com/p'',
             content = str ''hi https://a.com/p\<newline>\<newline>---\<newline>\<newline>## Linked Article: Untitled\<newline>\<newline>'',
             url = str ''https://x.com/a/status/1'', wordCount = 2\<rparr>,
        [getRequest (str ''https://r.jina.ai/https://x.com/a/status/1'')
           [(str ''Accept'', str ''text/markdown'')],
         getRequest (str ''https://a.com/p'') htmlHeaders])
   \<and> \<not> isTrimmed (str ''hi https://a.com/p\<newline>\<newline>---\<newline>\<newline>## Linked Article: Untitled\<newline>\<newline>'')
   \<and> extractFromUrl (loggingPlatform (pagesNet rawLinkPages)) [] (str ''https://x.com/a/status/1'') True
     = (Inr \<lparr>title = str ''see https://github.com/o/r/blob/main/f.md'',
             content = str ''see https://github.com/o/r/blob/main/f.md\<newline>\<newline>---\<newline>\<newline>## Linked Article: f.md\<newline>\<newline>a\<newline>\<newline>\<newline>\<newline>b'',
             url = str ''https://x.com/a/status/1'', wordCount = 4\<rparr>,
        [getRequest (str ''https://r.jina.ai/https://x.com/a/status/1'')
           [(str ''Accept'', str ''text/markdown'')],
         getRequest (str ''https://raw.githubusercontent.com/o/r/main/f.md'') [userAgent]])
   \<and> includesStr (str ''see https://github.com/o/r/blob/main/f.md\<newline>\<newline>---\<newline>\<newline>## Linked Article: f.md\<newline>\<newline>a\<newline>\<newline>\<newline>\<newline>b'') threeNewlines"
proof -
  have 1: "includesStr (str ''a\<newline>\<newline>\<newline>\<newline>b'') threeNewlines"
    by (simp add: str_def threeNewlines_def startsWith_def)
  have 2: "\<not> isTrimmed (str ''hi https://a.com/p\<newline>\<newline>---\<newline>\<newline>## Linked Article: Untitled\<newline>\<newline>'')"
    by (simp add: isTrimmed_def str_def ws_defs)
  have 3: "includesStr (str ''see https://github.com/o/r/blob/main/f.md\<newline>\<newline>---\<newline>\<newline>## Linked Article: f.md\<newline>\<newline>a\<newline>\<newline>\<newline>\<newline>b'') threeNewlines"
    by (simp add: str_def threeNewlines_def startsWith_def)
  from raw_extract[of True] follow_empty follow_github 1 2 3 show ?thesis by simp
qed

text \<open>The amended C8 at a concrete page and at a concrete tweet with its linked page.\<close>

theorem content_trimmed_collapsed_witness:
  "extractFromUrl (loggingPlatform (pagesNet tweetPages)) [] (str ''https://a.com/p'') False
     = (Inr \<lparr>title = str ''Article'', content = str ''Article body text'',
             url = str ''https://a.com/p'', wordCount = 3\<rparr>,
        [getRequest (str ''https://a.com/p'') htmlHeaders])
   \<and> isTrimmed (str ''Article body text'')
   \<and> \<not> includesStr (str ''Article body text'') threeNewlines
   \<and> extractFromUrl (loggingPlatform (pagesNet tweetPages)) [] (str ''https://x.com/a/status/1'') True
     = (Inr \<lparr>title = str ''hi https://a.com/p'',
             content = str ''hi https://a.com/p\<newline>\<newline>---\<newline>\<newline>## Linked Article: Article\<newline>\<newline>Article body text'',
             url = str ''https://x.com/a/status/1'', wordCount = 5\<rparr>,
        [getRequest (str ''https://r.jina.ai/https://x.com/a/status/1'')
           [(str ''Accept'', str ''text/markdown'')],
         getRequest (str ''https://a.com/p'') htmlHeaders])
   \<and> isTrimmed (str ''hi https://a.com/p\<newline>\<newline>---\<newline>\<newline>## Linked Article: Article\<newline>\<newline>Article body text'')
   \<and> \<not> includesStr (str ''hi https://a.com/p\<newline>\<newline>---\<newline>\<newline>## Linked Article: Article\<newline>\<newline>Article body text'') threeNewlines"
proof -
  from content_trimmed_collapsed[OF nofollow_article[of "[]", simplified]] nofollow_article[of "[]"]
  have a: "extractFromUrl (loggingPlatform (pagesNet tweetPages)) [] (str ''https://a.com/p'') False
     = (Inr \<lparr>title = str ''Article'', content = str ''Article body text'',
             url = str ''https://a.com/p'', wordCount = 3\<rparr>,
        [getRequest (str ''https://a.com/p'') htmlHeaders])
   \<and> isTrimmed (str ''Article body text'')
   \<and> \<not> includesStr (str ''Article body text'') threeNewlines"
    by (simp add: class_a)
  let ?c = "str ''hi https://a.com/p\<newline>\<newline>---\<newline>\<newline>## Linked Article: Article\<newline>\<newline>Article body text''"
  from content_trimmed_collapsed[OF follow_tweet]
  have "isTrimmed ?c \<and> \<not> includesStr ?c threeNewlines"
    by (simp add: isTrimmed_def str_def ws_defs threeNewlines_def startsWith_def)
  with a follow_tweet show ?thesis by simp
qed

lemma header_marker:
  "includesStr (content (combineContent tweet linked)) (str ''## Linked Article:'')"
proof -
  have "content (combineContent tweet linked)
          = (content tweet @ str ''\<newline>\<newline>---\<newline>\<newline>'') @ str ''## Linked Article:''
              @ (str '' '' @ title linked @ str ''\<newline>\<newline>'' @ content linked)"
    by (simp add: combineContent_def linkedArticleHeader_def str_def)
  then show ?thesis unfolding includesStr_iff by blast
qed

text \<open>
  Claim C6, as amended. For a tweet extracted through the Jina Reader whose content holds
  a qualifying external link: with \<open>followLinks\<close> and a successful extraction of the link,
  the result is the combination, its content contains \<open>## Linked Article:\<close> and its
  \<open>wordCount\<close> is the sum of the two word counts; when the extraction of the link fails, the
  result is the tweet alone; without \<open>followLinks\<close> the result is the tweet alone, so that
  its content contains the marker only if the tweet's own text does.
\<close>

theorem linked_article_following:
  assumes "resolveAndConvert P w u = (processedUrl, w1)"
    and "\<not> isRawTextUrl P processedUrl"
    and "needsJsRendering P processedUrl"
    and "extractViaJina P w1 u = (Inr tweet, w2)"
    and "extractFirstUrl P (content tweet) = Some linkedUrl"
  shows "(\<forall>linked w3. extractFromUrl P w2 linkedUrl False = (Inr linked, w3) \<longrightarrow>
            extractFromUrl P w u True = (Inr (combineContent tweet linked), w3)
            \<and> includesStr (content (combineContent tweet linked)) (str ''## Linked Article:'')
            \<and> wordCount (combineContent tweet linked) = wordCount tweet + wordCount linked)
       \<and> (\<forall>e w3. extractFromUrl P w2 linkedUrl False = (Inl e, w3) \<longrightarrow>
            extractFromUrl P w u True = (Inr tweet, w3))
       \<and> extractFromUrl P w u False = (Inr tweet, w2)
       \<and> (\<not> includesStr (content tweet) (str ''## Linked Article:'') \<longrightarrow>
            (\<forall>r w'. extractFromUrl P w u False = (Inr r, w') \<longrightarrow>
               \<not> includesStr (content r) (str ''## Linked Article:'')))"
proof (intro conjI allI impI)
  fix linked w3
  assume l: "extractFromUrl P w2 linkedUrl False = (Inr linked, w3)"
  with assms show "extractFromUrl P w u True = (Inr (combineContent tweet linked), w3)"
    by (simp add: extractFromUrl.simps[of P w u True])
  show "includesStr (content (combineContent tweet linked)) (str ''## Linked Article:'')"
    by (rule header_marker)
  show "wordCount (combineContent tweet linked) = wordCount tweet + wordCount linked"
    by (simp add: combineContent_def)
next
  fix e w3
  assume "extractFromUrl P w2 linkedUrl False = (Inl e, w3)"
  with assms show "extractFromUrl P w u True = (Inr tweet, w3)"
    by (simp add: extractFromUrl.simps[of P w u True])
next
  from assms show nf: "extractFromUrl P w u False = (Inr tweet, w2)"
    by (simp add: extractFromUrl.simps[of P w u False])
  fix r w'
  assume "\<not> includesStr (content tweet) (str ''## Linked Article:'')"
    and "extractFromUrl P w u False = (Inr r, w')"
  with nf show "\<not> includesStr (content r) (str ''## Linked Article:'')" by simp
qed

lemma first_url_marker:
  "extractFirstUrl (loggingPlatform net) (str ''## Linked Article: none https://a.com/p'')
     = Some (str ''https://a.com/p'')"
  by (simp add: extractFirstUrl_def urlMatchAt_def urlChar_def stripTrailingPunct_def
        isTrailingPunct_def skipPatterns_def endsWithCI_def toLowerAscii_def endsWith_def
        startsWith_def simpleURL_def str_def ws_defs)

lemma jina_marker:
  "extractViaJina (loggingPlatform (pagesNet markerPages)) w (str ''https://x.com/a/status/1'')
   = (Inr \<lparr>title = str ''## Linked Article: none https://a.com/p'',
           content = str ''## Linked Article: none https://a.com/p'',
           url = str ''https://x.com/a/status/1'', wordCount = 5\<rparr>,
      w @ [getRequest (str ''https://r.jina.ai/https://x.com/a/status/1'')
             [(str ''Accept'', str ''text/markdown'')]])"
proof -
  let ?t = "str ''## Linked Article: none https://a.com/p''"
  have f: "pagesNet markerPages (getRequest (str ''https://r.jina.ai/'' @ str ''https://x.com/a/status/1'')
             [(str ''Accept'', str ''text/markdown'')])
           = Inr (okResponse (str ''https://r.jina.ai/https://x.com/a/status/1'') ?t)"
    by (simp add: pagesNet_def markerPages_def getRequest_def str_def)
  have t: "headingMatch None ?t = None" "lineMatch None ?t = Some ?t" "trim ?t = ?t"
    by (simp_all add: str_def caretAt_def ws_defs trim_def dotAt_def)
  have c: "cleanMarkdown ?t = ?t"
    by (simp add: cleanMarkdown_def trim_def str_def ws_defs blankMatch_def dollarAt_def caretAt_def)
  have n: "countWords ?t = 5"
    by (simp add: countWords_tokenCount tokenCount_def str_def ws_defs)
  show ?thesis
    unfolding extractViaJina_def
    by (simp add: f okResponse_def t c n Let_def) (simp add: str_def)
qed

text \<open>
  Claim C6 as stated fails without \<open>followLinks\<close> for a tweet whose own text contains the
  marker: the content is returned as it is.
\<close>

theorem marker_without_following_counterexample:
  "extractFirstUrl (loggingPlatform (pagesNet markerPages)) (str ''## Linked Article: none https://a.com/p'')
     = Some (str ''https://a.com/p'')
   \<and> extractFromUrl (loggingPlatform (pagesNet markerPages)) [] (str ''https://x.com/a/status/1'') False
     = (Inr \<lparr>title = str ''## Linked Article: none https://a.com/p'',
             content = str ''## Linked Article: none https://a.com/p'',
             url = str ''https://x.com/a/status/1'', wordCount = 5\<rparr>,
        [getRequest (str ''https://r.jina.ai/https://x.com/a/status/1'')
           [(str ''Accept'', str ''text/markdown'')]])
   \<and> includesStr (str ''## Linked Article: none https://a.com/p'') (str ''## Linked Article:'')"
proof -
  have "extractFromUrl (loggingPlatform (pagesNet markerPages)) [] (str ''https://x.com/a/status/1'') False
     = (Inr \<lparr>title = str ''## Linked Article: none https://a.com/p'',
             content = str ''## Linked Article: none https://a.com/p'',
             url = str ''https://x.com/a/status/1'', wordCount = 5\<rparr>,
        [getRequest (str ''https://r.jina.ai/https://x.com/a/status/1'')
           [(str ''Accept'', str ''text/markdown'')]])"
    by (subst extractFromUrl.simps) (simp add: class_x jina_marker)
  moreover have "includesStr (str ''## Linked Article: none https://a.com/p'') (str ''## Linked Article:'')"
    by (simp add: str_def startsWith_def)
  ultimately show ?thesis using first_url_marker by simp
qed

lemma tweetOnlyPages_jina:
  "map_of tweetOnlyPages (str ''https://r.jina.ai/https://x.com/a/status/1'') = Some (str ''hi https://a.com/p'')"
  by (simp add: tweetOnlyPages_def)

lemma nofollow_unreachable:
  "extractFromUrl (loggingPlatform (pagesNet tweetOnlyPages)) w (str ''https://a.com/p'') False
   = (Inl (TypeError (str ''fetch failed'')), w @ [getRequest (str ''https://a.com/p'') htmlHeaders])"
proof -
  have f: "pagesNet tweetOnlyPages (getRequest (str ''https://a.com/p'') htmlHeaders) = unreachable"
    by (simp add: pagesNet_def tweetOnlyPages_def getRequest_def str_def)
  have "extractHtml (loggingPlatform (pagesNet tweetOnlyPages)) w (str ''https://a.com/p'')
        = (Inl (TypeError (str ''fetch failed'')), w @ [getRequest (str ''https://a.com/p'') htmlHeaders])"
    unfolding extractHtml_def by (simp add: f unreachable_def)
  then show ?thesis
    by (subst extractFromUrl.simps) (simp add: class_a)
qed

text \<open>The amended C6 on concrete networks: link reachable, link unreachable, not followed.\<close>

theorem linked_article_following_witness:
  "extractFromUrl (loggingPlatform (pagesNet tweetPages)) [] (str ''https://x.com/a/status/1'') True
     = (Inr (combineContent
          \<lparr>title = str ''hi https://a.com/p'', content = str ''hi https://a.com/p'',
            url = str ''https://x.com/a/status/1'', wordCount = 2\<rparr>
          \<lparr>title = str ''Article'', content = str ''Article body text'',
            url = str ''https://a.com/p'', wordCount = 3\<rparr>),
        [getRequest (str ''https://r.jina.ai/https://x.com/a/status/1'')
           [(str ''Accept'', str ''text/markdown'')],
         getRequest (str ''https://a.com/p'') htmlHeaders])
   \<and> includesStr (content (combineContent
          \<lparr>title = str ''hi https://a.com/p'', content = str ''hi https://a.com/p'',
            url = str ''https://x.com/a/status/1'', wordCount = 2\<rparr>
          \<lparr>title = str ''Article'', content = str ''Article body text'',
            url = str ''https://a.com/p'', wordCount = 3\<rparr>)) (str ''## Linked Article:'')
   \<and> wordCount (combineContent
          \<lparr>title = str ''hi https://a.com/p'', content = str ''hi https://a.com/p'',
            url = str ''https://x.com/a/status/1'', wordCount = 2\<rparr>
          \<lparr>title = str ''Article'', content = str ''Article body text'',
            url = str ''https://a.com/p'', wordCount = 3\<rparr>) = 2 + 3
   \<and> extractFromUrl (loggingPlatform (pagesNet tweetOnlyPages)) [] (str ''https://x.com/a/status/1'') True
     = (Inr \<lparr>title = str ''hi https://a.com/p'', content = str ''hi https://a.com/p'',
             url = str ''https://x.com/a/status/1'', wordCount = 2\<rparr>,
        [getRequest (str ''https://r.jina.ai/https://x.com/a/status/1'')
           [(str ''Accept'', str ''text/markdown'')],
         getRequest (str ''https://a.com/p'') htmlHeaders])
   \<and> extractFromUrl (loggingPlatform (pagesNet tweetPages)) [] (str ''https://x.com/a/status/1'') False
     = (Inr \<lparr>title = str ''hi https://a.com/p'', content = str ''hi https://a.com/p'',
             url = str ''https://x.com/a/status/1'', wordCount = 2\<rparr>,
        [getRequest (str ''https://r.jina.ai/https://x.com/a/status/1'')
           [(str ''Accept'', str ''text/markdown'')]])
   \<and> \<not> includesStr (str ''hi https://a.com/p'') (str ''## Linked Article:'')"
proof -
  let ?tweet = "\<lparr>title = str ''hi https://a.com/p'', content = str ''hi https://a.com/p'',
            url = str ''https://x.com/a/status/1'', wordCount = 2\<rparr>"
  have fu: "\<And>net. extractFirstUrl (loggingPlatform net) (content ?tweet) = Some (str ''https://a.com/p'')"
    by (simp add: first_url)
  have nm: "\<not> includesStr (str ''hi https://a.com/p'') (str ''## Linked Article:'')"
    by (simp add: str_def startsWith_def)
  note a = linked_article_following[OF class_x(1) class_x(2) class_x(3) jina_tweet[OF tweetPages_jina] fu, of "[]"]
  note b = linked_article_following[OF class_x(1) class_x(2) class_x(3) jina_tweet[OF tweetOnlyPages_jina] fu, of "[]"]
  from a nofollow_article b nofollow_unreachable nm show ?thesis by simp
qed


subsection \<open>The completion client\<close>

lemma tryModels_after_rate_limits:
  "rateLimitedRun L st prompt onStream pre lastError w k = Some (last1, w1, k1) \<Longrightarrow>
   tryModels L st prompt onStream (pre @ rest) lastError w k
     = tryModels L st prompt onStream rest last1 w1 k1"
proof (induction pre arbitrary: lastError w k)
  case Nil
  then show ?case by simp
next
  case (Cons m pre)
  then show ?case
    by (auto split: prod.splits sum.splits if_splits)
qed

lemma isRateLimit_429: "isRateLimit (rateLimitExceeded model)"
proof -
  have "message (rateLimitExceeded model)
          = str ''Rate limit exceeded ('' @ str ''429'' @ (str '') for model '' @ model)"
    by (simp add: rateLimitExceeded_def str_def)
  then have "includesStr (message (rateLimitExceeded model)) (str ''429'')"
    unfolding includesStr_iff by blast
  then show ?thesis by (simp add: isRateLimit_def)
qed

text \<open>
  Claim C3. With a non-empty ranked list, the models are tried in list order. When every
  model before \<open>m\<close> has failed with an error classified as a rate limit (the states being
  threaded through the attempts), a success of \<open>m\<close> is the result at once, in the state its
  attempt left, whatever follows \<open>m\<close> in the list; a failure of \<open>m\<close> that is not a rate
  limit is raised at once, likewise; a rate-limit failure of \<open>m\<close> is recorded as the last
  error and the loop goes on with the models after \<open>m\<close>, ending, when there are none, with
  the error that names this last error. The error raised on a status 429 is classified as
  a rate limit.
\<close>

theorem fallback_order:
  assumes "freeModelRank st = pre @ m # post"
    and "rateLimitedRun L st prompt onStream pre None w k = Some (last1, w1, k1)"
  shows "(\<forall>r w2 k2. attempt L st prompt onStream m w1 k1 = (Inr r, w2, k2) \<longrightarrow>
            completionWithAutoFree L st w k prompt onStream = (Inr r, w2, k2))
       \<and> (\<forall>e w2 k2. attempt L st prompt onStream m w1 k1 = (Inl e, w2, k2) \<and> \<not> isRateLimit e \<longrightarrow>
            completionWithAutoFree L st w k prompt onStream = (Inl e, w2, k2))
       \<and> (\<forall>e w2 k2. attempt L st prompt onStream m w1 k1 = (Inl e, w2, k2) \<and> isRateLimit e \<longrightarrow>
            completionWithAutoFree L st w k prompt onStream
              = tryModels L st prompt onStream post (Some e) w2 k2
            \<and> (post = [] \<longrightarrow> completionWithAutoFree L st w k prompt onStream
                  = (Inl (allRateLimited (Some e)), w2, k2)))
       \<and> isRateLimit (rateLimitExceeded m)"
proof -
  have c: "completionWithAutoFree L st w k prompt onStream
             = tryModels L st prompt onStream (m # post) last1 w1 k1"
    using assms tryModels_after_rate_limits[OF assms(2), of "m # post"]
    by (simp add: completionWithAutoFree_def)
  show ?thesis unfolding c using isRateLimit_429[of m] by auto
qed

text \<open>
  Claim C4, as amended. In a non-streaming completion that received a response: status
  429 raises the rate-limit error naming the model, which the fallback loop classifies as
  a rate limit; any other status than 200 (so any other non-2xx status) raises the API
  error carrying the response text; a truthy \<open>error\<close> field in a 200 body raises an error
  carrying its message (so an \<open>error\<close> field in any 2xx body raises an error); each such
  error is fatal in the fallback loop exactly when its message does not match the
  rate-limit pattern, and is otherwise treated as a rate limit; and a result, when one is
  returned, has the first choice's message content, or the empty string, and the model
  echoed by the server, or the requested one.
\<close>

theorem completion_outcomes:
  assumes "requestUrl L w \<lparr>rq_apiKey = openRouterApiKey st, rq_model = model,
                             rq_prompt = prompt, rq_stream = False\<rparr> = (Inr response, w1)"
  shows "(api_status response = 429 \<longrightarrow>
            completion L st w model prompt = (Inl (rateLimitExceeded model), w1)
            \<and> isRateLimit (rateLimitExceeded model))
       \<and> (api_status response \<noteq> 429 \<and> api_status response \<noteq> 200 \<longrightarrow>
            completion L st w model prompt
              = (Inl (Error (str ''OpenRouter API error: ''
                             @ (if api_text response \<noteq> [] then api_text response
                                else str ''HTTP '' @ showNat (api_status response)))), w1))
       \<and> (\<forall>data. api_status response = 200 \<and> api_json response = Inr data \<and> data \<noteq> JNull
             \<and> truthy (getProp data (str ''error'')) \<longrightarrow>
            completion L st w model prompt
              = (Inl (errorFieldError L (the (getProp data (str ''error'')))), w1))
       \<and> (\<forall>data. 200 \<le> api_status response \<and> api_status response < 300
             \<and> api_json response = Inr data \<and> data \<noteq> JNull
             \<and> truthy (getProp data (str ''error'')) \<longrightarrow>
            (\<exists>e. completion L st w model prompt = (Inl e, w1)))
       \<and> (\<forall>r w'. completion L st w model prompt = (Inr r, w') \<longrightarrow>
            (\<exists>data. api_status response = 200 \<and> api_json response = Inr data
               \<and> \<not> truthy (getProp data (str ''error''))
               \<and> res_content r
                    = orElse (optProp (optProp (optFirst (getProp data (str ''choices'')))
                                (str ''message'')) (str ''content'')) (JStr [])
               \<and> res_model r = orElse (getProp data (str ''model'')) (JStr model)))
       \<and> (\<forall>e w'. completion L st w model prompt = (Inl e, w') \<longrightarrow>
            tryModels L st prompt None (model # others) lastError w k
              = (if isRateLimit e then tryModels L st prompt None others (Some e) w' k
                 else (Inl e, w', k)))"
proof (intro conjI allI impI)
  assume "api_status response = 429"
  with assms show "completion L st w model prompt = (Inl (rateLimitExceeded model), w1)"
    by (simp add: completion_def)
  show "isRateLimit (rateLimitExceeded model)" by (rule isRateLimit_429)
next
  assume "api_status response \<noteq> 429 \<and> api_status response \<noteq> 200"
  with assms show "completion L st w model prompt
              = (Inl (Error (str ''OpenRouter API error: ''
                             @ (if api_text response \<noteq> [] then api_text response
                                else str ''HTTP '' @ showNat (api_status response)))), w1)"
    by (simp add: completion_def)
next
  fix data
  assume "api_status response = 200 \<and> api_json response = Inr data \<and> data \<noteq> JNull
             \<and> truthy (getProp data (str ''error''))"
  with assms show "completion L st w model prompt
              = (Inl (errorFieldError L (the (getProp data (str ''error'')))), w1)"
    by (cases data) (simp_all add: completion_def)
next
  fix data
  assume a: "200 \<le> api_status response \<and> api_status response < 300
             \<and> api_json response = Inr data \<and> data \<noteq> JNull
             \<and> truthy (getProp data (str ''error''))"
  show "\<exists>e. completion L st w model prompt = (Inl e, w1)"
  proof (cases "api_status response = 200")
    case True
    with assms a show ?thesis by (cases data) (simp_all add: completion_def)
  next
    case False
    with assms a show ?thesis by (simp add: completion_def)
  qed
next
  fix r w'
  assume c: "completion L st w model prompt = (Inr r, w')"
  from c assms have s: "api_status response = 200"
    by (auto simp: completion_def split: if_splits)
  from c assms s obtain data where d: "api_json response = Inr data"
    by (cases "api_json response") (auto simp: completion_def)
  from c assms s d have ne: "data \<noteq> JNull"
    by (auto simp: completion_def)
  from c assms s d ne have "\<not> truthy (getProp data (str ''error''))
       \<and> res_content r
            = orElse (optProp (optProp (optFirst (getProp data (str ''choices'')))
                        (str ''message'')) (str ''content'')) (JStr [])
       \<and> res_model r = orElse (getProp data (str ''model'')) (JStr model)"
    by (cases data) (auto simp: completion_def split: if_splits)
  with s d show "\<exists>data. api_status response = 200 \<and> api_json response = Inr data
               \<and> \<not> truthy (getProp data (str ''error''))
               \<and> res_content r
                    = orElse (optProp (optProp (optFirst (getProp data (str ''choices'')))
                                (str ''message'')) (str ''content'')) (JStr [])
               \<and> res_model r = orElse (getProp data (str ''model'')) (JStr model)"
    by blast
next
  fix e w'
  assume "completion L st w model prompt = (Inl e, w')"
  then show "tryModels L st prompt None (model # others) lastError w k
              = (if isRateLimit e then tryModels L st prompt None others (Some e) w' k
                 else (Inl e, w', k))"
    by (simp add: attempt_def)
qed

text \<open>
  Claim C10. A result of the streaming path always reports the requested model; a result
  of the non-streaming path reports the model echoed in the body when there is one, else
  the requested model.
\<close>

theorem reported_model:
  "(\<forall>r w' k'. streamCompletion L st w k model prompt onStream = (Inr r, w', k') \<longrightarrow>
      res_model r = JStr model)
   \<and> (\<forall>response w1 data r w'.
        requestUrl L w \<lparr>rq_apiKey = openRouterApiKey st, rq_model = model,
                         rq_prompt = prompt, rq_stream = False\<rparr> = (Inr response, w1)
        \<and> api_json response = Inr data
        \<and> completion L st w model prompt = (Inr r, w') \<longrightarrow>
        res_model r = (if truthy (getProp data (str ''model''))
                       then the (getProp data (str ''model'')) else JStr model))"
proof (intro conjI allI impI)
  fix r w' k'
  assume "streamCompletion L st w k model prompt onStream = (Inr r, w', k')"
  then show "res_model r = JStr model"
    by (auto simp: streamCompletion_def split: prod.splits sum.splits if_splits option.splits)
next
  fix response w1 data r w'
  assume a: "requestUrl L w \<lparr>rq_apiKey = openRouterApiKey st, rq_model = model,
                         rq_prompt = prompt, rq_stream = False\<rparr> = (Inr response, w1)
        \<and> api_json response = Inr data
        \<and> completion L st w model prompt = (Inr r, w')"
  then show "res_model r = (if truthy (getProp data (str ''model''))
                       then the (getProp data (str ''model'')) else JStr model)"
    by (cases data) (auto simp: completion_def orElse_def split: if_splits)
qed

lemma scriptedLLM_sel [simp]:
  "requestUrl (scriptedLLM api stream known) w rq = (Inr (api (rq_model rq)), w @ [rq_model rq])"
  "fetchStream (scriptedLLM api stream known) w rq = (Inr (stream (rq_model rq)), w @ [rq_model rq])"
  "jsonParse (scriptedLLM api stream known) = parseKnown known"
  "jsonStringify (scriptedLLM api stream known) = render"
  "toStr (scriptedLLM api stream known) = render"
  "buildSummarizationPrompt (scriptedLLM api stream known) st text len language custom = text"
  by (simp_all add: scriptedLLM_def)

lemma demoSettings_sel [simp]:
  "openRouterApiKey (demoSettings model rank) = str ''key''"
  "defaultModel (demoSettings model rank) = model"
  "defaultLength (demoSettings model rank) = str ''medium''"
  "outputLanguage (demoSettings model rank) = []"
  "freeModelRank (demoSettings model rank) = rank"
  by (simp_all add: demoSettings_def)

lemma names_distinct:
  "str ''A'' \<noteq> str ''B''" "str ''A'' \<noteq> str ''C''" "str ''B'' \<noteq> str ''C''"
  "str ''C'' \<noteq> str ''down''" "str ''C'' \<noteq> str ''denied''"
  "str ''down'' \<noteq> str ''A''" "str ''down'' \<noteq> str ''B''" "str ''denied'' \<noteq> str ''down''"
  by (simp_all add: str_def)

lemma attempt_limited:
  "m \<in> set limited \<Longrightarrow>
   attempt (scriptedLLM (limitedApi limited) stream known) (demoSettings dm rank) p None m w k
     = (Inl (rateLimitExceeded m), w @ [m], k)"
  by (simp add: attempt_def completion_def limitedApi_def api429_def)

lemma attempt_ok:
  "m \<notin> set limited \<Longrightarrow> m \<noteq> str ''down'' \<Longrightarrow> m \<noteq> str ''denied'' \<Longrightarrow>
   attempt (scriptedLLM (limitedApi limited) stream known) (demoSettings dm rank) p None m w k
     = (Inr \<lparr>res_content = JStr (str ''summary''),
             res_model = (if m = [] then JStr [] else JStr m),
             res_usage = None\<rparr>, w @ [m], k)"
  by (simp add: attempt_def completion_def limitedApi_def apiOk_def completionBody_def orElse_def)
     (simp add: str_def)

lemma attempt_down:
  "str ''down'' \<notin> set limited \<Longrightarrow>
   attempt (scriptedLLM (limitedApi limited) stream known) (demoSettings dm rank) p None (str ''down'') w k
     = (Inl (Error (str ''OpenRouter API error: Internal Server Error'')), w @ [str ''down''], k)"
  by (simp add: attempt_def completion_def limitedApi_def) (simp add: str_def)

lemma not_rate_limit_500: "\<not> isRateLimit (Error (str ''OpenRouter API error: Internal Server Error''))"
  by (simp add: isRateLimit_def toLowerCase_def toLowerAscii_def str_def startsWith_def)

text \<open>
  C3 on ranked lists where the first two models answer 429: the third model's result is
  returned and the fourth is never requested; a failure of the third that is not a rate
  limit is raised; three rate limits end with the last error.
\<close>

theorem fallback_order_witness:
  "completionWithAutoFree
     (scriptedLLM (limitedApi [str ''A'', str ''B'']) (\<lambda>m. streamOk []) [])
     (demoSettings (str ''auto-free'') [str ''A'', str ''B'', str ''C'', str ''D'']) [] ()
     (str ''p'') None
   = (Inr \<lparr>res_content = JStr (str ''summary''), res_model = JStr (str ''C''),
           res_usage = None\<rparr>, [str ''A'', str ''B'', str ''C''], ())
   \<and> completionWithAutoFree
     (scriptedLLM (limitedApi [str ''A'', str ''B'']) (\<lambda>m. streamOk []) [])
     (demoSettings (str ''auto-free'') [str ''A'', str ''B'', str ''down'', str ''C'']) [] ()
     (str ''p'') None
   = (Inl (Error (str ''OpenRouter API error: Internal Server Error'')),
      [str ''A'', str ''B'', str ''down''], ())
   \<and> completionWithAutoFree
     (scriptedLLM (limitedApi [str ''A'', str ''B'', str ''C'']) (\<lambda>m. streamOk []) [])
     (demoSettings (str ''auto-free'') [str ''A'', str ''B'', str ''C'']) [] ()
     (str ''p'') None
   = (Inl (allRateLimited (Some (rateLimitExceeded (str ''C'')))),
      [str ''A'', str ''B'', str ''C''], ())"
proof -
  let ?S = "\<lambda>m. streamOk []"
  let ?L2 = "scriptedLLM (limitedApi [str ''A'', str ''B'']) ?S []"
  let ?L3 = "scriptedLLM (limitedApi [str ''A'', str ''B'', str ''C'']) ?S []"
  have run2: "rateLimitedRun ?L2 (demoSettings dm rank) (str ''p'') None [str ''A'', str ''B''] None [] ()
        = Some (Some (rateLimitExceeded (str ''B'')), [str ''A'', str ''B''], ())" for dm rank
    by (simp add: attempt_limited isRateLimit_429)
  have run3: "rateLimitedRun ?L3 (demoSettings dm rank) (str ''p'') None [str ''A'', str ''B''] None [] ()
        = Some (Some (rateLimitExceeded (str ''B'')), [str ''A'', str ''B''], ())" for dm rank
    by (simp add: attempt_limited isRateLimit_429)
  have a: "freeModelRank (demoSettings (str ''auto-free'') [str ''A'', str ''B'', str ''C'', str ''D''])
             = [str ''A'', str ''B''] @ str ''C'' # [str ''D'']" by simp
  have b: "freeModelRank (demoSettings (str ''auto-free'') [str ''A'', str ''B'', str ''down'', str ''C''])
             = [str ''A'', str ''B''] @ str ''down'' # [str ''C'']" by simp
  have c: "freeModelRank (demoSettings (str ''auto-free'') [str ''A'', str ''B'', str ''C''])
             = [str ''A'', str ''B''] @ str ''C'' # []" by simp
  have okC: "attempt ?L2 (demoSettings dm rank) (str ''p'') None (str ''C'') [str ''A'', str ''B''] ()
      = (Inr \<lparr>res_content = JStr (str ''summary''), res_model = JStr (str ''C''),
             res_usage = None\<rparr>, [str ''A'', str ''B'', str ''C''], ())" for dm rank
    using attempt_ok[of "str ''C''" "[str ''A'', str ''B'']" ?S "[]" dm rank "str ''p''" "[str ''A'', str ''B'']" "()"]
    by (simp add: names_distinct names_distinct[symmetric])
  have down: "attempt ?L2 (demoSettings dm rank) (str ''p'') None (str ''down'') [str ''A'', str ''B''] ()
      = (Inl (Error (str ''OpenRouter API error: Internal Server Error'')),
         [str ''A'', str ''B'', str ''down''], ())" for dm rank
    using attempt_down[of "[str ''A'', str ''B'']" ?S "[]" dm rank "str ''p''" "[str ''A'', str ''B'']" "()"]
    by (simp add: names_distinct)
  have limC: "attempt ?L3 (demoSettings dm rank) (str ''p'') None (str ''C'') [str ''A'', str ''B''] ()
      = (Inl (rateLimitExceeded (str ''C'')), [str ''A'', str ''B'', str ''C''], ())" for dm rank
    by (simp add: attempt_limited)
  from fallback_order[OF a run2] okC
  have 1: "completionWithAutoFree ?L2
     (demoSettings (str ''auto-free'') [str ''A'', str ''B'', str ''C'', str ''D'']) [] ()
     (str ''p'') None
   = (Inr \<lparr>res_content = JStr (str ''summary''), res_model = JStr (str ''C''),
           res_usage = None\<rparr>, [str ''A'', str ''B'', str ''C''], ())"
    by simp
  from fallback_order[OF b run2] down not_rate_limit_500
  have 2: "completionWithAutoFree ?L2
     (demoSettings (str ''auto-free'') [str ''A'', str ''B'', str ''down'', str ''C'']) [] ()
     (str ''p'') None
   = (Inl (Error (str ''OpenRouter API error: Internal Server Error'')),
      [str ''A'', str ''B'', str ''down''], ())"
    by simp
  from fallback_order[OF c run3] limC isRateLimit_429
  have 3: "completionWithAutoFree ?L3
     (demoSettings (str ''auto-free'') [str ''A'', str ''B'', str ''C'']) [] ()
     (str ''p'') None
   = (Inl (allRateLimited (Some (rateLimitExceeded (str ''C'')))),
      [str ''A'', str ''B'', str ''C''], ())"
    by simp
  from 1 2 3 show ?thesis by blast
qed

text \<open>
  The amended C4 at four concrete responses: 429, 500, an in-band error, a completion;
  the 500 error ends the fallback loop.
\<close>

theorem completion_outcomes_witness:
  "completion (scriptedLLM (limitedApi [str ''A'']) (\<lambda>m. streamOk []) [])
      (demoSettings (str ''A'') []) [] (str ''A'') (str ''p'')
     = (Inl (Error (str ''Rate limit exceeded (429) for model A'')), [str ''A''])
   \<and> isRateLimit (Error (str ''Rate limit exceeded (429) for model A''))
   \<and> completion (scriptedLLM (limitedApi [str ''A'']) (\<lambda>m. streamOk []) [])
      (demoSettings (str ''A'') []) [] (str ''down'') (str ''p'')
     = (Inl (Error (str ''OpenRouter API error: Internal Server Error'')), [str ''down''])
   \<and> completion (scriptedLLM (limitedApi [str ''A'']) (\<lambda>m. streamOk []) [])
      (demoSettings (str ''A'') []) [] (str ''denied'') (str ''p'')
     = (Inl (Error (str ''Invalid API key'')), [str ''denied''])
   \<and> completion (scriptedLLM (limitedApi [str ''A'']) (\<lambda>m. streamOk []) [])
      (demoSettings (str ''A'') []) [] (str ''C'') (str ''p'')
     = (Inr \<lparr>res_content = JStr (str ''summary''), res_model = JStr (str ''C''),
             res_usage = None\<rparr>, [str ''C''])
   \<and> tryModels (scriptedLLM (limitedApi [str ''A'']) (\<lambda>m. streamOk []) [])
      (demoSettings (str ''A'') []) (str ''p'') None [str ''down''] None [] ()
     = (Inl (Error (str ''OpenRouter API error: Internal Server Error'')), [str ''down''], ())"
proof -
  let ?L = "scriptedLLM (limitedApi [str ''A'']) (\<lambda>m. streamOk []) []"
  let ?st = "demoSettings (str ''A'') []"
  have rq: "requestUrl ?L [] \<lparr>rq_apiKey = openRouterApiKey ?st, rq_model = m,
              rq_prompt = str ''p'', rq_stream = False\<rparr> = (Inr (limitedApi [str ''A''] m), [m])" for m
    by simp
  have sA: "api_status (limitedApi [str ''A''] (str ''A'')) = 429"
    by (simp add: limitedApi_def api429_def)
  have sD: "api_status (limitedApi [str ''A''] (str ''down'')) = 500"
           "api_text (limitedApi [str ''A''] (str ''down'')) = str ''Internal Server Error''"
    by (simp_all add: limitedApi_def names_distinct)
  have sE: "api_status (limitedApi [str ''A''] (str ''denied'')) = 200"
           "api_json (limitedApi [str ''A''] (str ''denied'')) = Inr (errorFrame (str ''Invalid API key''))"
    by (simp_all add: limitedApi_def apiOk_def) (simp_all add: str_def)
  have eE: "errorFrame (str ''Invalid API key'') \<noteq> JNull"
           "truthy (getProp (errorFrame (str ''Invalid API key'')) (str ''error''))"
           "errorFieldError ?L (the (getProp (errorFrame (str ''Invalid API key'')) (str ''error'')))
              = Error (str ''Invalid API key'')"
    by (simp_all add: errorFrame_def errorFieldError_def jsToString_def) (simp_all add: str_def)
  have okC: "completion ?L ?st [] (str ''C'') (str ''p'')
     = (Inr \<lparr>res_content = JStr (str ''summary''), res_model = JStr (str ''C''),
             res_usage = None\<rparr>, [str ''C''])"
    using attempt_ok[of "str ''C''" "[str ''A'']" "\<lambda>m. streamOk []" "[]" "str ''A''" "[]" "str ''p''" "[]" "()"]
    by (simp add: attempt_def names_distinct names_distinct[symmetric] split: prod.splits)
  have r429: "rateLimitExceeded (str ''A'') = Error (str ''Rate limit exceeded (429) for model A'')"
    by (simp add: rateLimitExceeded_def str_def)
  from completion_outcomes[OF rq[of "str ''A''"], THEN conjunct1] sA r429
  have 1: "completion ?L ?st [] (str ''A'') (str ''p'')
     = (Inl (Error (str ''Rate limit exceeded (429) for model A'')), [str ''A''])"
    and 2: "isRateLimit (Error (str ''Rate limit exceeded (429) for model A''))"
    by simp_all
  from completion_outcomes[OF rq[of "str ''down''"], THEN conjunct2, THEN conjunct1] sD
  have 3: "completion ?L ?st [] (str ''down'') (str ''p'')
     = (Inl (Error (str ''OpenRouter API error: Internal Server Error'')), [str ''down''])"
    by (simp add: str_def)
  from completion_outcomes[OF rq[of "str ''denied''"], THEN conjunct2, THEN conjunct2, THEN conjunct1] sE eE
  have 4: "completion ?L ?st [] (str ''denied'') (str ''p'')
     = (Inl (Error (str ''Invalid API key'')), [str ''denied''])"
    by simp
  from completion_outcomes[OF rq[of "str ''C''"], THEN conjunct2, THEN conjunct2, THEN conjunct2, THEN conjunct2] okC
  have 5: "completion ?L ?st [] (str ''C'') (str ''p'')
     = (Inr \<lparr>res_content = JStr (str ''summary''), res_model = JStr (str ''C''),
             res_usage = None\<rparr>, [str ''C''])"
    by simp
  from completion_outcomes[OF rq[of "str ''down''"], THEN conjunct2, THEN conjunct2, THEN conjunct2,
         THEN conjunct2, THEN conjunct2, of "[]" None "()"] 3 not_rate_limit_500
  have 6: "tryModels ?L ?st (str ''p'') None [str ''down''] None [] ()
     = (Inl (Error (str ''OpenRouter API error: Internal Server Error'')), [str ''down''], ())"
    by simp
  from 1 2 3 4 5 6 show ?thesis by blast
qed

text \<open>
  Claim C4 as stated fails for an in-band error whose message reports a rate limit: the
  error raised for it is classified as a rate limit, and the fallback loop goes on to
  the next model instead of failing.
\<close>

theorem inband_rate_limit_counterexample:
  "completion (scriptedLLM inbandApi (\<lambda>m. streamOk []) [])
      (demoSettings (str ''auto-free'') [str ''busy'', str ''C'']) [] (str ''busy'') (str ''p'')
     = (Inl (Error (str ''Rate limit exceeded'')), [str ''busy''])
   \<and> isRateLimit (Error (str ''Rate limit exceeded''))
   \<and> completionWithAutoFree (scriptedLLM inbandApi (\<lambda>m. streamOk []) [])
      (demoSettings (str ''auto-free'') [str ''busy'', str ''C'']) [] () (str ''p'') None
     = (Inr \<lparr>res_content = JStr (str ''summary''), res_model = JStr (str ''C''),
             res_usage = None\<rparr>, [str ''busy'', str ''C''], ())"
proof -
  let ?L = "scriptedLLM inbandApi (\<lambda>m. streamOk []) []"
  let ?st = "demoSettings (str ''auto-free'') [str ''busy'', str ''C'']"
  have ne: "str ''C'' \<noteq> str ''busy''" "str ''C'' \<noteq> []" by (simp_all add: str_def)
  have busy: "completion ?L ?st w (str ''busy'') (str ''p'')
     = (Inl (Error (str ''Rate limit exceeded'')), w @ [str ''busy''])" for w
    by (simp add: completion_def inbandApi_def apiOk_def errorFrame_def errorFieldError_def
          jsToString_def) (simp add: str_def)
  have ok: "completion ?L ?st w (str ''C'') (str ''p'')
     = (Inr \<lparr>res_content = JStr (str ''summary''), res_model = JStr (str ''C''),
             res_usage = None\<rparr>, w @ [str ''C''])" for w
    by (simp add: completion_def inbandApi_def ne apiOk_def completionBody_def orElse_def)
       (simp add: str_def)
  have rl: "isRateLimit (Error (str ''Rate limit exceeded''))"
    by (simp add: isRateLimit_def toLowerCase_def toLowerAscii_def str_def startsWith_def)
  have "completionWithAutoFree ?L ?st [] () (str ''p'') None
     = (Inr \<lparr>res_content = JStr (str ''summary''), res_model = JStr (str ''C''),
             res_usage = None\<rparr>, [str ''busy'', str ''C''], ())"
    by (simp add: completionWithAutoFree_def attempt_def busy ok rl)
  with busy[of "[]"] rl show ?thesis by simp
qed

lemma processLine_data:
  "processLine L f (str ''data: '' @ payload) (full, k) =
     (if payload = str ''[DONE]'' then (None, full, k)
      else case parseFrame L payload of
             Inl e \<Rightarrow> (if rethrown e then Some e else None, full, k)
           | Inr c \<Rightarrow>
               if truthy c then
                 (case f (the c) k of
                    (None, k') \<Rightarrow> (None, full @ jsToString L (the c), k')
                  | (Some e, k') \<Rightarrow>
                      (if rethrown e then Some e else None, full @ jsToString L (the c), k'))
               else (None, full, k))"
  by (simp add: processLine_def startsWith_def str_def Let_def)

lemma frame_error_rethrown_iff:
  "payload \<noteq> str ''[DONE]'' \<Longrightarrow> parseFrame L payload = Inl e \<Longrightarrow>
   processLine L f (str ''data: '' @ payload) (full, k) = (if rethrown e then Some e else None, full, k)"
  by (simp add: processLine_data)

lemma processLine_blank: "processLine L f [] (full, k) = (None, full, k)"
  by (simp add: processLine_def startsWith_def str_def)

lemma splitNl_no_newline: "0x0A \<notin> set l \<Longrightarrow> splitNl l = [l]"
  by (induction l) auto

lemma splitNl_line: "0x0A \<notin> set l \<Longrightarrow> splitNl (l @ [0x0A]) = [l, []]"
  by (induction l) (auto simp: splitNl_no_newline)

lemma render_error:
  "render (errorFrame (str ''Rate limit exceeded''))
     = str ''{'' @ dq @ str ''error'' @ dq @ str '':{'' @ dq @ str ''message'' @ dq @ str '':''
         @ dq @ str ''Rate limit exceeded'' @ dq @ str ''}}''"
  by (simp add: errorFrame_def dq_def str_def)

lemma render_delta:
  "render (deltaFrame (str ''server/echo'') t)
     = str ''{'' @ dq @ str ''model'' @ dq @ str '':'' @ dq @ str ''server/echo'' @ dq @ str '',''
         @ dq @ str ''choices'' @ dq @ str '':[{'' @ dq @ str ''delta'' @ dq @ str '':{''
         @ dq @ str ''content'' @ dq @ str '':'' @ dq @ t @ dq @ str ''}}]}''"
  by (simp add: deltaFrame_def dq_def str_def)

lemma chunk_lines:
  "splitNl (sseLine (errorFrame (str ''Rate limit exceeded'')))
     = [str ''data: '' @ render (errorFrame (str ''Rate limit exceeded'')), []]"
  "0x0A \<notin> set t \<Longrightarrow>
   splitNl (sseLine (deltaFrame (str ''server/echo'') t))
     = [str ''data: '' @ render (deltaFrame (str ''server/echo'') t), []]"
  "splitNl (str ''data: [DONE]\<newline>'') = [str ''data: '' @ str ''[DONE]'', []]"
proof -
  have e: "0x0A \<notin> set (str ''data: '' @ render (errorFrame (str ''Rate limit exceeded'')))"
    unfolding render_error by (simp add: dq_def str_def)
  show "splitNl (sseLine (errorFrame (str ''Rate limit exceeded'')))
     = [str ''data: '' @ render (errorFrame (str ''Rate limit exceeded'')), []]"
    unfolding sseLine_def using splitNl_line[OF e] by simp
  show "splitNl (str ''data: [DONE]\<newline>'') = [str ''data: '' @ str ''[DONE]'', []]"
    by (simp add: str_def)
  assume "0x0A \<notin> set t"
  then have d: "0x0A \<notin> set (str ''data: '' @ render (deltaFrame (str ''server/echo'') t))"
    unfolding render_delta by (simp add: dq_def str_def)
  show "splitNl (sseLine (deltaFrame (str ''server/echo'') t))
     = [str ''data: '' @ render (deltaFrame (str ''server/echo'') t), []]"
    unfolding sseLine_def using splitNl_line[OF d] by simp
qed

lemma render_differ:
  "render (errorFrame (str ''Rate limit exceeded'')) \<noteq> render (deltaFrame (str ''server/echo'') t)"
  "render (errorFrame (str ''Rate limit exceeded'')) \<noteq> str ''[DONE]''"
  "render (deltaFrame (str ''server/echo'') t) \<noteq> str ''[DONE]''"
  unfolding render_error render_delta by (simp_all add: dq_def str_def)

lemma parse_swallowed:
  "parseFrame (scriptedLLM api stream swallowedKnown) (render (errorFrame (str ''Rate limit exceeded'')))
     = Inl (Error (str ''Rate limit exceeded''))"
  "parseFrame (scriptedLLM api stream swallowedKnown) (render (deltaFrame (str ''server/echo'') (str ''Hi'')))
     = Inr (Some (JStr (str ''Hi'')))"
proof -
  have "parseKnown swallowedKnown (render (errorFrame (str ''Rate limit exceeded'')))
          = Inr (errorFrame (str ''Rate limit exceeded''))"
    by (simp add: parseKnown_def swallowedKnown_def)
  then show "parseFrame (scriptedLLM api stream swallowedKnown) (render (errorFrame (str ''Rate limit exceeded'')))
     = Inl (Error (str ''Rate limit exceeded''))"
    by (simp add: parseFrame_def errorFrame_def errorFieldError_def jsToString_def)
       (simp add: str_def)
  have "parseKnown swallowedKnown (render (deltaFrame (str ''server/echo'') (str ''Hi'')))
          = Inr (deltaFrame (str ''server/echo'') (str ''Hi''))"
    using render_differ(1)[of "str ''Hi''"] by (simp add: parseKnown_def swallowedKnown_def)
  then show "parseFrame (scriptedLLM api stream swallowedKnown) (render (deltaFrame (str ''server/echo'') (str ''Hi'')))
     = Inr (Some (JStr (str ''Hi'')))"
    by (simp add: parseFrame_def deltaFrame_def) (simp add: str_def)
qed

lemma not_rethrown: "\<not> rethrown (Error (str ''Rate limit exceeded''))"
  by (simp add: rethrown_def str_def startsWith_def)

lemma swallowed_stream:
  "streamCompletion (scriptedLLM (\<lambda>m. api429) (\<lambda>m. streamOk swallowedEvents) swallowedKnown)
       (demoSettings (str ''m'') []) [] [] (str ''m'') (str ''p'') collectChunks
     = (Inr \<lparr>res_content = JStr (str ''Hi''), res_model = JStr (str ''m''), res_usage = None\<rparr>,
        [str ''m''], [JStr (str ''Hi'')])"
proof -
  let ?L = "scriptedLLM (\<lambda>m. api429) (\<lambda>m. streamOk swallowedEvents) swallowedKnown"
  have nl: "0x0A \<notin> set (str ''Hi'')" "str ''Hi'' \<noteq> []" by (simp_all add: str_def)
  have "readLoop ?L collectChunks swallowedEvents ([], [])
          = (None, str ''Hi'', [JStr (str ''Hi'')])"
    unfolding swallowedEvents_def
    by (simp add: chunk_lines(1) chunk_lines(2)[OF nl(1)] nl(2) chunk_lines(3) processLine_data
          processLine_blank parse_swallowed not_rethrown render_differ collectChunks_def
          jsToString_def)
  then show ?thesis
    by (simp add: streamCompletion_def streamOk_def parse_swallowed)
qed

text \<open>
  Claim C5 at a failing input. The frame \<open>{"error":{"message":"Rate limit exceeded"}}\<close>
  parses and carries an \<open>error\<close> field, and the \<open>try\<close> body throws for it; the \<open>catch\<close>
  rethrows only messages containing \<open>error\<close>, so the stream goes on and the completion
  succeeds with the content of the later frame.
\<close>

theorem error_frame_swallowed:
  "parseFrame (scriptedLLM (\<lambda>m. api429) (\<lambda>m. streamOk swallowedEvents) swallowedKnown)
       (render (errorFrame (str ''Rate limit exceeded'')))
     = Inl (Error (str ''Rate limit exceeded''))
   \<and> streamCompletion (scriptedLLM (\<lambda>m. api429) (\<lambda>m. streamOk swallowedEvents) swallowedKnown)
       (demoSettings (str ''m'') []) [] [] (str ''m'') (str ''p'') collectChunks
     = (Inr \<lparr>res_content = JStr (str ''Hi''), res_model = JStr (str ''m''), res_usage = None\<rparr>,
        [str ''m''], [JStr (str ''Hi'')])"
  using swallowed_stream parse_swallowed(1) by simp

text \<open>
  C10 on a stream whose frames echo \<open>server/echo\<close> and on a body that echoes it, for the
  requested model \<open>m\<close>.
\<close>

theorem reported_model_witness:
  "streamCompletion (scriptedLLM (\<lambda>m. api429) (\<lambda>m. streamOk swallowedEvents) swallowedKnown)
       (demoSettings (str ''m'') []) [] [] (str ''m'') (str ''p'') collectChunks
     = (Inr \<lparr>res_content = JStr (str ''Hi''), res_model = JStr (str ''m''), res_usage = None\<rparr>,
        [str ''m''], [JStr (str ''Hi'')])
   \<and> completion (scriptedLLM echoApi (\<lambda>m. streamOk []) []) (demoSettings (str ''m'') []) []
       (str ''m'') (str ''p'')
     = (Inr \<lparr>res_content = JStr (str ''summary''), res_model = JStr (str ''server/echo''),
             res_usage = None\<rparr>, [str ''m''])"
proof -
  let ?Ls = "scriptedLLM (\<lambda>m. api429) (\<lambda>m. streamOk swallowedEvents) swallowedKnown"
  let ?Lc = "scriptedLLM echoApi (\<lambda>m. streamOk []) []"
  let ?st = "demoSettings (str ''m'') []"
  have c: "completion ?Lc ?st [] (str ''m'') (str ''p'')
     = (Inr \<lparr>res_content = JStr (str ''summary''), res_model = JStr (str ''server/echo''),
             res_usage = None\<rparr>, [str ''m''])"
    by (simp add: completion_def echoApi_def apiOk_def completionBody_def orElse_def) (simp add: str_def)
  have rq: "requestUrl ?Lc [] \<lparr>rq_apiKey = openRouterApiKey ?st, rq_model = str ''m'',
              rq_prompt = str ''p'', rq_stream = False\<rparr> = (Inr (echoApi (str ''m'')), [str ''m''])"
    by simp
  have j: "api_json (echoApi (str ''m'')) = Inr (completionBody (str ''server/echo'') (str ''summary''))"
    by (simp add: echoApi_def apiOk_def)
  have t: "truthy (getProp (completionBody (str ''server/echo'') (str ''summary'')) (str ''model''))"
          "the (getProp (completionBody (str ''server/echo'') (str ''summary'')) (str ''model''))
             = JStr (str ''server/echo'')"
    by (simp_all add: completionBody_def) (simp_all add: str_def)
  note s = reported_model[where L = ?Ls and st = ?st and w = "[]" and k = "[]" and model = "str ''m''"
                 and prompt = "str ''p''" and onStream = collectChunks, THEN conjunct1]
  note n = reported_model[where L = ?Lc and st = ?st and w = "[]" and model = "str ''m''"
                 and prompt = "str ''p''", THEN conjunct2]
  from s swallowed_stream
  have 1: "res_model \<lparr>res_content = JStr (str ''Hi''), res_model = JStr (str ''m''), res_usage = None\<rparr>
             = JStr (str ''m'')" by simp
  from n rq j c t
  have 2: "res_model \<lparr>res_content = JStr (str ''summary''), res_model = JStr (str ''server/echo''),
             res_usage = None\<rparr> = JStr (str ''server/echo'')"
    by (metis (no_types, lifting))
  from 1 2 c swallowed_stream show ?thesis by simp
qed

lemma summarize_ignores_signal:
  "summarize L st w k text (options\<lparr>opt_abortSignal := a\<rparr>) = summarize L st w k text options"
  by (simp add: summarize_def Let_def)

lemma escape_never_read:
  "executeStreamingSummarize L st naf w cursorLine line escapeAt text len model
     = executeStreamingSummarize L st naf w cursorLine line None text len model"
  by (simp add: executeStreamingSummarize_def summarize_def Let_def)

lemma render_delta_inj:
  "render (deltaFrame (str ''server/echo'') t) = render (deltaFrame (str ''server/echo'') t') \<longleftrightarrow> t = t'"
  unfolding render_delta by (simp add: dq_def str_def)

lemma parse_three:
  "t \<in> {str ''Hello'', str '' world'', str ''!''} \<Longrightarrow>
   parseFrame (scriptedLLM api stream threeKnown) (render (deltaFrame (str ''server/echo'') t))
     = Inr (Some (JStr t))"
proof -
  assume t: "t \<in> {str ''Hello'', str '' world'', str ''!''}"
  then have "parseKnown threeKnown (render (deltaFrame (str ''server/echo'') t))
          = Inr (deltaFrame (str ''server/echo'') t)"
    by (auto simp: parseKnown_def threeKnown_def render_delta_inj)
  then show ?thesis
    by (simp add: parseFrame_def deltaFrame_def) (simp add: str_def)
qed

lemma setup_item:
  "setupStreamingInsert 3 (str ''- item'')
     = \<lparr>insertLine = 4, indent = [0x09], currentContent = [], edits = [([0x0A], 3, 6)],
        listening = True\<rparr>"
  by (simp add: setupStreamingInsert_def isListItem_def str_def ws_defs Let_def)

lemma chunks_item:
  "handleStreamChunk \<lparr>insertLine = 4, indent = [0x09], currentContent = [],
       edits = es, listening = True\<rparr> (str ''Hello'')
     = \<lparr>insertLine = 4, indent = [0x09], currentContent = str ''Hello'',
        edits = es @ [(0x09 # str ''Hello'', 4, 1)], listening = True\<rparr>"
  "handleStreamChunk \<lparr>insertLine = 4, indent = [0x09], currentContent = str ''Hello'',
       edits = es, listening = True\<rparr> (str '' world'')
     = \<lparr>insertLine = 4, indent = [0x09], currentContent = str ''Hello world'',
        edits = es @ [(str '' world'', 4, 6)], listening = True\<rparr>"
  "handleStreamChunk \<lparr>insertLine = 4, indent = [0x09], currentContent = str ''Hello world'',
       edits = es, listening = True\<rparr> (str ''!'')
     = \<lparr>insertLine = 4, indent = [0x09], currentContent = str ''Hello world!'',
        edits = es @ [(str ''!'', 4, 12)], listening = True\<rparr>"
  by (simp_all add: handleStreamChunk_def str_def Let_def)

lemma three_stream:
  "readLoop (scriptedLLM api stream threeKnown) (chunkCallback naf) threeEvents
      ([], setupStreamingInsert 3 (str ''- item''))
   = (None, str ''Hello world!'',
      \<lparr>insertLine = 4, indent = [0x09], currentContent = str ''Hello world!'',
        edits = [([0x0A], 3, 6), (0x09 # str ''Hello'', 4, 1), (str '' world'', 4, 6),
                 (str ''!'', 4, 12)],
        listening = True\<rparr>)"
proof -
  have nl: "0x0A \<notin> set (str ''Hello'')" "0x0A \<notin> set (str '' world'')" "0x0A \<notin> set (str ''!'')"
    "str ''Hello'' \<noteq> []" "str '' world'' \<noteq> []" "str ''!'' \<noteq> []"
    by (simp_all add: str_def)
  have cat: "str ''Hello'' @ str '' world'' = str ''Hello world''"
            "str ''Hello world'' @ str ''!'' = str ''Hello world!''"
    by (simp_all add: str_def)
  show ?thesis
    unfolding threeEvents_def setup_item
    by (simp add: chunk_lines(2)[OF nl(1)] chunk_lines(2)[OF nl(2)] chunk_lines(2)[OF nl(3)]
          chunk_lines(3) processLine_data processLine_blank parse_three render_differ
          chunkCallback_def jsToString_def chunks_item nl cat)
qed

text \<open>
  What the action layer does by itself: the accumulated content is the concatenation of
  the chunks handled, one edit each, and an \<open>AbortError\<close> raised by \<open>summarize\<close> gives a
  cancelled outcome with the content accumulated so far.
\<close>

lemma handleStreamChunk_content:
  "currentContent (foldl handleStreamChunk ctx chunks) = currentContent ctx @ concat chunks"
  by (induction chunks arbitrary: ctx) (simp_all add: handleStreamChunk_def Let_def)

lemma handleStreamChunk_edits:
  "length (edits (foldl handleStreamChunk ctx chunks)) = length (edits ctx) + length chunks"
  by (induction chunks arbitrary: ctx) (simp_all add: handleStreamChunk_def Let_def)

lemma cancelled_on_abort_error:
  assumes "summarize L st w (setupStreamingInsert cursorLine line) text
             \<lparr>opt_length = Some (orDefault len (defaultLength st)), opt_language = None,
              opt_model = model, opt_prompt = None,
              opt_onStream = Some (chunkCallback naf), opt_abortSignal = escapeAt\<rparr>
           = (Inl (DOMException (str ''AbortError'') msg), w1, ctx1)"
  shows "executeStreamingSummarize L st naf w cursorLine line escapeAt text len model
           = (Inr \<lparr>out_content = JStr (currentContent ctx1), cancelled = True\<rparr>,
              w1, ctx1\<lparr>listening := False\<rparr>)"
  using assms by (simp add: executeStreamingSummarize_def Let_def)

text \<open>
  Claim C2 at a failing input. Three chunks are streamed and Escape is pressed after the
  first: the outcome is not cancelled, its content is all three chunks, and the callback
  ran three times (the three edits after the initial newline). In general the moment of
  the Escape does not enter the result: \<open>summarize\<close> never reads the signal.
\<close>

theorem escape_ignored_by_stream:
  "executeStreamingSummarize L st naf w cursorLine line escapeAt text len model
     = executeStreamingSummarize L st naf w cursorLine line None text len model
   \<and> executeStreamingSummarize (scriptedLLM (\<lambda>m. api429) (\<lambda>m. streamOk threeEvents) threeKnown)
       (demoSettings (str ''m'') []) notAFunction [] 3 (str ''- item'') (Some 1)
       (str ''text'') None None
     = (Inr \<lparr>out_content = JStr (str ''Hello world!''), cancelled = False\<rparr>,
        [str ''m''],
        \<lparr>insertLine = 4, indent = [0x09], currentContent = str ''Hello world!'',
          edits = [([0x0A], 3, 6), (0x09 # str ''Hello'', 4, 1), (str '' world'', 4, 6),
                   (str ''!'', 4, 12)],
          listening = False\<rparr>)"
proof -
  have m: "str ''m'' \<noteq> str ''auto-free''" "str ''m'' \<noteq> []" by (simp_all add: str_def)
  have ev: "executeStreamingSummarize (scriptedLLM (\<lambda>m. api429) (\<lambda>m. streamOk threeEvents) threeKnown)
       (demoSettings (str ''m'') []) notAFunction [] 3 (str ''- item'') (Some 1)
       (str ''text'') None None
     = (Inr \<lparr>out_content = JStr (str ''Hello world!''), cancelled = False\<rparr>,
        [str ''m''],
        \<lparr>insertLine = 4, indent = [0x09], currentContent = str ''Hello world!'',
          edits = [([0x0A], 3, 6), (0x09 # str ''Hello'', 4, 1), (str '' world'', 4, 6),
                   (str ''!'', 4, 12)],
          listening = False\<rparr>)"
    unfolding executeStreamingSummarize_def summarize_def
    by (simp add: Let_def orDefault_def m streamCompletion_def streamOk_def three_stream)
  show ?thesis
    by (rule conjI) (rule escape_never_read, rule ev)
qed

end
